(* ===== verification/Prelude.thy ===== *)
theory Prelude
  imports Main "HOL-Library.Word" "HOL-Library.Log_Nat"
begin

text \<open>
  The part of Go that every component of the pool uses: machine integers, the three ways a
  Go call can end (a value, a returned \<open>error\<close>, a panic), checked indexing, byte strings,
  number formatting and string splitting, with the lemmas the components share.
  A function of the source that returns \<open>(T, error)\<close> is modelled by a function into
  \<open>'a outcome\<close>; where the source uses the value it gets beside a non-nil error, the model
  returns the pair instead.
\<close>

unbundle bit_operations_syntax

named_theorems outcome_simps \<open>rules that evaluate and invert outcomes\<close>
named_theorems length_simps \<open>lengths of encoded byte strings\<close>

section \<open>Machine integers\<close>

text \<open>\<open>int\<close> and \<open>uint\<close> are 64 bits wide on the platforms the pool is built for.\<close>

type_synonym byte = "8 word"
type_synonym u16 = "16 word"
type_synonym u32 = "32 word"
type_synonym u64 = "64 word"
type_synonym bytes = "byte list"

section \<open>Errors, panics, outcomes\<close>

datatype go_error =
    ErrHexLength              \<comment> \<open>\<open>hex.ErrLength\<close>\<close>
  | ErrHexByte byte           \<comment> \<open>\<open>hex.InvalidByteError\<close>\<close>
  | ErrText string            \<comment> \<open>\<open>errors.New\<close>\<close>
  | ErrWrap string go_error   \<comment> \<open>a message built from another error's text\<close>
  | ErrJoin go_error go_error \<comment> \<open>\<open>errors.Join\<close>\<close>
  | ErrRemote string          \<comment> \<open>an error of a service or of the standard library's I/O\<close>

datatype go_panic =
    PanicIndex nat nat        \<comment> \<open>index, length\<close>
  | PanicNil                  \<comment> \<open>nil pointer dereference\<close>
  | PanicDivide
  | PanicType                 \<comment> \<open>failed type assertion\<close>
  | PanicText string          \<comment> \<open>\<open>panic(message)\<close>\<close>
  | PanicError string go_error \<comment> \<open>\<open>panic\<close> with an error's text\<close>

datatype 'a outcome = Ok 'a | Err go_error | Panic go_panic

fun bind_out :: "'a outcome \<Rightarrow> ('a \<Rightarrow> 'b outcome) \<Rightarrow> 'b outcome" where
  "bind_out (Ok x) f = f x"
| "bind_out (Err e) f = Err e"
| "bind_out (Panic p) f = Panic p"

fun map_err :: "(go_error \<Rightarrow> go_error) \<Rightarrow> 'a outcome \<Rightarrow> 'a outcome" where
  "map_err f (Ok x) = Ok x"
| "map_err f (Err e) = Err (f e)"
| "map_err f (Panic p) = Panic p"

fun is_ok :: "'a outcome \<Rightarrow> bool" where
  "is_ok (Ok _) = True"
| "is_ok _ = False"

fun is_panic :: "'a outcome \<Rightarrow> bool" where
  "is_panic (Panic _) = True"
| "is_panic _ = False"

lemma bind_out_eq_Ok [outcome_simps]:
  "bind_out m f = Ok y \<longleftrightarrow> (\<exists>x. m = Ok x \<and> f x = Ok y)"
  by (cases m) auto

lemma bind_out_eq_Err [outcome_simps]:
  "bind_out m f = Err e \<longleftrightarrow> m = Err e \<or> (\<exists>x. m = Ok x \<and> f x = Err e)"
  by (cases m) auto

lemma bind_out_eq_Panic [outcome_simps]:
  "bind_out m f = Panic p \<longleftrightarrow> m = Panic p \<or> (\<exists>x. m = Ok x \<and> f x = Panic p)"
  by (cases m) auto

lemma map_err_eq_Ok [outcome_simps]: "map_err f m = Ok y \<longleftrightarrow> m = Ok y"
  by (cases m) auto

lemma map_err_eq_Panic [outcome_simps]: "map_err f m = Panic p \<longleftrightarrow> m = Panic p"
  by (cases m) auto

lemma is_ok_iff [outcome_simps]: "is_ok m \<longleftrightarrow> (\<exists>x. m = Ok x)"
  by (cases m) auto

lemma is_panic_iff [outcome_simps]: "is_panic m \<longleftrightarrow> (\<exists>p. m = Panic p)"
  by (cases m) auto

text \<open>A loop that stops at the first error or panic.\<close>

fun traverse :: "('a \<Rightarrow> 'b outcome) \<Rightarrow> 'a list \<Rightarrow> 'b list outcome" where
  "traverse f [] = Ok []"
| "traverse f (x # xs) =
     bind_out (f x) (\<lambda>y. bind_out (traverse f xs) (\<lambda>ys. Ok (y # ys)))"

lemma traverse_map: "(\<And>x. x \<in> set xs \<Longrightarrow> f x = Ok (g x)) \<Longrightarrow> traverse f xs = Ok (map g xs)"
  by (induction xs) auto

text \<open>Indexing a slice panics out of range.\<close>

definition nth_out :: "'a list \<Rightarrow> nat \<Rightarrow> 'a outcome" where
  "nth_out xs i = (if i < length xs then Ok (xs ! i) else Panic (PanicIndex i (length xs)))"

definition put_out :: "'a list \<Rightarrow> nat \<Rightarrow> 'a \<Rightarrow> 'a list outcome" where
  "put_out xs i x =
     (if i < length xs then Ok (xs[i := x]) else Panic (PanicIndex i (length xs)))"

lemma nth_out_in [simp]: "i < length xs \<Longrightarrow> nth_out xs i = Ok (xs ! i)"
  by (simp add: nth_out_def)

lemma nth_out_out [simp]: "length xs \<le> i \<Longrightarrow> nth_out xs i = Panic (PanicIndex i (length xs))"
  by (simp add: nth_out_def)

lemma put_out_in [simp]: "i < length xs \<Longrightarrow> put_out xs i x = Ok (xs[i := x])"
  by (simp add: put_out_def)

lemma put_out_out [simp]: "length xs \<le> i \<Longrightarrow> put_out xs i x = Panic (PanicIndex i (length xs))"
  by (simp add: put_out_def)

lemma nth_out_eq_Ok [outcome_simps]: "nth_out xs i = Ok y \<longleftrightarrow> i < length xs \<and> xs ! i = y"
  by (auto simp: nth_out_def)

lemma put_out_eq_Ok [outcome_simps]: "put_out xs i x = Ok ys \<longleftrightarrow> i < length xs \<and> ys = xs[i := x]"
  by (auto simp: put_out_def)

section \<open>Strings\<close>

text \<open>A Go string is a byte string; \<open>string\<close> is a list of 8-bit characters.\<close>

definition byte_of_char :: "char \<Rightarrow> byte" where
  "byte_of_char c = of_nat (of_char c)"

definition char_of_byte :: "byte \<Rightarrow> char" where
  "char_of_byte b = char_of (unat b)"

definition string_bytes :: "string \<Rightarrow> bytes" where
  "string_bytes s = map byte_of_char s"

definition bytes_string :: "bytes \<Rightarrow> string" where
  "bytes_string bs = map char_of_byte bs"

lemma unat_byte_bound: "unat (b :: byte) < 256"
  using unsigned_less [of b] by simp

lemma unat_u64_bound: "unat (v :: u64) < 2 ^ 64"
  using unsigned_less [of v] by simp

lemma unat_u32_bound: "unat (v :: u32) < 2 ^ 32"
  using unsigned_less [of v] by simp

lemma unat_ucast_mod: "unat (ucast w :: 'a::len word) = unat w mod 2 ^ LENGTH('a)"
  by (simp add: unsigned_ucast_eq take_bit_eq_mod)

lemma byte_of_char_of_byte [simp]: "byte_of_char (char_of_byte b) = b"
proof -
  have "unat b mod 256 = unat b"
    using unat_byte_bound [of b] by simp
  then show ?thesis
    by (simp add: byte_of_char_def char_of_byte_def)
qed

lemma of_char_bound: "of_char c < (256 :: nat)"
  by (metis nat_of_char_less_256)

lemma char_of_byte_of_char [simp]: "char_of_byte (byte_of_char c) = c"
proof -
  have "unat (of_nat (of_char c) :: byte) = of_char c"
    using of_char_bound [of c] by (simp add: unat_of_nat)
  then show ?thesis
    by (simp add: byte_of_char_def char_of_byte_def)
qed

lemma bytes_string_bytes [simp]: "bytes_string (string_bytes s) = s"
  by (simp add: bytes_string_def string_bytes_def o_def)

lemma string_bytes_string [simp]: "string_bytes (bytes_string bs) = bs"
  by (simp add: bytes_string_def string_bytes_def o_def)

lemma length_string_bytes [simp, length_simps]: "length (string_bytes s) = length s"
  by (simp add: string_bytes_def)

text \<open>\<open>strings.Split\<close> by a single character: \<open>n\<close> separators give \<open>n + 1\<close> parts.\<close>

fun split_on :: "char \<Rightarrow> string \<Rightarrow> string list" where
  "split_on c [] = [[]]"
| "split_on c (x # xs) =
     (if x = c then [] # split_on c xs
      else case split_on c xs of [] \<Rightarrow> [[x]] | p # ps \<Rightarrow> (x # p) # ps)"

lemma split_on_nonempty [simp]: "split_on c s \<noteq> []"
  by (cases s) (auto split: list.splits)

lemma length_split_on: "length (split_on c s) = Suc (count_list s c)"
proof (induction s)
  case (Cons x xs)
  then show ?case
    by (cases "split_on c xs") auto
qed simp

lemma split_on_none: "c \<notin> set s \<Longrightarrow> split_on c s = [s]"
  by (induction s) auto

lemma split_on_append: "c \<notin> set p \<Longrightarrow> split_on c (p @ c # s) = p # split_on c s"
  by (induction p) auto

section \<open>Number formatting\<close>

definition digit_char :: "nat \<Rightarrow> char" where
  "digit_char d = char_of (if d < 10 then 48 + d else 87 + d)"

text \<open>\<open>fmt\<close>'s \<open>%d\<close> and \<open>%x\<close> of a non-negative number: no leading zeros, \<open>0\<close> is \<open>"0"\<close>.\<close>

fun digits_base :: "nat \<Rightarrow> nat \<Rightarrow> nat list" where
  "digits_base b n =
     (if b < 2 \<or> n < b then [n] else digits_base b (n div b) @ [n mod b])"

declare digits_base.simps [simp del]

definition show_dec :: "nat \<Rightarrow> string" where
  "show_dec n = map digit_char (digits_base 10 n)"

definition show_hex :: "nat \<Rightarrow> string" where
  "show_hex n = map digit_char (digits_base 16 n)"

definition show_int :: "int \<Rightarrow> string" where
  "show_int i = (if i < 0 then ''-'' @ show_dec (nat (- i)) else show_dec (nat i))"

text \<open>\<open>%0wx\<close> pads with zeros on the left up to width \<open>w\<close>.\<close>

definition pad_zeros :: "nat \<Rightarrow> string \<Rightarrow> string" where
  "pad_zeros w s = replicate (w - length s) (CHR ''0'') @ s"

definition show_hex_pad :: "nat \<Rightarrow> nat \<Rightarrow> string" where
  "show_hex_pad w n = pad_zeros w (show_hex n)"

text \<open>The sign counts towards the width.\<close>

definition show_hex_pad_int :: "nat \<Rightarrow> int \<Rightarrow> string" where
  "show_hex_pad_int w i =
     (if i < 0 then ''-'' @ show_hex_pad (w - 1) (nat (- i)) else show_hex_pad w (nat i))"

lemma digits_base_nonempty [simp]: "digits_base b n \<noteq> []"
  by (subst digits_base.simps) simp

lemma digits_base_bound: "2 \<le> b \<Longrightarrow> d \<in> set (digits_base b n) \<Longrightarrow> d < b"
proof (induction b n rule: digits_base.induct)
  case (1 b n)
  then show ?case
    by (subst (asm) (2) digits_base.simps) (auto split: if_splits)
qed

lemma length_digits_base:
  "2 \<le> b \<Longrightarrow> n < b ^ w \<Longrightarrow> 0 < w \<Longrightarrow> length (digits_base b n) \<le> w"
proof (induction b n arbitrary: w rule: digits_base.induct)
  case (1 b n)
  show ?case
  proof (cases "n < b")
    case True
    then show ?thesis using "1.prems" by (subst digits_base.simps) auto
  next
    case False
    with "1.prems" obtain w' where w: "w = Suc w'" "0 < w'"
      by (cases w; cases "w - 1") auto
    have "n div b < b ^ w'"
      using "1.prems" w by (simp add: less_mult_imp_div_less mult.commute)
    then have "length (digits_base b (n div b)) \<le> w'"
      using "1.IH" "1.prems" False w by simp
    then show ?thesis
      using False w "1.prems" by (subst digits_base.simps) simp
  qed
qed

lemma length_show_hex_pad [length_simps]:
  "n < 16 ^ w \<Longrightarrow> 0 < w \<Longrightarrow> length (show_hex_pad w n) = w"
  using length_digits_base [of 16 n w]
  by (simp add: show_hex_pad_def pad_zeros_def show_hex_def)

section \<open>Lists\<close>

lemma list_update_append_last: "(xs @ [x])[length xs := y] = xs @ [y]"
  by simp

lemma rev_nth_pred: "i < length xs \<Longrightarrow> rev xs ! i = xs ! (length xs - 1 - i)"
  by (simp add: rev_nth)

lemma Ball_set_nth: "(\<forall>x \<in> set xs. P x) \<longleftrightarrow> (\<forall>i < length xs. P (xs ! i))"
  by (auto simp: all_set_conv_all_nth)

end
