(* ===== verification/GoFloat.thy ===== *)
theory GoFloat
  imports Prelude Complex_Main
begin

text \<open>
  Go's \<open>float64\<close> and \<open>float32\<close> (IEEE 754 binary64 and binary32, round to nearest, ties to
  even), and the rounding of \<open>math/big\<close>'s \<open>Float\<close>. A finite value is the rational it
  denotes; every operation computes the exact result and rounds it. The two zeros are one
  value: no operation of the pool observes the sign of a zero.
\<close>

section \<open>Rounding\<close>

definition pow2 :: "int \<Rightarrow> rat" where
  "pow2 e = (if 0 \<le> e then of_int (2 ^ nat e) else 1 / of_int (2 ^ nat (- e)))"

text \<open>The exponent of the leading bit: \<open>2^ilog2 x \<le> x < 2^(ilog2 x + 1)\<close> for positive \<open>x\<close>.\<close>

definition ilog2 :: "rat \<Rightarrow> int" where
  "ilog2 x =
     (let (n, d) = quotient_of x;
          k = bitlen n - bitlen d
      in if pow2 k \<le> x then k else k - 1)"

definition round_even :: "rat \<Rightarrow> int" where
  "round_even x =
     (let f = \<lfloor>x\<rfloor>; d = x - of_int f
      in if d < 1 / 2 then f else if d > 1 / 2 then f + 1 else if even f then f else f + 1)"

text \<open>Rounding to \<open>p\<close> significant bits; \<open>round_ieee\<close> also bounds the exponent of the last bit.\<close>

definition round_at :: "int \<Rightarrow> rat \<Rightarrow> rat" where
  "round_at e x = of_int (round_even (x / pow2 e)) * pow2 e"

definition round_prec :: "nat \<Rightarrow> rat \<Rightarrow> rat" where
  "round_prec p x = (if x = 0 then 0 else round_at (ilog2 \<bar>x\<bar> + 1 - int p) x)"

definition round_ieee :: "nat \<Rightarrow> int \<Rightarrow> rat \<Rightarrow> rat" where
  "round_ieee p q x = (if x = 0 then 0 else round_at (max (ilog2 \<bar>x\<bar> + 1 - int p) q) x)"

section \<open>Values and operations\<close>

datatype flt = Fin rat | PInf | NInf | NaN

definition overflow_at :: "int \<Rightarrow> rat \<Rightarrow> flt" where
  "overflow_at m r =
     (if r \<noteq> 0 \<and> m \<le> ilog2 \<bar>r\<bar> then (if 0 < r then PInf else NInf) else Fin r)"

definition fl64 :: "rat \<Rightarrow> flt" where
  "fl64 x = overflow_at 1024 (round_ieee 53 (-1074) x)"

definition fl32 :: "rat \<Rightarrow> flt" where
  "fl32 x = overflow_at 128 (round_ieee 24 (-149) x)"

text \<open>The sign of a result that is an infinity.\<close>

definition inf_of_sign :: "rat \<Rightarrow> flt" where
  "inf_of_sign s = (if 0 < s then PInf else if s < 0 then NInf else NaN)"

fun neg_flt :: "flt \<Rightarrow> flt" where
  "neg_flt (Fin a) = Fin (- a)"
| "neg_flt PInf = NInf"
| "neg_flt NInf = PInf"
| "neg_flt NaN = NaN"

fun add_with :: "(rat \<Rightarrow> flt) \<Rightarrow> flt \<Rightarrow> flt \<Rightarrow> flt" where
  "add_with r (Fin a) (Fin b) = r (a + b)"
| "add_with r NaN _ = NaN"
| "add_with r _ NaN = NaN"
| "add_with r PInf NInf = NaN"
| "add_with r NInf PInf = NaN"
| "add_with r PInf _ = PInf"
| "add_with r NInf _ = NInf"
| "add_with r (Fin _) x = x"

fun sgn_flt :: "flt \<Rightarrow> rat" where
  "sgn_flt (Fin a) = sgn a"
| "sgn_flt PInf = 1"
| "sgn_flt NInf = -1"
| "sgn_flt NaN = 0"

fun mul_with :: "(rat \<Rightarrow> flt) \<Rightarrow> flt \<Rightarrow> flt \<Rightarrow> flt" where
  "mul_with r (Fin a) (Fin b) = r (a * b)"
| "mul_with r NaN _ = NaN"
| "mul_with r _ NaN = NaN"
| "mul_with r x y = inf_of_sign (sgn_flt x * sgn_flt y)"

fun div_with :: "(rat \<Rightarrow> flt) \<Rightarrow> flt \<Rightarrow> flt \<Rightarrow> flt" where
  "div_with r (Fin a) (Fin b) = (if b = 0 then inf_of_sign a else r (a / b))"
| "div_with r NaN _ = NaN"
| "div_with r _ NaN = NaN"
| "div_with r (Fin _) _ = Fin 0"
| "div_with r x (Fin b) = inf_of_sign (sgn_flt x * (if b < 0 then -1 else 1))"
| "div_with r _ _ = NaN"

fun le_flt :: "flt \<Rightarrow> flt \<Rightarrow> bool" where
  "le_flt (Fin a) (Fin b) = (a \<le> b)"
| "le_flt NaN _ = False"
| "le_flt _ NaN = False"
| "le_flt NInf _ = True"
| "le_flt _ PInf = True"
| "le_flt _ _ = False"

text \<open>
  The arithmetic classes, so that the model writes a \<open>float64\<close> expression as the source does;
  \<open>\<le>\<close> and \<open><\<close> are Go's comparisons, false when an operand is a NaN.
\<close>

instantiation flt :: "{zero, one, plus, minus, uminus, times, inverse, ord}"
begin

definition zero_flt :: flt where "0 = Fin 0"
definition one_flt :: flt where "1 = Fin 1"
definition plus_flt :: "flt \<Rightarrow> flt \<Rightarrow> flt" where "x + y = add_with fl64 x y"
definition uminus_flt :: "flt \<Rightarrow> flt" where "- x = neg_flt x"
definition minus_flt :: "flt \<Rightarrow> flt \<Rightarrow> flt" where "x - y = add_with fl64 x (neg_flt y)"
definition times_flt :: "flt \<Rightarrow> flt \<Rightarrow> flt" where "x * y = mul_with fl64 x y"
definition divide_flt :: "flt \<Rightarrow> flt \<Rightarrow> flt" where "x div y = div_with fl64 x y"
definition inverse_flt :: "flt \<Rightarrow> flt" where "inverse x = div_with fl64 (Fin 1) x"
definition less_eq_flt :: "flt \<Rightarrow> flt \<Rightarrow> bool" where "x \<le> y = le_flt x y"
definition less_flt :: "flt \<Rightarrow> flt \<Rightarrow> bool" where "x < y = (le_flt x y \<and> x \<noteq> y)"

instance ..

end

text \<open>\<open>math.Floor\<close>, \<open>math.Round\<close> (halves away from zero), conversions.\<close>

fun floor_flt :: "flt \<Rightarrow> flt" where
  "floor_flt (Fin a) = Fin (of_int \<lfloor>a\<rfloor>)"
| "floor_flt x = x"

definition round_half_away :: "rat \<Rightarrow> int" where
  "round_half_away x = (if 0 \<le> x then \<lfloor>x + 1 / 2\<rfloor> else - \<lfloor>- x + 1 / 2\<rfloor>)"

fun round_flt :: "flt \<Rightarrow> flt" where
  "round_flt (Fin a) = Fin (of_int (round_half_away a))"
| "round_flt x = x"

definition flt_of_nat :: "nat \<Rightarrow> flt" where "flt_of_nat n = fl64 (of_nat n)"
definition flt_of_int :: "int \<Rightarrow> flt" where "flt_of_int i = fl64 (of_int i)"
definition flt32_of_nat :: "nat \<Rightarrow> flt" where "flt32_of_nat n = fl32 (of_nat n)"
definition div32 :: "flt \<Rightarrow> flt \<Rightarrow> flt" where "div32 x y = div_with fl32 x y"

text \<open>\<open>float32(x)\<close> of a \<open>float64\<close>.\<close>

fun to_flt32 :: "flt \<Rightarrow> flt" where
  "to_flt32 (Fin a) = fl32 a"
| "to_flt32 x = x"

text \<open>Arithmetic on finite operands.\<close>

lemma flt_arith [simp]:
  "Fin a + Fin b = fl64 (a + b)"
  "Fin a - Fin b = fl64 (a - b)"
  "Fin a * Fin b = fl64 (a * b)"
  "b \<noteq> 0 \<Longrightarrow> Fin a / Fin b = fl64 (a / b)"
  "- Fin a = Fin (- a)"
  by (simp_all add: plus_flt_def minus_flt_def times_flt_def divide_flt_def uminus_flt_def)

lemma flt_order [simp]:
  "Fin a \<le> Fin b \<longleftrightarrow> a \<le> b"
  "Fin a < Fin b \<longleftrightarrow> a < b"
  by (auto simp: less_eq_flt_def less_flt_def)

lemma flt_NaN_order [simp]:
  "\<not> NaN \<le> x" "\<not> x \<le> NaN" "\<not> NaN < x" "\<not> x < NaN"
  by (cases x; simp add: less_eq_flt_def less_flt_def)+

section \<open>Facts about rounding\<close>

lemma pow2_pos [simp]: "0 < pow2 e"
  by (simp add: pow2_def)

lemma pow2_nonneg [simp]: "0 \<le> pow2 e"
  using pow2_pos [of e] by linarith

lemma pow2_nonzero [simp]: "pow2 e \<noteq> 0"
  using pow2_pos [of e] by linarith

lemma pow2_0 [simp]: "pow2 0 = 1"
  by (simp add: pow2_def)

lemma pow2_nat: "pow2 (int n) = 2 ^ n"
  by (simp add: pow2_def)

lemma pow2_powi: "pow2 e = 2 powi e"
  by (simp add: pow2_def power_int_def inverse_eq_divide power_one_over)

lemma pow2_add: "pow2 (a + b) = pow2 a * pow2 b"
  by (simp add: pow2_powi power_int_add)

lemma pow2_Suc: "pow2 (e + 1) = 2 * pow2 e"
  using pow2_add [of e 1] by (simp add: pow2_powi)

lemma pow2_mono: "a \<le> b \<Longrightarrow> pow2 a \<le> pow2 b"
  by (simp add: pow2_powi power_int_increasing)

lemma pow2_less_iff [simp]: "pow2 a < pow2 b \<longleftrightarrow> a < b"
  by (metis linorder_not_le one_less_numeral_iff pow2_mono pow2_powi power_int_strict_increasing
      semiring_norm(76))

lemma pow2_diff: "pow2 b / pow2 a = pow2 (b - a)"
  by (simp add: pow2_powi power_int_diff)

lemma pow2_diff_nat: "a \<le> b \<Longrightarrow> pow2 b / pow2 a = 2 ^ nat (b - a)"
  by (simp add: pow2_diff) (simp add: pow2_def)

lemma nat_floorlog_bounds:
  "0 < n \<Longrightarrow> 2 ^ (floorlog 2 n - 1) \<le> (n :: nat) \<and> n < 2 ^ floorlog 2 n \<and> 0 < floorlog 2 n"
  using floorlog_bounds [of n 2] by (simp add: floorlog_def)

lemma ilog2_bounds:
  assumes "0 < x"
  shows "pow2 (ilog2 x) \<le> x" and "x < pow2 (ilog2 x + 1)"
proof -
  obtain n d where q: "quotient_of x = (n, d)" by force
  have d: "0 < d" using quotient_of_denom_pos [OF q] .
  have x: "x = of_int n / of_int d" using quotient_of_div [OF q] .
  have n: "0 < n" using assms d by (simp add: x zero_less_divide_iff)
  define bn bd where "bn = floorlog 2 (nat n)" and "bd = floorlog 2 (nat d)"
  have bn: "2 ^ (bn - 1) \<le> nat n" "nat n < 2 ^ bn" "0 < bn"
    using nat_floorlog_bounds [of "nat n"] n by (auto simp: bn_def)
  have bd: "2 ^ (bd - 1) \<le> nat d" "nat d < 2 ^ bd" "0 < bd"
    using nat_floorlog_bounds [of "nat d"] d by (auto simp: bd_def)
  have rn: "pow2 (int bn - 1) \<le> of_int n" "of_int n < pow2 (int bn)"
  proof -
    have "int (2 ^ (bn - 1)) \<le> n" "n < int (2 ^ bn)" using bn n by linarith+
    then have "of_int (int (2 ^ (bn - 1))) \<le> (of_int n :: rat)"
      "(of_int n :: rat) < of_int (int (2 ^ bn))" by (simp_all only: of_int_le_iff of_int_less_iff)
    then show "pow2 (int bn - 1) \<le> of_int n" "of_int n < pow2 (int bn)"
      using bn(3) pow2_nat [of "bn - 1"] by (simp_all add: pow2_nat of_nat_diff)
  qed
  have rd: "pow2 (int bd - 1) \<le> of_int d" "of_int d < pow2 (int bd)"
  proof -
    have "int (2 ^ (bd - 1)) \<le> d" "d < int (2 ^ bd)" using bd d by linarith+
    then have "of_int (int (2 ^ (bd - 1))) \<le> (of_int d :: rat)"
      "(of_int d :: rat) < of_int (int (2 ^ bd))" by (simp_all only: of_int_le_iff of_int_less_iff)
    then show "pow2 (int bd - 1) \<le> of_int d" "of_int d < pow2 (int bd)"
      using bd(3) pow2_nat [of "bd - 1"] by (simp_all add: pow2_nat of_nat_diff)
  qed
  define k where "k = int bn - int bd"
  have dpos: "(0 :: rat) < of_int d" using d by simp
  have "x < pow2 (int bn) / of_int d"
    using rn(2) dpos by (simp add: x divide_strict_right_mono)
  also have "\<dots> \<le> pow2 (int bn) / pow2 (int bd - 1)"
    using rd(1) dpos by (intro divide_left_mono mult_pos_pos) auto
  also have "\<dots> = pow2 (k + 1)"
    by (simp add: k_def pow2_diff algebra_simps)
  finally have up: "x < pow2 (k + 1)" .
  have "pow2 (k - 1) = pow2 (int bn - 1) / pow2 (int bd)"
    by (simp add: k_def pow2_diff algebra_simps)
  also have "\<dots> \<le> of_int n / pow2 (int bd)"
    using rn(1) by (intro divide_right_mono) auto
  also have "\<dots> \<le> x"
    using rd(2) dpos n by (simp add: x) (intro divide_left_mono mult_pos_pos, auto)
  finally have lo: "pow2 (k - 1) \<le> x" .
  have il: "ilog2 x = (if pow2 k \<le> x then k else k - 1)"
    by (simp add: ilog2_def q Let_def k_def bn_def bd_def bitlen_def)
  show "pow2 (ilog2 x) \<le> x" using lo by (simp add: il)
  show "x < pow2 (ilog2 x + 1)" using up by (simp add: il not_le)
qed

lemma ilog2_unique:
  assumes "pow2 k \<le> x" and "x < pow2 (k + 1)"
  shows "ilog2 x = k"
proof -
  have x: "0 < x" using assms(1) pow2_pos [of k] by linarith
  have "pow2 (ilog2 x) < pow2 (k + 1)" "pow2 k < pow2 (ilog2 x + 1)"
    using ilog2_bounds [OF x] assms by linarith+
  then show ?thesis by simp
qed

lemma ilog2_mono: "0 < x \<Longrightarrow> x \<le> y \<Longrightarrow> ilog2 x \<le> ilog2 y"
  using ilog2_bounds [of x] ilog2_bounds [of y] pow2_less_iff [of "ilog2 x" "ilog2 y + 1"]
  by linarith

lemma round_even_of_int [simp]: "round_even (of_int i) = i"
  by (simp add: round_even_def)

lemma round_even_0 [simp]: "round_even 0 = 0"
  by (simp add: round_even_def)

lemma round_even_minus: "round_even (- x) = - round_even x"
proof (cases "x = of_int \<lfloor>x\<rfloor>")
  case True
  then show ?thesis by (metis of_int_minus round_even_of_int)
next
  case False
  then have c: "\<lfloor>- x\<rfloor> = - \<lfloor>x\<rfloor> - 1"
    by (simp add: floor_minus ceiling_altdef)
  have "x - of_int \<lfloor>x\<rfloor> < 1" by linarith
  then show ?thesis
    unfolding round_even_def Let_def c by (auto simp: algebra_simps)
qed

lemma round_even_mono:
  assumes "x \<le> y"
  shows "round_even x \<le> round_even y"
proof (cases "\<lfloor>x\<rfloor> = \<lfloor>y\<rfloor>")
  case True
  then show ?thesis using assms by (auto simp: round_even_def Let_def)
next
  case False
  then have "\<lfloor>x\<rfloor> + 1 \<le> \<lfloor>y\<rfloor>" using assms floor_mono [of x y] by linarith
  moreover have "round_even x \<le> \<lfloor>x\<rfloor> + 1" "\<lfloor>y\<rfloor> \<le> round_even y"
    by (auto simp: round_even_def Let_def)
  ultimately show ?thesis by linarith
qed

lemma round_even_nearest: "\<bar>of_int (round_even x) - x\<bar> \<le> 1 / 2"
  unfolding round_even_def Let_def by (auto simp: abs_if algebra_simps) linarith+


text \<open>Rounding fixes a representable value: an integer of at most \<open>p\<close> bits, shifted.\<close>

lemma round_at_fix: "x = of_int m * pow2 e \<Longrightarrow> round_at e x = x"
  by (simp add: round_at_def)

lemma round_at_mono: "x \<le> y \<Longrightarrow> round_at e x \<le> round_at e y"
  by (auto simp: round_at_def intro!: mult_right_mono round_even_mono divide_right_mono)

lemma round_at_minus: "round_at e (- x) = - round_at e x"
  by (simp add: round_at_def round_even_minus)

lemma round_at_0 [simp]: "round_at e 0 = 0"
  by (simp add: round_at_def)

lemma round_at_nonneg: "0 \<le> x \<Longrightarrow> 0 \<le> round_at e x"
  using round_at_mono [of 0 x e] by simp

lemma round_at_error: "\<bar>round_at e x - x\<bar> \<le> pow2 e / 2"
proof -
  have "round_at e x - x = (of_int (round_even (x / pow2 e)) - x / pow2 e) * pow2 e"
    by (simp add: round_at_def algebra_simps)
  then have "\<bar>round_at e x - x\<bar> = \<bar>of_int (round_even (x / pow2 e)) - x / pow2 e\<bar> * pow2 e"
    by (simp add: abs_mult)
  also have "\<dots> \<le> 1 / 2 * pow2 e"
    by (intro mult_right_mono round_even_nearest) simp
  finally show ?thesis by simp
qed

lemma round_at_pow2: "e \<le> k \<Longrightarrow> round_at e (pow2 k) = pow2 k"
  by (rule round_at_fix [of _ "2 ^ nat (k - e)"])
    (metis diff_add_cancel of_int_numeral of_int_power pow2_add pow2_diff pow2_diff_nat)

lemma round_ieee_0 [simp]: "round_ieee p q 0 = 0"
  by (simp add: round_ieee_def)

lemma round_ieee_minus: "round_ieee p q (- x) = - round_ieee p q x"
  by (simp add: round_ieee_def round_at_minus)

lemma round_ieee_nonneg: "0 \<le> x \<Longrightarrow> 0 \<le> round_ieee p q x"
  by (simp add: round_ieee_def round_at_nonneg)

lemma round_ieee_mono_pos:
  assumes "0 < x" and "x \<le> y" and "0 < p"
  shows "round_ieee p q x \<le> round_ieee p q y"
proof -
  define ex ey where "ex = max (ilog2 x + 1 - int p) q" and "ey = max (ilog2 y + 1 - int p) q"
  have r: "round_ieee p q x = round_at ex x" "round_ieee p q y = round_at ey y"
    using assms by (simp_all add: round_ieee_def ex_def ey_def)
  show ?thesis
  proof (cases "ex = ey")
    case True
    then show ?thesis using assms round_at_mono r by simp
  next
    case False
    then have lt: "ex < ey" and ey: "ey = ilog2 y + 1 - int p" and il: "ilog2 x < ilog2 y"
      using ilog2_mono [OF assms(1,2)] by (auto simp: ex_def ey_def max_def split: if_splits)
    have y: "0 < y" using assms by linarith
    have "x \<le> pow2 (ilog2 y)"
      using ilog2_bounds(2) [OF assms(1)] il pow2_mono [of "ilog2 x + 1" "ilog2 y"] by linarith
    then have "round_at ex x \<le> round_at ex (pow2 (ilog2 y))" by (rule round_at_mono)
    also have "\<dots> = pow2 (ilog2 y)" using lt ey assms(3) by (intro round_at_pow2) linarith
    also have "\<dots> = round_at ey (pow2 (ilog2 y))"
      using ey assms(3) by (intro round_at_pow2 [symmetric]) linarith
    also have "\<dots> \<le> round_at ey y" using ilog2_bounds(1) [OF y] by (rule round_at_mono)
    finally show ?thesis using r by simp
  qed
qed

lemma round_ieee_mono:
  assumes "x \<le> y" and "0 < p"
  shows "round_ieee p q x \<le> round_ieee p q y"
proof -
  consider "0 < x" | "x \<le> 0" "0 \<le> y" | "y < 0" by linarith
  then show ?thesis
  proof cases
    case 1
    then show ?thesis using assms by (intro round_ieee_mono_pos)
  next
    case 2
    then show ?thesis
      using round_ieee_nonneg [of y p q] round_ieee_nonneg [of "- x" p q]
      by (simp add: round_ieee_minus)
  next
    case 3
    then show ?thesis
      using round_ieee_mono_pos [of "- y" "- x" p q] assms by (simp add: round_ieee_minus)
  qed
qed

lemma round_ieee_fix:
  assumes "x = of_int m * pow2 e" and "q \<le> e" and "\<bar>m\<bar> \<le> 2 ^ p" and "0 < p"
  shows "round_ieee p q x = x"
proof (cases "x = 0")
  case False
  then have x: "0 < \<bar>x\<bar>" by simp
  have m: "m \<noteq> 0" using False assms(1) by auto
  have ab: "\<bar>x\<bar> = of_int \<bar>m\<bar> * pow2 e" using assms(1) by (simp add: abs_mult)
  have "ilog2 \<bar>x\<bar> + 1 - int p \<le> e \<or> \<bar>m\<bar> = 2 ^ p"
  proof (rule ccontr)
    assume "\<not> ?thesis"
    then have gt: "e + int p \<le> ilog2 \<bar>x\<bar>" and lt: "\<bar>m\<bar> < 2 ^ p" using assms(3) by auto
    have "pow2 (e + int p) \<le> \<bar>x\<bar>"
      using gt ilog2_bounds(1) [OF x] pow2_mono by (meson order_trans)
    then have "2 ^ p * pow2 e \<le> of_int \<bar>m\<bar> * pow2 e"
      by (simp add: ab pow2_add pow2_nat mult.commute)
    then have "(2 :: rat) ^ p \<le> of_int \<bar>m\<bar>" by (simp add: mult_le_cancel_right)
    then have "of_int (2 ^ p) \<le> (of_int \<bar>m\<bar> :: rat)" by simp
    then show False using lt by (simp only: of_int_le_iff)
  qed
  then show ?thesis
  proof
    assume le: "ilog2 \<bar>x\<bar> + 1 - int p \<le> e"
    define f where "f = max (ilog2 \<bar>x\<bar> + 1 - int p) q"
    have fe: "f \<le> e" using le assms(2) by (simp add: f_def)
    have "pow2 e = of_int (2 ^ nat (e - f)) * pow2 f"
      using fe by (metis diff_add_cancel of_int_numeral of_int_power pow2_add pow2_diff pow2_diff_nat)
    then have "x = of_int (m * 2 ^ nat (e - f)) * pow2 f" using assms(1) by simp
    then have "round_at f x = x" by (rule round_at_fix)
    then show ?thesis using False by (simp add: round_ieee_def f_def)
  next
    assume mp: "\<bar>m\<bar> = 2 ^ p"
    have ax: "\<bar>x\<bar> = pow2 (e + int p)" using mp by (simp add: ab pow2_add pow2_nat mult.commute)
    have il: "ilog2 \<bar>x\<bar> = e + int p"
      by (rule ilog2_unique) (simp_all add: ax)
    define f where "f = max (e + 1) q"
    have "round_ieee p q \<bar>x\<bar> = round_at f \<bar>x\<bar>" using x il by (simp add: round_ieee_def f_def)
    also have "\<dots> = \<bar>x\<bar>"
      unfolding ax using assms(2,4) by (intro round_at_pow2) (auto simp: f_def)
    finally have a: "round_ieee p q \<bar>x\<bar> = \<bar>x\<bar>" .
    show ?thesis
    proof (cases "0 \<le> x")
      case True
      then show ?thesis using a by simp
    next
      case False
      then show ?thesis using a by (simp add: round_ieee_minus)
    qed
  qed
qed simp

text \<open>A number with at most 53 significant bits is its own \<open>float64\<close>.\<close>

lemma fl64_dyadic:
  assumes "x = of_int m * pow2 e" "- 1074 \<le> e" "e \<le> 970" "\<bar>m\<bar> \<le> 2 ^ 53"
  shows "fl64 x = Fin x"
proof -
  have r: "round_ieee 53 (-1074) x = x" using assms by (intro round_ieee_fix) auto
  have "ilog2 \<bar>x\<bar> < 1024" if "x \<noteq> 0"
  proof -
    have "\<bar>x\<bar> = of_int \<bar>m\<bar> * pow2 e" using assms(1) by (simp add: abs_mult)
    also have "\<dots> \<le> 2 ^ 53 * pow2 e"
    proof (rule mult_right_mono)
      have "of_int \<bar>m\<bar> \<le> (of_int (2 ^ 53) :: rat)" using assms(4) by (simp only: of_int_le_iff)
      then show "of_int \<bar>m\<bar> \<le> (2 ^ 53 :: rat)" by simp
    qed simp
    also have "\<dots> = pow2 (53 + e)" using pow2_nat [of 53] by (simp add: pow2_add)
    finally have "\<bar>x\<bar> \<le> pow2 (53 + e)" .
    moreover have "pow2 (ilog2 \<bar>x\<bar>) \<le> \<bar>x\<bar>" using that by (intro ilog2_bounds(1)) simp
    ultimately have "pow2 (ilog2 \<bar>x\<bar>) < pow2 1024"
      using assms(3) pow2_less_iff [of "53 + e" 1024] by linarith
    then show ?thesis by (simp only: pow2_less_iff)
  qed
  then show ?thesis using r by (auto simp: fl64_def overflow_at_def)
qed

lemma fl64_int: "\<bar>i\<bar> \<le> 2 ^ 53 \<Longrightarrow> fl64 (of_int i) = Fin (of_int i)"
  by (rule fl64_dyadic [of _ i 0]) simp_all

lemma fl64_zero [simp]: "fl64 0 = Fin 0"
  using fl64_int [of 0] by simp

text \<open>Rounding by hand: the exponent, the nearest multiple, the result.\<close>

lemma fl64_round:
  assumes "pow2 k \<le> x" "x < pow2 (k + 1)" "-1022 \<le> k" "k \<le> 1000"
    and "round_even (x / pow2 (k - 52)) = m" "\<bar>m\<bar> \<le> 2 ^ 53"
  shows "fl64 x = Fin (of_int m * pow2 (k - 52))"
proof -
  have x: "0 < x" using assms(1) pow2_pos [of k] by linarith
  have "ilog2 \<bar>x\<bar> = k" using assms(1,2) x by (intro ilog2_unique) simp_all
  then have "round_ieee 53 (-1074) x = of_int m * pow2 (k - 52)"
    using x assms(3,5) by (simp add: round_ieee_def round_at_def)
  moreover have "fl64 (of_int m * pow2 (k - 52)) = Fin (of_int m * pow2 (k - 52))"
    using assms(3,4,6) by (intro fl64_dyadic) auto
  moreover have "round_ieee 53 (-1074) (of_int m * pow2 (k - 52)) = of_int m * pow2 (k - 52)"
    using assms(3,6) by (intro round_ieee_fix) auto
  ultimately show ?thesis by (simp add: fl64_def)
qed

lemma round_even_eq: "\<bar>x - of_int m\<bar> < 1 / 2 \<Longrightarrow> round_even x = m"
  using round_even_nearest [of x] by linarith

end
