(* ===== verification/Sha256.thy ===== *)
theory Sha256
  imports Prelude
begin

text \<open>
  \<open>crypto/sha256\<close>'s \<open>Sum256\<close> on byte strings: padding to 64-byte blocks, the
  message schedule, 64 rounds per block, eight 32-bit words of output written big-endian.
  The proofs of the development use only the length of a digest.
\<close>

type_synonym sha_state = "u32 list"

definition rotr32 :: "nat \<Rightarrow> u32 \<Rightarrow> u32" where
  "rotr32 k x = drop_bit k x OR push_bit (32 - k) x"

definition sha_init :: sha_state where
  "sha_init =
    [1779033703, 3144134277, 1013904242, 2773480762,
     1359893119, 2600822924, 528734635, 1541459225]"

definition sha_round_constants :: "u32 list" where
  "sha_round_constants =
    [1116352408, 1899447441, 3049323471, 3921009573, 961987163, 1508970993,
     2453635748, 2870763221, 3624381080, 310598401, 607225278, 1426881987,
     1925078388, 2162078206, 2614888103, 3248222580, 3835390401, 4022224774,
     264347078, 604807628, 770255983, 1249150122, 1555081692, 1996064986,
     2554220882, 2821834349, 2952996808, 3210313671, 3336571891, 3584528711,
     113926993, 338241895, 666307205, 773529912, 1294757372, 1396182291,
     1695183700, 1986661051, 2177026350, 2456956037, 2730485921, 2820302411,
     3259730800, 3345764771, 3516065817, 3600352804, 4094571909, 275423344,
     430227734, 506948616, 659060556, 883997877, 958139571, 1322822218,
     1537002063, 1747873779, 1955562222, 2024104815, 2227730452, 2361852424,
     2428436474, 2756734187, 3204031479, 3329325298]"

definition be32 :: "byte \<Rightarrow> byte \<Rightarrow> byte \<Rightarrow> byte \<Rightarrow> u32" where
  "be32 a b c d =
     push_bit 24 (ucast a) OR push_bit 16 (ucast b) OR push_bit 8 (ucast c) OR ucast d"

definition be_bytes32 :: "u32 \<Rightarrow> bytes" where
  "be_bytes32 w = [ucast (drop_bit 24 w), ucast (drop_bit 16 w), ucast (drop_bit 8 w), ucast w]"

fun block_words :: "bytes \<Rightarrow> u32 list" where
  "block_words (a # b # c # d # rest) = be32 a b c d # block_words rest"
| "block_words _ = []"

text \<open>The schedule is kept newest word first: \<open>w\<close> holds words \<open>t-1, t-2, \<dots>\<close>.\<close>

definition sched_word :: "u32 list \<Rightarrow> u32" where
  "sched_word w =
     (let x = w ! 1; y = w ! 14
      in (rotr32 17 x XOR rotr32 19 x XOR drop_bit 10 x) + w ! 6
         + (rotr32 7 y XOR rotr32 18 y XOR drop_bit 3 y) + w ! 15)"

fun extend_sched :: "nat \<Rightarrow> u32 list \<Rightarrow> u32 list" where
  "extend_sched 0 w = w"
| "extend_sched (Suc k) w = extend_sched k (sched_word w # w)"

fun sha_round :: "u32 \<times> u32 \<Rightarrow> sha_state \<Rightarrow> sha_state" where
  "sha_round (k, w) [a, b, c, d, e, f, g, h] =
     (let s1 = rotr32 6 e XOR rotr32 11 e XOR rotr32 25 e;
          ch = (e AND f) XOR (NOT e AND g);
          t1 = h + s1 + ch + k + w;
          s0 = rotr32 2 a XOR rotr32 13 a XOR rotr32 22 a;
          maj = (a AND b) XOR (a AND c) XOR (b AND c)
      in [t1 + (s0 + maj), a, b, c, d + t1, e, f, g])"
| "sha_round _ s = s"

definition sha_compress :: "sha_state \<Rightarrow> bytes \<Rightarrow> sha_state" where
  "sha_compress s blk =
     map2 (+) s
       (fold sha_round
          (zip sha_round_constants (rev (extend_sched 48 (rev (block_words blk))))) s)"

fun sha_blocks :: "nat \<Rightarrow> sha_state \<Rightarrow> bytes \<Rightarrow> sha_state" where
  "sha_blocks 0 s bs = s"
| "sha_blocks (Suc n) s bs = sha_blocks n (sha_compress s (take 64 bs)) (drop 64 bs)"

definition be_bytes64 :: "u64 \<Rightarrow> bytes" where
  "be_bytes64 w = map (\<lambda>i. ucast (drop_bit (56 - 8 * i) w)) [0..<8]"

definition sha_pad :: "bytes \<Rightarrow> bytes" where
  "sha_pad bs =
     bs @ [128] @ replicate ((119 - length bs mod 64) mod 64) 0
        @ be_bytes64 (of_nat (8 * length bs))"

definition Sum256 :: "bytes \<Rightarrow> bytes" where
  "Sum256 bs =
     (let p = sha_pad bs
      in concat (map be_bytes32 (sha_blocks (length p div 64) sha_init p)))"

section \<open>A digest has 32 bytes\<close>

lemma length_sha_round: "length (sha_round kw s) = length s"
  by (induction kw s rule: sha_round.induct) (simp_all add: Let_def)

lemma length_fold_sha_round: "length (fold sha_round kws s) = length s"
  by (induction kws arbitrary: s) (simp_all add: length_sha_round)

lemma length_sha_compress: "length (sha_compress s blk) = length s"
  by (simp add: sha_compress_def length_fold_sha_round)

lemma length_sha_blocks: "length (sha_blocks n s bs) = length s"
  by (induction n arbitrary: s bs) (simp_all add: length_sha_compress)

lemma length_concat_be_bytes32: "length (concat (map be_bytes32 ws)) = 4 * length ws"
  by (induction ws) (simp_all add: be_bytes32_def)

lemma length_Sum256 [simp, length_simps]: "length (Sum256 bs) = 32"
  by (simp add: Sum256_def Let_def length_concat_be_bytes32 length_sha_blocks sha_init_def)

text \<open>Padding fills whole blocks, so every input byte is hashed.\<close>

lemma length_sha_pad: "64 dvd length (sha_pad bs)"
proof -
  define m where "m = length bs mod 64"
  have m: "m < 64" by (simp add: m_def)
  have "(119 - m) mod 64 = (if m \<le> 55 then 55 - m else 119 - m)"
  proof (cases "m \<le> 55")
    case True
    then have "119 - m = (55 - m) + 64" by simp
    then have "(119 - m) mod 64 = (55 - m) mod 64" by (metis mod_add_self2)
    then show ?thesis using True by simp
  qed (use m in simp)
  then have "64 dvd (m + 9 + (119 - m) mod 64)"
    using m by (auto simp: dvd_def intro: exI [of _ 1] exI [of _ 2])
  moreover have "length (sha_pad bs) = 64 * (length bs div 64) + (m + 9 + (119 - m) mod 64)"
    by (simp add: sha_pad_def be_bytes64_def m_def)
  ultimately show ?thesis by simp
qed

end
