(* ===== verification/Encoding.thy ===== *)
theory Encoding
  imports GoFloat Sha256
begin

text \<open>
  The byte and hex layer: \<open>encoding/hex\<close>, \<open>src/bitcoin/encoding.go\<close>,
  \<open>src/bitcoin/crypto.go\<close>, \<open>src/pool/encoding.go\<close>, \<open>src/payouts/encoding.go\<close>,
  \<open>src/utils/byte.go\<close> and \<open>src/utils/hash.go\<close>. Loops over indices are kept as loops
  and related to list reversal; \<open>varUint\<close> is related to a reader of the CompactSize format.
\<close>

section \<open>encoding/hex\<close>

definition hex_val :: "char \<Rightarrow> nat option" where
  "hex_val c =
     (let n = of_char c :: nat
      in if 48 \<le> n \<and> n \<le> 57 then Some (n - 48)
         else if 97 \<le> n \<and> n \<le> 102 then Some (n - 87)
         else if 65 \<le> n \<and> n \<le> 70 then Some (n - 55)
         else None)"

text \<open>\<open>hex.DecodeString\<close> gives the bytes before the first fault together with the fault.\<close>

fun hex_decode :: "string \<Rightarrow> bytes \<times> go_error option" where
  "hex_decode [] = ([], None)"
| "hex_decode [p] =
     (case hex_val p of None \<Rightarrow> ([], Some (ErrHexByte (byte_of_char p)))
      | Some _ \<Rightarrow> ([], Some ErrHexLength))"
| "hex_decode (p # q # rest) =
     (case hex_val p of None \<Rightarrow> ([], Some (ErrHexByte (byte_of_char p)))
      | Some a \<Rightarrow>
         (case hex_val q of None \<Rightarrow> ([], Some (ErrHexByte (byte_of_char q)))
          | Some b \<Rightarrow>
             (let (bs, e) = hex_decode rest in (of_nat (16 * a + b) # bs, e))))"

definition DecodeString :: "string \<Rightarrow> bytes outcome" where
  "DecodeString s =
     (case hex_decode s of (bs, None) \<Rightarrow> Ok bs | (_, Some e) \<Rightarrow> Err e)"

definition hex_pair :: "byte \<Rightarrow> string" where
  "hex_pair b = [digit_char (unat b div 16), digit_char (unat b mod 16)]"

definition EncodeToString :: "bytes \<Rightarrow> string" where
  "EncodeToString bs = concat (map hex_pair bs)"

text \<open>The strings \<open>DecodeString\<close> accepts.\<close>

definition valid_hex :: "string \<Rightarrow> bool" where
  "valid_hex s \<longleftrightarrow> even (length s) \<and> (\<forall>c \<in> set s. hex_val c \<noteq> None)"

lemma hex_val_digit_char [simp]: "d < 16 \<Longrightarrow> hex_val (digit_char d) = Some d"
  by (auto simp: hex_val_def digit_char_def)

lemma EncodeToString_simps [simp]:
  "EncodeToString [] = []"
  "EncodeToString (b # bs) =
     digit_char (unat b div 16) # digit_char (unat b mod 16) # EncodeToString bs"
  by (simp_all add: EncodeToString_def hex_pair_def)

lemma EncodeToString_append: "EncodeToString (xs @ ys) = EncodeToString xs @ EncodeToString ys"
  by (simp add: EncodeToString_def)

lemma length_EncodeToString [simp, length_simps]: "length (EncodeToString bs) = 2 * length bs"
  by (induction bs) auto

lemma hex_nibbles: "unat (b :: byte) div 16 < 16" "unat (b :: byte) mod 16 < 16"
  using unat_byte_bound [of b] by auto

lemma hex_decode_encode: "hex_decode (EncodeToString bs) = (bs, None)"
proof (induction bs)
  case (Cons b bs)
  have "16 * (unat b div 16) + unat b mod 16 = unat b" by simp
  then show ?case using Cons hex_nibbles [of b] by simp
qed simp

lemma DecodeString_encode [simp]: "DecodeString (EncodeToString bs) = Ok bs"
  by (simp add: DecodeString_def hex_decode_encode)

lemma hex_decode_append:
  "hex_decode s = (bs, None) \<Longrightarrow> hex_decode (s @ t) = (bs @ fst (hex_decode t), snd (hex_decode t))"
  by (induction s arbitrary: bs rule: hex_decode.induct)
    (auto split: option.splits prod.splits)

lemma DecodeString_append:
  "DecodeString s = Ok bs \<Longrightarrow> DecodeString t = Ok cs \<Longrightarrow> DecodeString (s @ t) = Ok (bs @ cs)"
  by (auto simp: DecodeString_def hex_decode_append split: prod.splits option.splits)

lemma hex_decode_valid: "snd (hex_decode s) = None \<longleftrightarrow> valid_hex s"
  by (induction s rule: hex_decode.induct)
    (auto simp: valid_hex_def split: option.splits prod.splits)

lemma DecodeString_valid: "(\<exists>bs. DecodeString s = Ok bs) \<longleftrightarrow> valid_hex s"
  using hex_decode_valid [of s]
  by (auto simp: DecodeString_def split: prod.splits option.splits)

lemma DecodeString_no_panic: "DecodeString s \<noteq> Panic p"
  by (simp add: DecodeString_def split: prod.splits option.splits)

lemma hex_decode_length: "snd (hex_decode s) = None \<Longrightarrow> length s = 2 * length (fst (hex_decode s))"
  by (induction s rule: hex_decode.induct) (auto split: option.splits prod.splits)

lemma DecodeString_length: "DecodeString s = Ok bs \<Longrightarrow> length s = 2 * length bs"
  using hex_decode_length [of s] by (auto simp: DecodeString_def split: prod.splits option.splits)

lemma valid_hex_encode [simp]: "valid_hex (EncodeToString bs)"
  using DecodeString_valid [of "EncodeToString bs"] by simp

section \<open>Little-endian integers\<close>

definition le_bytes :: "nat \<Rightarrow> 'a::len word \<Rightarrow> bytes" where
  "le_bytes n w = map (\<lambda>i. ucast (drop_bit (8 * i) w)) [0..<n]"

fun le_value :: "bytes \<Rightarrow> nat" where
  "le_value [] = 0"
| "le_value (b # bs) = unat b + 256 * le_value bs"

lemma length_le_bytes [simp, length_simps]: "length (le_bytes n w) = n"
  by (simp add: le_bytes_def)

lemma le_bytes_Suc: "le_bytes (Suc n) w = ucast w # le_bytes n (drop_bit 8 w)"
  by (simp add: le_bytes_def upt_conv_Cons map_Suc_upt [symmetric] o_def drop_bit_drop_bit
      add.commute del: upt_Suc)

lemma unat_ucast_byte: "unat (ucast w :: byte) = unat w mod 256"
  by (simp only: unsigned_ucast_eq take_bit_eq_mod) simp

lemma unat_drop_bit_8: "unat (drop_bit 8 w) = unat w div 256"
proof -
  have "unat (drop_bit 8 w) = drop_bit 8 (unat w)" by (rule unat_drop_bit_eq)
  also have "\<dots> = unat w div 2 ^ 8" by (rule drop_bit_eq_div)
  finally show ?thesis by simp
qed

lemma le_value_le_bytes: "le_value (le_bytes n w) = unat w mod 256 ^ n"
proof (induction n arbitrary: w)
  case 0
  then show ?case by (simp add: le_bytes_def)
next
  case (Suc n)
  have "unat w mod (256 * 256 ^ n) = unat w mod 256 + 256 * (unat w div 256 mod 256 ^ n)"
    by (simp add: mod_mult2_eq)
  then show ?case
    by (simp add: le_bytes_Suc Suc unat_ucast_byte unat_drop_bit_8)
qed

section \<open>src/bitcoin/encoding.go\<close>

definition doubleSha256Bytes :: "bytes \<Rightarrow> bytes" where
  "doubleSha256Bytes input = (let sum = Sum256 input in Sum256 sum)"

definition varUint :: "u64 \<Rightarrow> string outcome" where
  "varUint value =
     (if value \<le> 252 then Ok (EncodeToString [ucast value])
      else if value > 0xfd \<and> value \<le> 0xffff
        then Ok (EncodeToString ([0xfd] @ le_bytes 2 (ucast value :: u16)))
      else if value > 0xffff \<and> value \<le> 0xffffffff
        then Ok (EncodeToString ([0xfe] @ le_bytes 4 (ucast value :: u32)))
      else if value > 0xffffffff \<and> value \<le> 0xffffffffffffffff
        then Ok (EncodeToString ([0xff] @ le_bytes 8 value))
      else Panic (PanicText ''Too large to stream''))"

text \<open>
  The dynamic types the two byte writers switch on. Any other type reaches the \<open>default\<close>
  branch, whose message asserts the value to be a string before \<open>log.Fatalln\<close> ends the
  process. A float outside the range of the target integer has an implementation-defined
  conversion in Go; the model wraps its integer part.
\<close>

datatype go_value =
    VInt u64 | VInt16 u16 | VInt32 u32 | VInt64 u64
  | VUint u64 | VUint16 u16 | VUint32 u32 | VUint64 u64
  | VFloat32 flt | VFloat64 flt | VString string | VOther

fun truncate_flt :: "flt \<Rightarrow> int" where
  "truncate_flt (Fin a) = (if 0 \<le> a then \<lfloor>a\<rfloor> else - \<lfloor>- a\<rfloor>)"
| "truncate_flt _ = 0"

definition fatal_value :: "string \<Rightarrow> go_value \<Rightarrow> 'a outcome" where
  "fatal_value m v =
     (case v of VString s \<Rightarrow> Panic (PanicText (m @ s)) | _ \<Rightarrow> Panic PanicType)"

fun fourLittleEndianBytes :: "go_value \<Rightarrow> bytes outcome" where
  "fourLittleEndianBytes (VInt w) = Ok (le_bytes 4 (ucast w :: u32))"
| "fourLittleEndianBytes (VInt16 w) = Ok (le_bytes 4 (scast w :: u32))"
| "fourLittleEndianBytes (VInt32 w) = Ok (le_bytes 4 w)"
| "fourLittleEndianBytes (VUint w) = Ok (le_bytes 4 (ucast w :: u32))"
| "fourLittleEndianBytes (VUint16 w) = Ok (le_bytes 4 (ucast w :: u32))"
| "fourLittleEndianBytes (VFloat32 x) = Ok (le_bytes 4 (of_int (truncate_flt x) :: u32))"
| "fourLittleEndianBytes (VUint32 w) = Ok (le_bytes 4 w)"
| "fourLittleEndianBytes v = fatal_value ''Unable to write 4 byte stream: '' v"

fun eightLittleEndianBytes :: "go_value \<Rightarrow> bytes outcome" where
  "eightLittleEndianBytes (VInt w) = Ok (le_bytes 8 w)"
| "eightLittleEndianBytes (VInt16 w) = Ok (le_bytes 8 (scast w :: u64))"
| "eightLittleEndianBytes (VInt32 w) = Ok (le_bytes 8 (scast w :: u64))"
| "eightLittleEndianBytes (VInt64 w) = Ok (le_bytes 8 w)"
| "eightLittleEndianBytes (VUint w) = Ok (le_bytes 8 w)"
| "eightLittleEndianBytes (VUint16 w) = Ok (le_bytes 8 (ucast w :: u64))"
| "eightLittleEndianBytes (VUint32 w) = Ok (le_bytes 8 (ucast w :: u64))"
| "eightLittleEndianBytes (VUint64 w) = Ok (le_bytes 8 w)"
| "eightLittleEndianBytes (VFloat32 x) = Ok (le_bytes 8 (of_int (truncate_flt x) :: u64))"
| "eightLittleEndianBytes (VFloat64 x) = Ok (le_bytes 8 (of_int (truncate_flt x) :: u64))"
| "eightLittleEndianBytes v = fatal_value ''Unable to write 8 byte stream: '' v"

text \<open>The loop's state: whether a significant byte was reached, and the bytes kept.\<close>

fun remove_insignificant_step :: "byte \<Rightarrow> bool \<times> bytes \<Rightarrow> bool \<times> bytes" where
  "remove_insignificant_step b (reached, cleaned) =
     (if reached \<and> b = 0 then (reached, cleaned) else (reached \<or> b \<noteq> 0, cleaned @ [b]))"

definition removeInsignificantBytesLittleEndian :: "bytes \<Rightarrow> bytes" where
  "removeInsignificantBytesLittleEndian bs = snd (fold remove_insignificant_step bs (False, []))"

definition bytesWithLengthHeader :: "bytes \<Rightarrow> bytes" where
  "bytesWithLengthHeader bs = [of_nat (length bs)] @ bs"

text \<open>\<open>reverse\<close> writes \<open>r[len-1-index] = b[index]\<close> for each index.\<close>

definition reverse_bytes :: "bytes \<Rightarrow> bytes" where
  "reverse_bytes b =
     fold (\<lambda>index r. r[length b - 1 - index := b ! index]) [0..<length b]
       (replicate (length b) 0)"

definition slice :: "string \<Rightarrow> nat \<Rightarrow> nat \<Rightarrow> string" where
  "slice s i j = take (j - i) (drop i s)"

fun rev_hex_loop :: "string \<Rightarrow> nat \<Rightarrow> string \<Rightarrow> string" where
  "rev_hex_loop s i o' = (if i > 0 then rev_hex_loop s (i - 2) (o' @ slice s (i - 2) i) else o')"

declare rev_hex_loop.simps [simp del]

definition reverseHexBytes :: "string \<Rightarrow> string outcome" where
  "reverseHexBytes hex =
     (if length hex mod 2 \<noteq> 0
      then Err (ErrText ''string must be divisible by 2 to be a byte string'')
      else Ok (rev_hex_loop hex (length hex) []))"

definition reverseHex4Bytes :: "string \<Rightarrow> string outcome" where
  "reverseHex4Bytes hex =
     (let l = length hex
      in if l mod 8 \<noteq> 0
         then Err (ErrText ''string must be divisible by 8 to represent 4 byte array'')
         else Ok (fold (\<lambda>i o'. o' @ slice hex (l - 8 * (i + 1)) (l - 8 * i)) [0..<l div 8] []))"

section \<open>src/bitcoin/crypto.go, src/pool/encoding.go, src/payouts/encoding.go, src/utils\<close>

definition DoubleSha256 :: "string \<Rightarrow> string outcome" where
  "DoubleSha256 input =
     bind_out (DecodeString input) (\<lambda>inputBytes.
       let sum = Sum256 inputBytes; sum = Sum256 sum in Ok (EncodeToString sum))"

text \<open>
  \<open>scrypt.Key\<close> (golang.org/x/crypto, with the parameters N = 1024, r = 1, p = 1 and a
  32-byte key) is a parameter: password and salt to key.
\<close>

definition ScryptDigest :: "(bytes \<Rightarrow> bytes \<Rightarrow> bytes) \<Rightarrow> string \<Rightarrow> string outcome" where
  "ScryptDigest scryptKey input =
     bind_out (DecodeString input) (\<lambda>digest. Ok (EncodeToString (scryptKey digest digest)))"

definition hexStringToByteString :: "string \<Rightarrow> string outcome" where
  "hexStringToByteString hexStr =
     (case DecodeString hexStr of
        Err e \<Rightarrow> Panic (PanicError [] e)
      | Panic p \<Rightarrow> Panic p
      | Ok bs \<Rightarrow> Ok (bytes_string bs))"

definition pool_reverseHexBytes :: "string \<Rightarrow> string outcome" where
  "pool_reverseHexBytes hex =
     (if length hex mod 2 \<noteq> 0
      then Panic (PanicText ''String must be divisible by 2 to be a byte string'')
      else Ok (rev_hex_loop hex (length hex) []))"

definition payouts_reverseHexBytes :: "string \<Rightarrow> string outcome" where
  "payouts_reverseHexBytes hex =
     (if length hex mod 2 \<noteq> 0
      then Err (ErrText ''string must be divisible by 2 to be a byte string'')
      else Ok (rev_hex_loop hex (length hex) []))"

definition payouts_roundToThreeDigits :: "flt \<Rightarrow> flt" where
  "payouts_roundToThreeDigits x = to_flt32 (round_flt (x * Fin 1000) / Fin 1000)"

definition ReverseBytes :: "bytes \<Rightarrow> bytes" where
  "ReverseBytes data = map (\<lambda>i. data ! (length data - 1 - i)) [0..<length data]"

definition DoubleSHA256 :: "bytes \<Rightarrow> bytes" where
  "DoubleSHA256 data = (let hash1 = Sum256 data; hash2 = Sum256 hash1 in hash2)"

section \<open>Reversal\<close>

lemma ReverseBytes_rev [simp]: "ReverseBytes data = rev data"
  by (rule nth_equalityI) (simp_all add: ReverseBytes_def rev_nth)

lemma reverse_loop_inv:
  fixes b :: bytes
  shows "k \<le> length b \<Longrightarrow>
   fold (\<lambda>index r. r[length b - 1 - index := b ! index]) [0..<k] (replicate (length b) 0)
     = replicate (length b - k) 0 @ rev (take k b)"
proof (induction k)
  case (Suc k)
  then have "length b - k = Suc (length b - Suc k)" by simp
  then have "replicate (length b - k) 0 @ rev (take k b)
      = replicate (length b - Suc k) 0 @ (0 :: byte) # rev (take k b)"
    by (simp add: replicate_app_Cons_same)
  then show ?case
    using Suc by (simp add: list_update_append take_Suc_conv_app_nth)
qed simp

lemma reverse_bytes_rev [simp]: "reverse_bytes b = rev b"
  using reverse_loop_inv [of "length b" b] by (simp add: reverse_bytes_def)

text \<open>The pairs of a string in reverse order: what the backward loop builds.\<close>

fun rev_pairs :: "string \<Rightarrow> string" where
  "rev_pairs (a # b # s) = rev_pairs s @ [a, b]"
| "rev_pairs _ = []"

lemma rev_pairs_snoc: "even (length s) \<Longrightarrow> rev_pairs (s @ [a, b]) = [a, b] @ rev_pairs s"
  by (induction s rule: rev_pairs.induct) auto

lemma length_rev_pairs [simp]: "even (length s) \<Longrightarrow> length (rev_pairs s) = length s"
  by (induction s rule: rev_pairs.induct) auto

lemma rev_pairs_rev_pairs: "even (length s) \<Longrightarrow> rev_pairs (rev_pairs s) = s"
  by (induction s rule: rev_pairs.induct) (auto simp: rev_pairs_snoc)

lemma slice_pair:
  "Suc (Suc k) \<le> length s \<Longrightarrow> slice s k (Suc (Suc k)) = [s ! k, s ! Suc k]"
  by (simp add: slice_def take_Suc_conv_app_nth numeral_2_eq_2 [symmetric] nth_drop)
    (simp add: numeral_2_eq_2 take_Suc_conv_app_nth)

lemma rev_hex_loop_pairs:
  "i \<le> length s \<Longrightarrow> even i \<Longrightarrow> rev_hex_loop s i o' = o' @ rev_pairs (take i s)"
proof (induction s i o' rule: rev_hex_loop.induct)
  case (1 s i o')
  show ?case
  proof (cases "i = 0")
    case True
    then show ?thesis by (simp add: rev_hex_loop.simps)
  next
    case False
    with "1.prems" obtain k where i: "i = Suc (Suc k)" and k: "even k"
      by (cases i; cases "i - 1") auto
    have t: "take (Suc (Suc k)) s = take k s @ [s ! k, s ! Suc k]"
      using "1.prems" i by (simp add: take_Suc_conv_app_nth)
    have "rev_hex_loop s i o' = rev_hex_loop s k (o' @ [s ! k, s ! Suc k])"
      using "1.prems" i by (subst rev_hex_loop.simps) (simp add: slice_pair)
    also have "\<dots> = o' @ [s ! k, s ! Suc k] @ rev_pairs (take k s)"
      using "1.IH" "1.prems" i k slice_pair [of k s] by simp
    finally show ?thesis
      using "1.prems" i k by (simp add: t rev_pairs_snoc del: take_Suc)
  qed
qed

lemma rev_hex_loop_all: "even (length s) \<Longrightarrow> rev_hex_loop s (length s) [] = rev_pairs s"
  by (simp add: rev_hex_loop_pairs)

lemma rev_pairs_encode: "rev_pairs (EncodeToString bs) = EncodeToString (rev bs)"
  by (induction bs) (simp_all add: EncodeToString_append)

lemma reverseHexBytes_eq:
  "reverseHexBytes s = (if even (length s) then Ok (rev_pairs s)
     else Err (ErrText ''string must be divisible by 2 to be a byte string''))"
  by (simp add: reverseHexBytes_def rev_hex_loop_all even_iff_mod_2_eq_zero)

lemma reverseHexBytes_encode [simp]:
  "reverseHexBytes (EncodeToString bs) = Ok (EncodeToString (rev bs))"
  by (simp add: reverseHexBytes_eq rev_pairs_encode)

lemma hex_decode_rev_pairs:
  "hex_decode s = (bs, None) \<Longrightarrow> hex_decode (rev_pairs s) = (rev bs, None)"
proof (induction s arbitrary: bs rule: rev_pairs.induct)
  case (1 a b s)
  then obtain x y xs where x: "hex_val a = Some x" "hex_val b = Some y" "hex_decode s = (xs, None)"
    "bs = of_nat (16 * x + y) # xs"
    by (auto split: option.splits prod.splits)
  with "1.IH" have "hex_decode (rev_pairs s) = (rev xs, None)" by simp
  then show ?case using x by (simp add: hex_decode_append)
qed (auto split: option.splits)

lemma DecodeString_eq_Ok: "DecodeString s = Ok bs \<longleftrightarrow> hex_decode s = (bs, None)"
  by (auto simp: DecodeString_def split: prod.splits option.splits)

lemma DecodeString_rev_pairs:
  "DecodeString s = Ok bs \<Longrightarrow> DecodeString (rev_pairs s) = Ok (rev bs)"
  by (simp add: DecodeString_eq_Ok hex_decode_rev_pairs)

lemma pool_reverseHexBytes_eq:
  "pool_reverseHexBytes s = (if even (length s) then Ok (rev_pairs s)
     else Panic (PanicText ''String must be divisible by 2 to be a byte string''))"
  by (simp add: pool_reverseHexBytes_def rev_hex_loop_all even_iff_mod_2_eq_zero)

lemma payouts_reverseHexBytes_eq: "payouts_reverseHexBytes s = reverseHexBytes s"
  by (simp add: payouts_reverseHexBytes_def reverseHexBytes_def)

lemma valid_hex_encode_iff: "valid_hex s \<Longrightarrow> \<exists>bs. DecodeString s = Ok bs \<and> length s = 2 * length bs"
  using DecodeString_valid [of s] DecodeString_length [of s] by blast

text \<open>The hashes are the same function of the bytes, with digests of 32 bytes.\<close>

lemma length_doubleSha256Bytes [simp, length_simps]: "length (doubleSha256Bytes bs) = 32"
  by (simp add: doubleSha256Bytes_def Let_def)

lemma DoubleSHA256_eq [simp]: "DoubleSHA256 bs = doubleSha256Bytes bs"
  by (simp add: DoubleSHA256_def doubleSha256Bytes_def)

lemma DoubleSha256_eq:
  "DoubleSha256 s = bind_out (DecodeString s) (\<lambda>bs. Ok (EncodeToString (doubleSha256Bytes bs)))"
  by (simp add: DoubleSha256_def doubleSha256Bytes_def Let_def)

text \<open>\<open>%0wx\<close> writes the bytes of a number, the most significant first.\<close>

definition pad_digits :: "nat \<Rightarrow> nat \<Rightarrow> nat list" where
  "pad_digits w n = replicate (w - length (digits_base 16 n)) 0 @ digits_base 16 n"

lemma pad_digits_Suc: "0 < w \<Longrightarrow> pad_digits (Suc w) n = pad_digits w (n div 16) @ [n mod 16]"
proof (cases "n < 16")
  case True
  moreover assume "0 < w"
  ultimately show ?thesis
    by (cases w) (simp_all add: pad_digits_def digits_base.simps replicate_append_same [symmetric])
next
  case False
  have "digits_base 16 n = digits_base 16 (n div 16) @ [n mod 16]"
    using False by (subst digits_base.simps) simp
  then show ?thesis by (simp add: pad_digits_def)
qed

lemma pad_digits_1: "n < 16 \<Longrightarrow> pad_digits (Suc 0) n = [n]"
  by (simp add: pad_digits_def digits_base.simps)

lemma digit_char_0: "digit_char 0 = CHR ''0''"
  by code_simp

lemma show_hex_pad_digits: "show_hex_pad w n = map digit_char (pad_digits w n)"
  by (simp add: show_hex_pad_def pad_zeros_def show_hex_def pad_digits_def digit_char_0)

lemma show_hex_pad_encode:
  "unat w < 256 ^ Suc k \<Longrightarrow>
   show_hex_pad (2 * Suc k) (unat w) = EncodeToString (rev (le_bytes (Suc k) w))"
proof (induction k arbitrary: w)
  case 0
  have "pad_digits 2 (unat w) = [unat w div 16, unat w mod 16]"
    using pad_digits_Suc [of 1 "unat w"] 0 by (simp add: pad_digits_1 numeral_2_eq_2)
  with 0 show ?case
    by (simp add: show_hex_pad_digits le_bytes_def unat_ucast_byte)
next
  case (Suc k)
  have m: "unat w div 16 mod 16 = unat w mod 256 div 16" "unat w mod 16 = unat w mod 256 mod 16"
    by (simp_all add: mod_mult2_eq [of "unat w" 16 16, simplified] mod_mod_cancel)
  have "unat (drop_bit 8 w) < 256 ^ Suc k"
    using Suc.prems by (simp add: unat_drop_bit_8 div_less_iff_less_mult mult_ac)
  from Suc.IH [OF this]
  have "show_hex_pad (2 * Suc (Suc k)) (unat w)
      = EncodeToString (rev (le_bytes (Suc k) (drop_bit 8 w)))
        @ [digit_char (unat w div 16 mod 16), digit_char (unat w mod 16)]"
    by (simp add: show_hex_pad_digits pad_digits_Suc unat_drop_bit_8 div_mult2_eq [symmetric])
  also have "\<dots> = EncodeToString (rev (le_bytes (Suc (Suc k)) w))"
    by (subst (2) le_bytes_Suc)
      (simp only: m, simp add: EncodeToString_append hex_pair_def unat_ucast_byte)
  finally show ?case .
qed

section \<open>CompactSize\<close>

text \<open>A reader of Bitcoin's variable-length integers.\<close>

definition read_le :: "nat \<Rightarrow> bytes \<Rightarrow> (nat \<times> bytes) option" where
  "read_le n bs = (if n \<le> length bs then Some (le_value (take n bs), drop n bs) else None)"

fun read_compact :: "bytes \<Rightarrow> (nat \<times> bytes) option" where
  "read_compact [] = None"
| "read_compact (b # bs) =
     (if b < 0xfd then Some (unat b, bs)
      else if b = 0xfd then read_le 2 bs
      else if b = 0xfe then read_le 4 bs
      else read_le 8 bs)"

lemma read_le_bytes: "read_le n (le_bytes n w @ rest) = Some (unat w mod 256 ^ n, rest)"
  by (simp add: read_le_def le_value_le_bytes)

text \<open>The bytes \<open>varUint\<close> writes, where it writes any.\<close>

definition compact_bytes :: "u64 \<Rightarrow> bytes" where
  "compact_bytes v =
     (if v \<le> 252 then [ucast v]
      else if v \<le> 0xffff then 0xfd # le_bytes 2 (ucast v :: u16)
      else if v \<le> 0xffffffff then 0xfe # le_bytes 4 (ucast v :: u32)
      else 0xff # le_bytes 8 v)"

lemma varUint_eq:
  "varUint v = (if v = 253 then Panic (PanicText ''Too large to stream'')
     else Ok (EncodeToString (compact_bytes v)))"
proof -
  have "unat v < 2 ^ 64" using unsigned_less [of v] by simp
  then have "v \<le> 0xffffffffffffffff" by (simp add: word_le_nat_alt)
  moreover have "v = 253 \<or> v \<le> 252 \<or> 253 < v" by unat_arith
  ultimately show ?thesis
    by (auto simp: varUint_def compact_bytes_def not_le)
qed

lemma unat_ucast_le:
  "unat (w :: u64) < 2 ^ LENGTH('a) \<Longrightarrow> unat (ucast w :: 'a::len word) = unat w"
  by (simp only: unsigned_ucast_eq take_bit_eq_mod mod_less)

lemma read_compact_bytes: "read_compact (compact_bytes v @ rest) = Some (unat v, rest)"
proof -
  consider "v \<le> 252" | "252 < v" "v \<le> 0xffff" | "0xffff < v" "v \<le> 0xffffffff"
    | "0xffffffff < v" by fastforce
  then show ?thesis
  proof cases
    case 1
    then have "unat v \<le> 252" by (simp add: word_le_nat_alt)
    then have u: "unat (ucast v :: byte) = unat v" by (simp add: unat_ucast_le)
    then have "(ucast v :: byte) < 0xfd"
      using \<open>unat v \<le> 252\<close> by (simp add: word_less_nat_alt)
    then show ?thesis using 1 u by (simp add: compact_bytes_def)
  next
    case 2
    then have "unat v < 2 ^ 16" "\<not> v \<le> 252"
      by (simp_all add: word_le_nat_alt word_less_nat_alt)
    then show ?thesis
      using 2 by (simp add: compact_bytes_def read_le_bytes unat_ucast_le)
  next
    case 3
    then have "unat v < 2 ^ 32" by (simp add: word_le_nat_alt)
    moreover have "\<not> v \<le> 252" using 3 by (simp add: word_less_nat_alt word_le_nat_alt)
    moreover have "\<not> v \<le> 0xffff" using 3 by (simp add: not_le)
    ultimately show ?thesis
      using 3 by (simp add: compact_bytes_def read_le_bytes unat_ucast_le)
  next
    case 4
    then have "\<not> v \<le> 252" "\<not> v \<le> 0xffff" "\<not> v \<le> 0xffffffff"
      by (simp_all add: word_less_nat_alt word_le_nat_alt)
    moreover have "unat v < 256 ^ 8" using unsigned_less [of v] by simp
    ultimately show ?thesis by (simp add: compact_bytes_def read_le_bytes)
  qed
qed

section \<open>Properties\<close>

text \<open>
  C37. \<open>varUint\<close> is a CompactSize writer except at one value: for every other value a reader of
  the format gets the value back from the written bytes and stops right after them, whatever
  follows; at 253 the call panics.
\<close>

theorem varUint_compact_size:
  "case varUint v of
     Ok s \<Rightarrow> v \<noteq> 253 \<and> (\<exists>enc. s = EncodeToString enc \<and>
               (\<forall>rest. read_compact (enc @ rest) = Some (unat v, rest)))
   | Err e \<Rightarrow> False
   | Panic p \<Rightarrow> v = 253"
  using read_compact_bytes by (auto simp: varUint_eq)

text \<open>
  Reversing the byte order of a hex string twice gives the string back, and the only
  failure is an odd number of digits.
\<close>

theorem reverseHexBytes_involution:
  "bind_out (reverseHexBytes s) reverseHexBytes =
     (if even (length s) then Ok s
      else Err (ErrText ''string must be divisible by 2 to be a byte string''))"
  by (simp add: reverseHexBytes_eq rev_pairs_rev_pairs)

end
