(* ===== verification/FloatBounds.thy ===== *)
theory FloatBounds
  imports GoFloat
begin

text \<open>
  Bounds of \<open>float64\<close> computations: an operation whose exact result lies between two \<open>float64\<close>
  values rounds to a result between them. \<open>in_range a b x\<close> says that \<open>x\<close> is finite and between
  \<open>a\<close> and \<open>b\<close>; there is one rule for each operation.
\<close>

definition is64 :: "rat \<Rightarrow> bool" where "is64 a \<longleftrightarrow> fl64 a = Fin a"

definition in_range :: "rat \<Rightarrow> rat \<Rightarrow> flt \<Rightarrow> bool" where
  "in_range a b x \<longleftrightarrow> (\<exists>r. x = Fin r \<and> a \<le> r \<and> r \<le> b)"

lemma is64_round: "is64 a \<Longrightarrow> round_ieee 53 (-1074) a = a \<and> (a = 0 \<or> ilog2 \<bar>a\<bar> < 1024)"
  by (auto simp: is64_def fl64_def overflow_at_def split: if_splits)

lemma fl64_in:
  assumes "a \<le> x" "x \<le> b" "is64 a" "is64 b"
  shows "in_range a b (fl64 x)"
proof -
  define r where "r = round_ieee 53 (-1074) x"
  have r: "a \<le> r" "r \<le> b"
    using round_ieee_mono [OF assms(1), of 53 "-1074"] round_ieee_mono [OF assms(2), of 53 "-1074"]
      is64_round [OF assms(3)] is64_round [OF assms(4)] by (simp_all add: r_def)
  have "ilog2 \<bar>r\<bar> < 1024" if "r \<noteq> 0"
  proof (cases "0 < r")
    case True
    then have "ilog2 \<bar>r\<bar> \<le> ilog2 \<bar>b\<bar>" using r by (intro ilog2_mono) auto
    then show ?thesis using is64_round [OF assms(4)] r True by linarith
  next
    case False
    then have "ilog2 \<bar>r\<bar> \<le> ilog2 \<bar>a\<bar>" using r that by (intro ilog2_mono) auto
    then show ?thesis using is64_round [OF assms(3)] r False that by linarith
  qed
  then have "fl64 x = Fin r" by (auto simp: fl64_def overflow_at_def r_def)
  then show ?thesis using r by (simp add: in_range_def)
qed

lemma is64_dyadic: "\<bar>m\<bar> \<le> 2 ^ 53 \<Longrightarrow> n \<le> 1074 \<Longrightarrow> is64 (of_int m / 2 ^ n)"
  unfolding is64_def by (rule fl64_dyadic [of _ m "- int n"])
    (auto simp: pow2_def field_simps)

named_theorems dyadic \<open>dyadic fractions that are float64 values\<close>

lemma dyadics [dyadic]:
  "is64 0" "is64 1" "is64 (1 / 2)" "is64 (- (1 / 2))"  "is64 (5 / 16)" "is64 (- (5 / 16))"
  "is64 (25 / 256)" "is64 (625 / 65536)" "is64 (1 / 128)" "is64 (7 / 8)" "is64 (5 / 8)" "is64 (3 / 8)" "is64 (3 / 32)" "is64 (- (3 / 32))"
  "is64 (13 / 128)" "is64 (1 / 8)" "is64 (- (1 / 8))" "is64 (1 / 4)" "is64 (- (1 / 4))" "is64 (27 / 16)" "is64 (5 / 2)"
  "is64 (1 / 1024)" "is64 (- (1 / 1024))" "is64 (29 / 128)" "is64 (- (5 / 8))" "is64 (9 / 16)" "is64 (- (9 / 16))" "is64 (3 / 16)" "is64 (7 / 32)" "is64 (- (3 / 16))"
  using is64_dyadic [of 0 0] is64_dyadic [of 1 0] is64_dyadic [of 1 1] is64_dyadic [of "-1" 1]
    is64_dyadic [of 5 4] is64_dyadic [of "-5" 4] is64_dyadic [of 25 8] is64_dyadic [of 625 16]
    is64_dyadic [of 1 7] is64_dyadic [of 7 3] is64_dyadic [of 5 3] is64_dyadic [of 3 3] is64_dyadic [of 3 5] is64_dyadic [of "-3" 5] 
    is64_dyadic [of 13 7] is64_dyadic [of 1 3]  is64_dyadic [of "-1" 3] is64_dyadic [of 1 2] is64_dyadic [of "-1" 2] is64_dyadic [of 27 4] is64_dyadic [of 5 1]
    is64_dyadic [of 1 10] is64_dyadic [of "-1" 10] is64_dyadic [of 29 7] is64_dyadic [of "-5" 3] is64_dyadic [of 9 4] is64_dyadic [of "-9" 4] is64_dyadic [of 3 4] is64_dyadic [of 7 5] is64_dyadic [of "-3" 4]
  by simp_all

lemma in_range_add:
  assumes "in_range a b x" "in_range c d y" "e \<le> a + c" "b + d \<le> f" "is64 e" "is64 f"
  shows "in_range e f (x + y)"
  using assms by (auto simp: in_range_def [of a] in_range_def [of c] intro!: fl64_in)

lemma in_range_minus:
  assumes "in_range a b x" "in_range c d y" "e \<le> a - d" "b - c \<le> f" "is64 e" "is64 f"
  shows "in_range e f (x - y)"
  using assms by (auto simp: in_range_def [of a] in_range_def [of c] intro!: fl64_in)

lemma in_range_times:
  assumes "in_range a b x" "in_range c d y" "0 \<le> a" "0 \<le> c" "e \<le> a * c" "b * d \<le> f" "is64 e" "is64 f"
  shows "in_range e f (x * y)"
proof -
  obtain r s where rs: "x = Fin r" "y = Fin s" "a \<le> r" "r \<le> b" "c \<le> s" "s \<le> d"
    using assms by (auto simp: in_range_def)
  have "a * c \<le> r * s" "r * s \<le> b * d"
    using rs assms(3,4) by (intro mult_mono; linarith)+
  then show ?thesis using assms rs by (auto intro!: fl64_in)
qed

text \<open>A product bounded by magnitude.\<close>

lemma in_range_times_abs:
  assumes "in_range (- b) b x" "in_range (- d) d y" "b * d \<le> f" "is64 (- f)" "is64 f"
  shows "in_range (- f) f (x * y)"
proof -
  obtain r s where rs: "x = Fin r" "y = Fin s" "\<bar>r\<bar> \<le> b" "\<bar>s\<bar> \<le> d"
    using assms by (auto simp: in_range_def abs_le_iff)
  have "\<bar>r * s\<bar> \<le> b * d" unfolding abs_mult using rs by (intro mult_mono) auto
  then have "- f \<le> r * s" "r * s \<le> f" using assms(3) by (simp_all add: abs_le_iff)
  then show ?thesis using assms rs by (auto intro!: fl64_in)
qed

lemma in_range_weaken: "in_range a b x \<Longrightarrow> c \<le> a \<Longrightarrow> b \<le> d \<Longrightarrow> in_range c d x"
  by (auto simp: in_range_def)

lemma in_range_Fin: "in_range a b (Fin r) \<longleftrightarrow> a \<le> r \<and> r \<le> b"
  by (simp add: in_range_def)

lemma in_range_divide:
  assumes "in_range (- b) b x" "in_range c d y" "0 < c" "b \<le> f * c" "is64 (- f)" "is64 f"
  shows "in_range (- f) f (x / y)"
proof -
  obtain r s where rs: "x = Fin r" "y = Fin s" "\<bar>r\<bar> \<le> b" "c \<le> s"
    using assms by (auto simp: in_range_def abs_le_iff)
  have f: "0 \<le> f" 
  proof -
    have "0 \<le> f * c" using rs(3) assms(4) abs_ge_zero [of r] by linarith
    then show ?thesis using assms(3) by (simp add: zero_le_mult_iff)
  qed
  have "\<bar>r\<bar> \<le> f * s" using rs(3,4) assms(4) f mult_left_mono [OF rs(4) f] by linarith
  then have "\<bar>r / s\<bar> \<le> f" using rs(4) assms(3) by (simp add: abs_divide pos_divide_le_eq)
  then have "- f \<le> r / s" "r / s \<le> f" by linarith+
  then show ?thesis using rs assms by (auto intro!: fl64_in)
qed

lemma in_range_square:
  assumes "in_range (- b) b x" "b * b \<le> f" "is64 f"
  shows "in_range 0 f (x * x)"
proof -
  obtain r where r: "x = Fin r" "\<bar>r\<bar> \<le> b" using assms by (auto simp: in_range_def abs_le_iff)
  have "r * r \<le> b * b" using r(2) abs_le_square_iff [of r b] by (simp add: power2_eq_square)
  then show ?thesis using r assms by (auto intro!: fl64_in dyadic)
qed

lemma in_range_divide_signed:
  assumes "in_range a b x" "in_range c d y" "0 < c" "a \<le> 0" "0 \<le> b" "e * c \<le> a" "b \<le> f * c" "is64 e" "is64 f"
  shows "in_range e f (x / y)"
proof -
  obtain r s where rs: "x = Fin r" "y = Fin s" "a \<le> r" "r \<le> b" "c \<le> s"
    using assms by (auto simp: in_range_def)
  have "e * c \<le> 0" "0 \<le> f * c" using assms(4-7) by linarith+
  then have ef: "e \<le> 0" "0 \<le> f" using assms(3) by (simp_all add: mult_le_0_iff zero_le_mult_iff)
  have "e * s \<le> e * c" "f * c \<le> f * s" using ef rs(5) by (simp_all add: mult_left_mono mult_left_mono_neg)
  then have "e * s \<le> r" "r \<le> f * s" using rs assms(6,7) by linarith+
  then have "e \<le> r / s" "r / s \<le> f"
    using rs(5) assms(3) by (simp_all add: pos_le_divide_eq pos_divide_le_eq)
  then show ?thesis using rs assms by (auto intro!: fl64_in)
qed

lemma in_range_times_signed:
  assumes "in_range a b x" "in_range 0 d y" "a \<le> 0" "0 \<le> b" "e \<le> a * d" "b * d \<le> f" "is64 e" "is64 f"
  shows "in_range e f (x * y)"
proof -
  obtain r s where rs: "x = Fin r" "y = Fin s" "a \<le> r" "r \<le> b" "0 \<le> s" "s \<le> d"
    using assms by (auto simp: in_range_def)
  have "a * s \<le> r * s" "r * s \<le> b * s" using rs by (simp_all add: mult_right_mono)
  moreover have "a * d \<le> a * s" "b * s \<le> b * d" using rs assms(3,4) by (simp_all add: mult_left_mono mult_left_mono_neg)
  ultimately have "e \<le> r * s" "r * s \<le> f" using assms(5,6) by linarith+
  then show ?thesis using rs assms by (auto intro!: fl64_in)
qed

lemma is64_minus: "is64 r \<Longrightarrow> is64 (- r)"
proof -
  assume "is64 r"
  then have "round_ieee 53 (- 1074) r = r" "r = 0 \<or> ilog2 \<bar>r\<bar> < 1024" by (simp_all add: is64_round)
  then have "round_ieee 53 (- 1074) (- r) = - r" "r = 0 \<or> \<not> 1024 \<le> ilog2 \<bar>r\<bar>" by (auto simp: round_ieee_minus)
  then show ?thesis by (auto simp only: is64_def fl64_def overflow_at_def abs_minus_cancel neg_equal_0_iff_equal if_False simp_thms)
qed

text \<open>A \<open>float64\<close> is an integer of the leading 53 binary places.\<close>

lemma is64_mantissa:
  assumes "is64 x" "0 < x"
  obtains n where "x = of_int n * pow2 (ilog2 x - 52)" "- 1074 \<le> ilog2 x" "ilog2 x < 1024"
proof -
  let ?e = "max (ilog2 x + 1 - 53) (- 1074)"
  have x: "x = round_at ?e x" "ilog2 x < 1024"
    using is64_round [OF assms(1)] assms(2) by (auto simp: round_ieee_def)
  define m where "m = round_even (x / pow2 ?e)"
  have m: "x = of_int m * pow2 ?e" using x(1) by (simp add: round_at_def m_def)
  have "pow2 ?e = 2 ^ nat (?e - (ilog2 x - 52)) * pow2 (ilog2 x - 52)"
    using pow2_diff_nat [of "ilog2 x - 52" ?e] by (simp add: field_simps)
  then have "x = of_int (m * 2 ^ nat (?e - (ilog2 x - 52))) * pow2 (ilog2 x - 52)" using m by simp
  moreover have "- 1074 \<le> ilog2 x"
  proof -
    have "0 < m"
    proof (rule ccontr)
      assume "\<not> 0 < m"
      then have "of_int m * pow2 ?e \<le> 0" by (simp add: mult_le_0_iff)
      then show False using m assms(2) by linarith
    qed
    then have "1 * pow2 ?e \<le> of_int m * pow2 ?e" by (intro mult_right_mono) simp_all
    then have "pow2 ?e \<le> x" by (simp only: mult_1 m [symmetric])
    then have "pow2 (- 1074) \<le> x" using pow2_mono [of "- 1074" ?e] by linarith
    then have "pow2 (- 1074) < pow2 (ilog2 x + 1)" using ilog2_bounds(2) [OF assms(2)] by linarith
    then show ?thesis by simp
  qed
  ultimately show thesis using that x(2) by blast
qed

lemma is64_fraction: "\<bar>n\<bar> \<le> 2 ^ 53 \<Longrightarrow> - 1074 \<le> e \<Longrightarrow> e \<le> 970 \<Longrightarrow> is64 (of_int n * pow2 e)"
  unfolding is64_def by (rule fl64_dyadic) simp_all

lemma flt_of_int_exact: "\<bar>k\<bar> \<le> 2 ^ 53 \<Longrightarrow> flt_of_int k = Fin (of_int k)"
  by (simp add: flt_of_int_def fl64_int)

end
