(* ===== verification/Hashrate.thy ===== *)
theory Hashrate
  imports FloatBounds
begin

text \<open>
  The hashrates the API shows, \<open>src/api/hashrate.go\<close>: the number scaled to its unit. The unit
  is found with \<open>math.Log\<close>, modelled as the Go library computes it (the reduction to
  \<open>2^k (1 + f)\<close> and the polynomial of FreeBSD's \<open>e_log.c\<close>, each operation rounded), and the
  scale with \<open>math.Pow\<close> for the base 1000 and an integral exponent. The facts bound every
  intermediate result by \<open>float64\<close> values that rounding cannot cross.
\<close>

section \<open>The standard library\<close>

definition frexp :: "rat \<Rightarrow> flt \<times> int" where
  "frexp x = (let e = ilog2 \<bar>x\<bar> + 1 in (Fin (x / pow2 e), e))"

fun ldexp :: "flt \<Rightarrow> int \<Rightarrow> flt" where
  "ldexp (Fin a) e = fl64 (a * pow2 e)"
| "ldexp x e = x"

definition Ln2Hi :: flt where "Ln2Hi = fl64 (693147180369123816490 / 10 ^ 21)"
definition Ln2Lo :: flt where "Ln2Lo = fl64 (190821492927058770002 / 10 ^ 30)"
definition L1 :: flt where "L1 = fl64 (6666666666666735130 / 10 ^ 19)"
definition L2 :: flt where "L2 = fl64 (3999999999940941908 / 10 ^ 19)"
definition L3 :: flt where "L3 = fl64 (2857142874366239149 / 10 ^ 19)"
definition L4 :: flt where "L4 = fl64 (2222219843214978396 / 10 ^ 19)"
definition L5 :: flt where "L5 = fl64 (1818357216161805012 / 10 ^ 19)"
definition L6 :: flt where "L6 = fl64 (1531383769920937332 / 10 ^ 19)"
definition L7 :: flt where "L7 = fl64 (1479819860511658591 / 10 ^ 19)"
definition Sqrt2_half :: flt where "Sqrt2_half = fl64 (70710678118654752440084436210485 / 10 ^ 32)"

definition log_reduce :: "rat \<Rightarrow> flt \<times> int" where
  "log_reduce x =
     (let (f1, ki) = frexp x;
          (f1, ki) = (if f1 < Sqrt2_half then (f1 * Fin 2, ki - 1) else (f1, ki))
      in (f1 - 1, ki))"

definition log_tail :: "flt \<Rightarrow> flt \<Rightarrow> flt" where
  "log_tail f k =
     (let s = f / (Fin 2 + f);
          s2 = s * s;
          s4 = s2 * s2;
          t1 = s2 * (L1 + s4 * (L3 + s4 * (L5 + s4 * L7)));
          t2 = s4 * (L2 + s4 * (L4 + s4 * L6));
          R = t1 + t2;
          hfsq = Fin (1 / 2) * f * f
      in (hfsq - (s * (hfsq + R) + k * Ln2Lo)) - f)"

fun math_Log :: "flt \<Rightarrow> flt" where
  "math_Log (Fin x) =
     (if x < 0 then NaN else if x = 0 then NInf
      else let (f, ki) = log_reduce x; k = flt_of_int ki in k * Ln2Hi - log_tail f k)"
| "math_Log PInf = PInf"
| "math_Log NInf = NaN"
| "math_Log NaN = NaN"

declare math_Log.simps [simp del]

text \<open>The loop of \<open>math.Pow\<close> over the bits of the exponent.\<close>

fun pow_loop :: "nat \<Rightarrow> flt \<Rightarrow> int \<Rightarrow> flt \<Rightarrow> int \<Rightarrow> flt \<times> int" where
  "pow_loop i x1 xe a1 ae =
     (if i = 0 then (a1, ae)
      else if xe < - 4096 \<or> 4096 < xe then (a1, ae + xe)
      else
      let (a1, ae) = (if odd i then (a1 * x1, ae + xe) else (a1, ae));
          x1 = x1 * x1;
          xe = 2 * xe
      in if x1 < Fin (1 / 2) then pow_loop (i div 2) (x1 + x1) (xe - 1) a1 ae
         else pow_loop (i div 2) x1 xe a1 ae)"

declare pow_loop.simps [simp del]

text \<open>\<open>math.Pow(1000, y)\<close> for an integral \<open>y\<close>.\<close>

fun pow_1000 :: "flt \<Rightarrow> flt" where
  "pow_1000 (Fin y) =
     (if y = 0 then 1 else if y = 1 then Fin 1000
      else let (x1, xe) = frexp 1000;
               (a1, ae) = pow_loop (nat \<lfloor>\<bar>y\<bar>\<rfloor>) x1 xe 1 0;
               (a1, ae) = (if y < 0 then (1 / a1, - ae) else (a1, ae))
           in ldexp a1 ae)"
| "pow_1000 PInf = PInf"
| "pow_1000 NInf = 0"
| "pow_1000 NaN = NaN"

text \<open>\<open>%.2f\<close>: the exact value rounded to two decimals, ties to even.\<close>

fun show_fixed2 :: "flt \<Rightarrow> string" where
  "show_fixed2 (Fin r) =
     (let n = nat \<bar>round_even (r * 100)\<bar> in
      (if r < 0 then ''-'' else '''') @ show_dec (n div 100) @ ''.'' @ show_dec (n mod 100 div 10) @ show_dec (n mod 10))"
| "show_fixed2 PInf = ''+Inf''"
| "show_fixed2 NInf = ''-Inf''"
| "show_fixed2 NaN = ''NaN''"

section \<open>src/api/hashrate.go\<close>

record HashRate =
  hr_Rate :: string
  hr_Denomination :: string
  hr_Raw :: flt

definition zero_HashRate :: HashRate where
  "zero_HashRate = \<lparr>hr_Rate = '''', hr_Denomination = '''', hr_Raw = 0\<rparr>"

definition sizes :: "string list" where
  "sizes = [''Hashes'', ''KH'', ''MH'', ''GH'', ''TH'', ''PH'', ''EH'', ''ZH'', ''YH'']"

text \<open>\<open>sizes[int(x)]\<close>; an infinity or a NaN becomes the least integer.\<close>

fun size_at :: "flt \<Rightarrow> string outcome" where
  "size_at (Fin x) = (if x < 0 then Panic (PanicText ''index out of range'') else nth_out sizes (nat \<lfloor>x\<rfloor>))"
| "size_at _ = Panic (PanicText ''index out of range'')"

definition floatToHashrate :: "flt \<Rightarrow> HashRate outcome" where
  "floatToHashrate hashrate =
     (if hashrate < 0 then Panic (PanicText ''Hashrate must be higher than 0'')
      else if hashrate = 0 then Ok (zero_HashRate\<lparr>hr_Rate := ''0''\<rparr>)
      else let thousanth = floor_flt (math_Log hashrate / math_Log (Fin 1000));
               reducedAmount = hashrate / pow_1000 thousanth
           in bind_out (size_at thousanth) (\<lambda>size.
                Ok \<lparr>hr_Rate = show_fixed2 reducedAmount, hr_Denomination = size @ ''/s'', hr_Raw = hashrate\<rparr>))"

lemma log_constants:
  "in_range (11629079 / 2 ^ 24) (11629080 / 2 ^ 24) Ln2Hi"
  "in_range 0 (1 / 2 ^ 32) Ln2Lo"
  "in_range (1 / 2) (3 / 4) L1" "in_range 0 (1 / 2) L2" "in_range 0 (3 / 8) L3" "in_range 0 (1 / 4) L4"
  "in_range 0 (1 / 4) L5" "in_range 0 (1 / 4) L6" "in_range 0 (1 / 4) L7"
  "in_range (11 / 16) (3 / 4) Sqrt2_half"
  unfolding Ln2Hi_def Ln2Lo_def L1_def L2_def L3_def L4_def L5_def L6_def L7_def Sqrt2_half_def
  using is64_dyadic [of 11629079 24] is64_dyadic [of 11629080 24] is64_dyadic [of 0 0] is64_dyadic [of 1 32]
    is64_dyadic [of 1 1] is64_dyadic [of 3 2] is64_dyadic [of 3 3] is64_dyadic [of 1 2] is64_dyadic [of 11 4]
  by (auto intro!: fl64_in)

definition log_half :: "flt \<Rightarrow> flt" where "log_half f = Fin (1 / 2) * f * f"

definition log_rest :: "flt \<Rightarrow> flt" where
  "log_rest f =
     (let s = f / (Fin 2 + f); s2 = s * s; s4 = s2 * s2
      in s2 * (L1 + s4 * (L3 + s4 * (L5 + s4 * L7))) + s4 * (L2 + s4 * (L4 + s4 * L6)))"

lemma log_tail_parts:
  "log_tail f k = (log_half f - (f / (Fin 2 + f) * (log_half f + log_rest f) + k * Ln2Lo)) - f"
  by (simp add: log_tail_def log_half_def log_rest_def Let_def)

lemma log_rest_bounds:
  assumes "in_range (- 5 / 16) (1 / 2) f"
  shows "in_range (- (5 / 16)) (5 / 16) (f / (Fin 2 + f))" "in_range 0 (13 / 128) (log_rest f)"
proof -
  define s where "s = f / (Fin 2 + f)"
  have f: "in_range (- (1 / 2)) (1 / 2) f" using assms by (rule in_range_weaken) simp_all
  have d: "in_range (27 / 16) (5 / 2) (Fin 2 + f)"
    by (rule in_range_add [OF _ assms, of 2 2]) (simp_all add: in_range_Fin dyadic)
  show s: "in_range (- (5 / 16)) (5 / 16) (f / (Fin 2 + f))"
    by (rule in_range_divide [OF f d]) (simp_all add: dyadic)
  have s2: "in_range 0 (25 / 256) (s * s)"
    by (rule in_range_square [OF s [folded s_def]]) (simp_all add: dyadic)
  define s2 where "s2 = s * s"
  note s2 = s2 [folded s2_def]
  have s4: "in_range 0 (625 / 65536) (s2 * s2)"
    by (rule in_range_times [OF s2 s2]) (simp_all add: dyadic)
  define s4 where "s4 = s2 * s2"
  note s4 = s4 [folded s4_def]
  note step = in_range_times [OF s4, where e = 0 and f = "1 / 128"]
  have a: "in_range 0 (1 / 128) (s4 * L7)" by (rule step [OF log_constants(9)]) (simp_all add: dyadic)
  have "in_range 0 (3 / 8) (L5 + s4 * L7)" by (rule in_range_add [OF log_constants(7) a]) (simp_all add: dyadic)
  then have a: "in_range 0 (1 / 128) (s4 * (L5 + s4 * L7))" by (rule step) (simp_all add: dyadic)
  have "in_range 0 (1 / 2) (L3 + s4 * (L5 + s4 * L7))" by (rule in_range_add [OF log_constants(5) a]) (simp_all add: dyadic)
  then have a: "in_range 0 (1 / 128) (s4 * (L3 + s4 * (L5 + s4 * L7)))" by (rule step) (simp_all add: dyadic)
  have "in_range 0 (7 / 8) (L1 + s4 * (L3 + s4 * (L5 + s4 * L7)))"
    by (rule in_range_add [OF log_constants(3) a]) (simp_all add: dyadic)
  then have t1: "in_range 0 (3 / 32) (s2 * (L1 + s4 * (L3 + s4 * (L5 + s4 * L7))))"
    by (rule in_range_times [OF s2]) (simp_all add: dyadic)
  have a: "in_range 0 (1 / 128) (s4 * L6)" by (rule step [OF log_constants(8)]) (simp_all add: dyadic)
  have "in_range 0 (3 / 8) (L4 + s4 * L6)" by (rule in_range_add [OF log_constants(6) a]) (simp_all add: dyadic)
  then have a: "in_range 0 (1 / 128) (s4 * (L4 + s4 * L6))" by (rule step) (simp_all add: dyadic)
  have "in_range 0 (5 / 8) (L2 + s4 * (L4 + s4 * L6))"
    by (rule in_range_add [OF log_constants(4) a]) (simp_all add: dyadic)
  then have t2: "in_range 0 (1 / 128) (s4 * (L2 + s4 * (L4 + s4 * L6)))" by (rule step) (simp_all add: dyadic)
  show "in_range 0 (13 / 128) (log_rest f)"
    unfolding log_rest_def Let_def s_def [symmetric] s2_def [symmetric] s4_def [symmetric]
    by (rule in_range_add [OF t1 t2]) (simp_all add: dyadic)
qed

lemma log_half_bounds:
  assumes "in_range (- 5 / 16) (1 / 2) f"
  shows "in_range 0 (1 / 8) (log_half f)"
proof -
  obtain r where r: "f = Fin r" "- 5 / 16 \<le> r" "r \<le> 1 / 2" using assms by (auto simp: in_range_def)
  have h: "in_range 0 (1 / 4) (Fin (1 / 2) * f)" if "0 \<le> r"
    by (rule in_range_times [of "1 / 2" "1 / 2" _ 0 "1 / 2"]) (use r that in \<open>simp_all add: in_range_Fin dyadic\<close>)
  show ?thesis
  proof (cases "0 \<le> r")
    case True
    then show ?thesis unfolding log_half_def
      by (intro in_range_times [OF h, of 0 "1 / 2"]) (use r in \<open>simp_all add: in_range_Fin dyadic\<close>)
  next
    case False
    obtain q where q: "fl64 (1 / 2 * r) = Fin q" "- (1 / 4) \<le> q" "q \<le> 0"
      using fl64_in [of "- (1 / 4)" "1 / 2 * r" 0] False r by (auto simp: in_range_def dyadic)
    have "q * r \<le> 1 / 4 * (5 / 16)"
      using mult_mono [of "- q" "1 / 4" "- r" "5 / 16"] q r False by simp
    moreover have "0 \<le> q * r" using q False by (simp add: mult_nonpos_nonpos)
    ultimately show ?thesis using q r by (auto simp: log_half_def intro!: fl64_in dyadic)
  qed
qed

lemma log_product_bounds:
  assumes "in_range (- 5 / 16) (1 / 2) f"
  shows "in_range (- (3 / 32)) (3 / 32) (f / (Fin 2 + f) * (log_half f + log_rest f))"
proof -
  have "in_range 0 (29 / 128) (log_half f + log_rest f)"
    by (rule in_range_add [OF log_half_bounds [OF assms] log_rest_bounds(2) [OF assms]]) (simp_all add: dyadic)
  then have "in_range (- (29 / 128)) (29 / 128) (log_half f + log_rest f)" by (rule in_range_weaken) simp_all
  then show ?thesis
    by (rule in_range_times_abs [OF log_rest_bounds(1) [OF assms]]) (simp_all add: dyadic)
qed

lemma log_tail_bounds:
  assumes "in_range (- 5 / 16) (1 / 2) f" "in_range (- 2048) 2048 k"
  shows "in_range (- (5 / 8)) (9 / 16) (log_tail f k)"
proof -
  have "in_range (- (1 / 2 ^ 32)) (1 / 2 ^ 32) Ln2Lo" using log_constants(2) by (rule in_range_weaken) simp_all
  then have "in_range (- (1 / 1024)) (1 / 1024) (k * Ln2Lo)"
    by (rule in_range_times_abs [OF assms(2)]) (simp_all add: dyadic)
  then have "in_range (- (1 / 8)) (1 / 8) (f / (Fin 2 + f) * (log_half f + log_rest f) + k * Ln2Lo)"
    by (rule in_range_add [OF log_product_bounds [OF assms(1)]]) (simp_all add: dyadic)
  then have "in_range (- (1 / 8)) (1 / 4) (log_half f - (f / (Fin 2 + f) * (log_half f + log_rest f) + k * Ln2Lo))"
    by (rule in_range_minus [OF log_half_bounds [OF assms(1)]]) (simp_all add: dyadic)
  then show ?thesis unfolding log_tail_parts
    by (rule in_range_minus [OF _ assms(1)]) (simp_all add: dyadic)
qed

lemma log_product_sign:
  assumes "- 5 / 16 \<le> r" "r \<le> 1 / 2"
    and "in_range a b (Fin r)" "(a, b) = (0, 1 / 2) \<or> (a, b) = (- (5 / 16), 0)"
  shows "in_range (if a = 0 then 0 else - (3 / 32)) (if a = 0 then 3 / 32 else 0)
    (Fin r / (Fin 2 + Fin r) * (log_half (Fin r) + log_rest (Fin r)) + 0 * Ln2Lo)"
proof -
  let ?f = "Fin r"
  have f: "in_range (- 5 / 16) (1 / 2) ?f" using assms by (simp add: in_range_Fin)
  obtain l where l: "Ln2Lo = Fin l" using log_constants(2) by (auto simp: in_range_def)
  have zero: "in_range 0 0 (0 * Ln2Lo)" by (simp add: l zero_flt_def in_range_Fin)
  have sum: "in_range 0 (29 / 128) (log_half ?f + log_rest ?f)"
    by (rule in_range_add [OF log_half_bounds [OF f] log_rest_bounds(2) [OF f]]) (simp_all add: dyadic)
  have d: "in_range (27 / 16) (5 / 2) (Fin 2 + ?f)"
    by (rule in_range_add [OF _ f, of 2 2]) (simp_all add: in_range_Fin dyadic)
  have s: "in_range (if a = 0 then 0 else - (5 / 16)) (if a = 0 then 5 / 16 else 0) (?f / (Fin 2 + ?f))"
    by (rule in_range_divide_signed [OF assms(3) d]) (use assms(4) in \<open>auto simp: dyadic\<close>)
  have "in_range (if a = 0 then 0 else - (3 / 32)) (if a = 0 then 3 / 32 else 0)
      (?f / (Fin 2 + ?f) * (log_half ?f + log_rest ?f))"
    by (rule in_range_times_signed [OF s sum]) (auto simp: dyadic)
  then show ?thesis by (rule in_range_add [OF _ zero]) (auto simp: dyadic)
qed

lemma log_tail_sign:
  assumes r: "- 5 / 16 \<le> r" "r \<le> 1 / 2" and repr: "is64 r" "is64 (- r)"
  shows "0 \<le> r \<Longrightarrow> in_range (- (5 / 8)) 0 (log_tail (Fin r) 0)"
    and "r \<le> 0 \<Longrightarrow> in_range (- r) (9 / 16) (log_tail (Fin r) 0)"
proof -
  let ?f = "Fin r"
  have f: "in_range (- 5 / 16) (1 / 2) ?f" using r by (simp add: in_range_Fin)
  show "in_range (- (5 / 8)) 0 (log_tail ?f 0)" if "0 \<le> r"
  proof -
    have "in_range 0 (1 / 4) (Fin (1 / 2) * ?f)"
      by (rule in_range_times [of "1 / 2" "1 / 2" _ 0 "1 / 2"]) (use r that in \<open>simp_all add: in_range_Fin dyadic\<close>)
    then have half: "in_range 0 r (log_half ?f)" unfolding log_half_def
      by (rule in_range_times [of _ _ _ 0 r]) (use r that repr in \<open>simp_all add: in_range_Fin dyadic\<close>)
    have "in_range (- (1 / 8)) r (log_half ?f - (?f / (Fin 2 + ?f) * (log_half ?f + log_rest ?f) + 0 * Ln2Lo))"
      by (rule in_range_minus [OF half, of 0 "3 / 32"])
        (use log_product_sign [OF r, of 0 "1 / 2"] r that repr in \<open>auto simp: in_range_Fin dyadic\<close>)
    then show ?thesis unfolding log_tail_parts
      by (rule in_range_minus [of _ _ _ r r]) (use r that in \<open>auto simp: in_range_Fin dyadic\<close>)
  qed
  show "in_range (- r) (9 / 16) (log_tail ?f 0)" if "r \<le> 0"
  proof -
    have "in_range 0 (1 / 4) (log_half ?f - (?f / (Fin 2 + ?f) * (log_half ?f + log_rest ?f) + 0 * Ln2Lo))"
      by (rule in_range_minus [OF log_half_bounds [OF f], of "- (3 / 32)" 0])
        (use log_product_sign [OF r, of "- (5 / 16)" 0] r that in \<open>auto simp: in_range_Fin dyadic\<close>)
    then show ?thesis unfolding log_tail_parts
      by (rule in_range_minus [of _ _ _ r r]) (use r that repr in \<open>auto simp: in_range_Fin dyadic\<close>)
  qed
qed

lemma log_reduce_exact:
  assumes "is64 x" "0 < x"
  obtains r k where "log_reduce x = (Fin r, k)" "- 5 / 16 \<le> r" "r \<le> 1 / 2" "is64 r"
    "x = (1 + r) * pow2 k" "- 1074 \<le> k" "k \<le> 1024" "0 \<le> r \<or> r \<le> - (1 / 2 ^ 53)"
proof -
  obtain n where n: "x = of_int n * pow2 (ilog2 x - 52)" "- 1074 \<le> ilog2 x" "ilog2 x < 1024"
    using is64_mantissa [OF assms] .
  define e where "e = ilog2 x + 1"
  define y where "y = x / pow2 e"
  have y: "y = of_int n * pow2 (- 53)"
  proof -
    have "pow2 (ilog2 x - 52) = pow2 (- 53) * pow2 e" by (simp add: e_def flip: pow2_add)
    then have "x = of_int n * pow2 (- 53) * pow2 e" by (subst n(1)) (simp only: mult.assoc)
    then show ?thesis unfolding y_def by (metis nonzero_mult_div_cancel_right pow2_nonzero)
  qed
  have xy: "x = y * pow2 e" by (simp add: y_def)
  have yb: "1 / 2 \<le> y" "y < 1"
  proof -
    have "pow2 e = 2 * pow2 (ilog2 x)" by (simp add: e_def pow2_Suc)
    then show "1 / 2 \<le> y" "y < 1"
      using ilog2_bounds [OF assms(2)] by (simp_all add: y_def e_def field_simps)
  qed
  have p: "pow2 (- 53) = 1 / 2 ^ 53" "pow2 (- 52) = 1 / 2 ^ 52" by (simp_all add: pow2_def)
  have "of_int (2 ^ 52) \<le> (of_int n :: rat)" "of_int n < (of_int (2 ^ 53) :: rat)"
    using yb by (simp_all add: y p)
  then have nb: "2 ^ 52 \<le> n" "n < 2 ^ 53" by (simp_all only: of_int_less_iff of_int_le_iff)
  have f1: "frexp x = (Fin y, e)" using assms(2) by (simp add: frexp_def e_def y_def Let_def)
  obtain c where c: "Sqrt2_half = Fin c" "11 / 16 \<le> c" "c \<le> 3 / 4" using log_constants(10) by (auto simp: in_range_def)
  show thesis
  proof (cases "y < c")
    case True
    then have "Fin y < Sqrt2_half" by (simp add: c(1))
    have two: "fl64 (y * 2) = Fin (y * 2)"
      using is64_fraction [of n "- 52"] nb by (simp add: is64_def y p)
    have one: "is64 (2 * y - 1)"
      using is64_fraction [of "n - 2 ^ 52" "- 52"] nb by (simp add: y p field_simps)
    have "log_reduce x = (Fin (2 * y - 1), e - 1)"
      using f1 \<open>Fin y < Sqrt2_half\<close> two one by (simp add: log_reduce_def one_flt_def is64_def mult.commute [of y 2])
    moreover have "x = (1 + (2 * y - 1)) * pow2 (e - 1)" using xy pow2_Suc [of "e - 1"] by simp
    moreover have "- 5 / 16 \<le> 2 * y - 1" "2 * y - 1 \<le> 1 / 2" "0 \<le> 2 * y - 1 \<or> 2 * y - 1 \<le> - (1 / 2 ^ 53)"
      using yb True c by simp_all
    moreover have "- 1074 \<le> e - 1" "e - 1 \<le> 1024" using n(2,3) by (simp_all add: e_def)
    ultimately show thesis using one that by blast
  next
    case False
    then have "\<not> Fin y < Sqrt2_half" by (simp add: c(1))
    have one: "is64 (y - 1)"
      using is64_fraction [of "n - 2 ^ 53" "- 53"] nb by (simp add: y p field_simps)
    have "log_reduce x = (Fin (y - 1), e)"
      using f1 \<open>\<not> Fin y < Sqrt2_half\<close> one by (simp add: log_reduce_def one_flt_def is64_def Let_def)
    moreover have "x = (1 + (y - 1)) * pow2 e" using xy by simp
    moreover have "- 5 / 16 \<le> y - 1" "y - 1 \<le> 1 / 2" using yb False c by simp_all
    moreover have "0 \<le> y - 1 \<or> y - 1 \<le> - (1 / 2 ^ 53)"
    proof -
      have "n \<le> 2 ^ 53 - 1" using nb by simp
      then have "(of_int n :: rat) \<le> of_int (2 ^ 53 - 1)" by (simp only: of_int_le_iff)
      then show ?thesis by (simp add: y p)
    qed
    moreover have "- 1074 \<le> e" "e \<le> 1024" using n(2,3) by (simp_all add: e_def)
    ultimately show thesis using one that by blast
  qed
qed

lemma reduced_less_one:
  assumes "- 5 / 16 \<le> r" "r \<le> 1 / 2"
  shows "(1 + r) * pow2 k < 1 \<longleftrightarrow> k < 0 \<or> k = 0 \<and> r < 0"
proof -
  consider "k < 0" | "k = 0" | "0 < k" by linarith
  then show ?thesis
  proof cases
    case 1
    then have "pow2 k \<le> pow2 (- 1)" by (intro pow2_mono) simp
    then have "(1 + r) * pow2 k \<le> 3 / 2 * (1 / 2)" using assms by (intro mult_mono) (simp_all add: pow2_def)
    then show ?thesis using 1 by simp
  next
    case 3
    then have "pow2 1 \<le> pow2 k" by (intro pow2_mono) simp
    then have "11 / 16 * 2 \<le> (1 + r) * pow2 k" using assms by (intro mult_mono) (simp_all add: pow2_def)
    then show ?thesis using 3 by simp
  qed simp
qed

lemma math_Log_parts:
  assumes "is64 x" "0 < x"
  obtains r k where "- 5 / 16 \<le> r" "r \<le> 1 / 2" "is64 r" "0 \<le> r \<or> r \<le> - (1 / 2 ^ 53)"
    "x = (1 + r) * pow2 k" "- 1074 \<le> k" "k \<le> 1024"
    "math_Log (Fin x) = Fin (of_int k) * Ln2Hi - log_tail (Fin r) (Fin (of_int k))"
    "in_range (- (5 / 8)) (9 / 16) (log_tail (Fin r) (Fin (of_int k)))"
proof -
  obtain r k where red: "log_reduce x = (Fin r, k)" and r: "- 5 / 16 \<le> r" "r \<le> 1 / 2" "is64 r" "0 \<le> r \<or> r \<le> - (1 / 2 ^ 53)"
    and x: "x = (1 + r) * pow2 k" and k: "- 1074 \<le> k" "k \<le> 1024"
    using log_reduce_exact [OF assms] .
  have "flt_of_int k = Fin (of_int k)" using k by (intro flt_of_int_exact) simp
  then have L: "math_Log (Fin x) = Fin (of_int k) * Ln2Hi - log_tail (Fin r) (Fin (of_int k))"
    using assms(2) by (simp add: math_Log.simps red Let_def)
  have "of_int (- 1074) \<le> (of_int k :: rat)" "(of_int k :: rat) \<le> of_int 1024"
    using k by (simp_all only: of_int_le_iff)
  then have "in_range (- (5 / 8)) (9 / 16) (log_tail (Fin r) (Fin (of_int k)))"
    using r by (intro log_tail_bounds) (simp_all add: in_range_Fin)
  then show thesis using that r x k L by blast
qed

text \<open>A multiple of \<open>Ln2Hi\<close>.\<close>

lemma Ln2Hi_times:
  assumes "a \<le> k" "k \<le> b" "is64 e" "is64 f"
    and "e \<le> of_int a * (if 0 \<le> a then 11629079 else 11629080) / 16777216"
    and "of_int b * (if 0 \<le> b then 11629080 else 11629079) / 16777216 \<le> f"
  shows "in_range e f (Fin (of_int k) * Ln2Hi)"
proof -
  obtain h where h: "Ln2Hi = Fin h" "11629079 / 16777216 \<le> h" "h \<le> 11629080 / 16777216"
    using log_constants(1) by (auto simp: in_range_def)
  have "of_int a * h \<le> of_int k * h" "of_int k * h \<le> of_int b * h"
    using assms(1,2) h(2) by (auto intro!: mult_right_mono)
  moreover have "of_int a * ((if 0 \<le> a then 11629079 else 11629080) / 16777216) \<le> of_int a * h"
    using mult_left_mono [OF h(2), of "of_int a"] mult_left_mono_neg [OF h(3), of "of_int a"] by (cases "0 \<le> a") simp_all
  moreover have "of_int b * h \<le> of_int b * ((if 0 \<le> b then 11629080 else 11629079) / 16777216)"
    using mult_left_mono [OF h(3), of "of_int b"] mult_left_mono_neg [OF h(2), of "of_int b"] by (cases "0 \<le> b") simp_all
  ultimately show ?thesis using assms(3-6) unfolding times_divide_eq_right h(1) flt_arith
    by (intro fl64_in) linarith+
qed

lemma dyadics_log [dyadic]:
  "is64 (- 800)" "is64 61" "is64 (1009 / 16)" "is64 800" "is64 (- 1000)" "is64 1000" "is64 (493 / 8)" "is64 (125 / 2)"
  "is64 (1 / 16)" "is64 (- (1 / 16))" "is64 (11 / 16)" "is64 (- (11 / 16))" "is64 9" "is64 (287 / 32)" "is64 (- (1 / 2 ^ 56))"
  using is64_dyadic [of "- 800" 0] is64_dyadic [of 61 0] is64_dyadic [of 1009 4] is64_dyadic [of 800 0]
    is64_dyadic [of "- 1000" 0] is64_dyadic [of 1000 0] is64_dyadic [of 493 3] is64_dyadic [of 125 1]
    is64_dyadic [of 1 4] is64_dyadic [of "-1" 4] is64_dyadic [of 11 4] is64_dyadic [of "-11" 4]
    is64_dyadic [of 9 0] is64_dyadic [of 287 5] is64_dyadic [of "- 1" 56]
  by simp_all

text \<open>Numbers below 1, from 1 to \<open>2^88\<close>, and from \<open>2^91\<close> on.\<close>

lemma math_Log_small:
  assumes "is64 x" "0 < x" "x < 1"
  shows "in_range (- 1000) (- (1 / 2 ^ 53)) (math_Log (Fin x))"
  using assms(1,2)
proof (rule math_Log_parts)
  fix r k
  assume r: "- 5 / 16 \<le> r" "r \<le> 1 / 2" "is64 r" "0 \<le> r \<or> r \<le> - (1 / 2 ^ 53)"
    and x: "x = (1 + r) * pow2 k" and k: "- 1074 \<le> k" "k \<le> 1024"
    and L: "math_Log (Fin x) = Fin (of_int k) * Ln2Hi - log_tail (Fin r) (Fin (of_int k))"
    and tail: "in_range (- (5 / 8)) (9 / 16) (log_tail (Fin r) (Fin (of_int k)))"
  show ?thesis
  proof (cases "k < 0")
    case True
    then have "in_range (- 800) (- (11 / 16)) (Fin (of_int k) * Ln2Hi)"
      using k by (intro Ln2Hi_times [of "- 1074" _ "- 1"]) (simp_all add: dyadic)
    then have "in_range (- 1000) (- (1 / 16)) (math_Log (Fin x))" unfolding L
      by (rule in_range_minus [OF _ tail]) (simp_all add: dyadic)
    then show ?thesis by (rule in_range_weaken) simp_all
  next
    case False
    then have "k = 0" "r < 0" using reduced_less_one [OF r(1,2), of k] assms(3) x by auto
    then have t: "in_range (- r) (9 / 16) (log_tail (Fin r) 0)"
      using log_tail_sign(2) [of r] r is64_minus by simp
    have z: "in_range 0 0 (Fin 0 * Ln2Hi)" using Ln2Hi_times [of 0 0 0 0 0] by (simp add: dyadic)
    have "in_range (- (9 / 16)) r (Fin 0 * Ln2Hi - log_tail (Fin r) 0)"
      by (rule in_range_minus [OF z t]) (use r in \<open>simp_all add: dyadic\<close>)
    then have "in_range (- (9 / 16)) r (math_Log (Fin x))" using \<open>k = 0\<close> L by (simp add: zero_flt_def)
    then show ?thesis by (rule in_range_weaken) (use \<open>r < 0\<close> r(4) in simp_all)
  qed
qed

lemma math_Log_middle:
  assumes "is64 x" "0 < x" "1 \<le> x" "x < 2 ^ 88"
  shows "in_range 0 (493 / 8) (math_Log (Fin x))"
  using assms(1,2)
proof (rule math_Log_parts)
  fix r k
  assume r: "- 5 / 16 \<le> r" "r \<le> 1 / 2" "is64 r" "0 \<le> r \<or> r \<le> - (1 / 2 ^ 53)"
    and x: "x = (1 + r) * pow2 k" and k: "- 1074 \<le> k" "k \<le> 1024"
    and L: "math_Log (Fin x) = Fin (of_int k) * Ln2Hi - log_tail (Fin r) (Fin (of_int k))"
    and tail: "in_range (- (5 / 8)) (9 / 16) (log_tail (Fin r) (Fin (of_int k)))"
  show ?thesis
  proof (cases "0 < k")
    case True
    have "1 / 2 * pow2 k \<le> x" unfolding x using r by (intro mult_right_mono) simp_all
    moreover have "pow2 89 = 2 * 2 ^ 88" by (simp add: pow2_def)
    ultimately have "pow2 k < pow2 89" using assms(4) by linarith
    then have "in_range (11 / 16) 61 (Fin (of_int k) * Ln2Hi)"
      using True by (intro Ln2Hi_times [of 1 _ 88]) (simp_all add: dyadic)
    then show ?thesis unfolding L by (rule in_range_minus [OF _ tail]) (simp_all add: dyadic)
  next
    case False
    then have "k = 0" "0 \<le> r" using reduced_less_one [OF r(1,2), of k] assms(3) x by auto
    then have t: "in_range (- (5 / 8)) 0 (log_tail (Fin r) 0)"
      using log_tail_sign(1) [of r] r is64_minus by simp
    have z: "in_range 0 0 (Fin 0 * Ln2Hi)" using Ln2Hi_times [of 0 0 0 0 0] by (simp add: dyadic)
    have "in_range 0 (5 / 8) (Fin 0 * Ln2Hi - log_tail (Fin r) 0)"
      by (rule in_range_minus [OF z t]) (simp_all add: dyadic)
    then have "in_range 0 (5 / 8) (math_Log (Fin x))" using \<open>k = 0\<close> L by (simp add: zero_flt_def)
    then show ?thesis by (rule in_range_weaken) simp_all
  qed
qed

lemma math_Log_large:
  assumes "is64 x" "0 < x" "2 ^ 91 \<le> x"
  shows "in_range (125 / 2) 1000 (math_Log (Fin x))"
  using assms(1,2)
proof (rule math_Log_parts)
  fix r k
  assume r: "- 5 / 16 \<le> r" "r \<le> 1 / 2" and x: "x = (1 + r) * pow2 k" and k: "k \<le> 1024"
    and L: "math_Log (Fin x) = Fin (of_int k) * Ln2Hi - log_tail (Fin r) (Fin (of_int k))"
    and tail: "in_range (- (5 / 8)) (9 / 16) (log_tail (Fin r) (Fin (of_int k)))"
  have "91 \<le> k"
  proof (rule ccontr)
    assume "\<not> 91 \<le> k"
    then have "pow2 k \<le> pow2 90" by (intro pow2_mono) simp
    then have "x \<le> 3 / 2 * pow2 90" unfolding x using r by (intro mult_mono) simp_all
    then show False using assms(3) pow2_nat [of 90] by simp
  qed
  then have "in_range (1009 / 16) 800 (Fin (of_int k) * Ln2Hi)"
    using k by (intro Ln2Hi_times [of 91 _ 1024]) (simp_all add: dyadic)
  then show ?thesis unfolding L by (rule in_range_minus [OF _ tail]) (simp_all add: dyadic)
qed

section \<open>What the API can show\<close>

lemma log_1000: "in_range (441 / 64) (111 / 16) (math_Log (Fin 1000))"
proof -
  let ?f = "Fin (- 3 / 128)"
  have red: "log_reduce 1000 = (?f, 10)" by code_simp
  have L: "math_Log (Fin 1000) = Fin 10 * Ln2Hi - log_tail ?f (Fin 10)"
    using flt_of_int_exact [of 10] by (simp add: math_Log.simps red Let_def)
  have d [dyadic]: "is64 (1 / 64)" "is64 (- (1 / 64))" "is64 (- (1 / 512))" "is64 (1 / 512)" "is64 (3 / 1024)"
    "is64 (11 / 512)" "is64 (7 / 256)" "is64 (443 / 64)" "is64 (111 / 16)" "is64 (7069 / 1024)" "is64 (1771 / 256)"
    "is64 (253 / 128)" "is64 2" "is64 (1 / 32)" "is64 (441 / 64)" "is64 (1 / 1024)"
    using is64_dyadic [of 1 6] is64_dyadic [of "-1" 6] is64_dyadic [of "-1" 9] is64_dyadic [of 1 9]
      is64_dyadic [of 3 10] is64_dyadic [of 11 9] is64_dyadic [of 7 8] is64_dyadic [of 443 6]
      is64_dyadic [of 111 4] is64_dyadic [of 7069 10] is64_dyadic [of 1771 8] is64_dyadic [of 253 7] is64_dyadic [of 2 0] is64_dyadic [of 1 5] is64_dyadic [of 441 6] is64_dyadic [of 1 10]
    by simp_all
  have f: "in_range (- 5 / 16) (1 / 2) ?f" "in_range (- 3 / 128) 0 ?f" by (simp_all add: in_range_Fin)
  have "in_range (253 / 128) 2 (Fin 2 + ?f)"
    by (rule in_range_add [of 2 2 _ "- 3 / 128" 0]) (simp_all add: in_range_Fin dyadic)
  then have s: "in_range (- (1 / 64)) 0 (?f / (Fin 2 + ?f))"
    by (intro in_range_divide_signed [OF f(2), of "253 / 128" 2]) (simp_all add: dyadic)
  have half: "in_range 0 (1 / 512) (log_half ?f)"
    using is64_dyadic [of "- 3" 8] by (auto simp: log_half_def is64_def intro!: fl64_in dyadic)
  have sum: "in_range 0 (1 / 8) (log_half ?f + log_rest ?f)"
    by (rule in_range_add [OF half log_rest_bounds(2) [OF f(1)]]) (simp_all add: dyadic)
  have p: "in_range (- (1 / 512)) 0 (?f / (Fin 2 + ?f) * (log_half ?f + log_rest ?f))"
    by (rule in_range_times_signed [OF s sum]) (simp_all add: dyadic)
  have "in_range 0 (1 / 1024) (Fin 10 * Ln2Lo)"
    by (rule in_range_times [OF _ log_constants(2), of 10 10]) (simp_all add: in_range_Fin dyadic)
  then have "in_range (- (1 / 512)) (1 / 1024) (?f / (Fin 2 + ?f) * (log_half ?f + log_rest ?f) + Fin 10 * Ln2Lo)"
    by (rule in_range_add [OF p]) (simp_all add: dyadic)
  then have "in_range (- (1 / 512)) (1 / 128) (log_half ?f - (?f / (Fin 2 + ?f) * (log_half ?f + log_rest ?f) + Fin 10 * Ln2Lo))"
    by (rule in_range_minus [OF half]) (simp_all add: dyadic)
  then have t: "in_range (11 / 512) (1 / 32) (log_tail ?f (Fin 10))" unfolding log_tail_parts
    by (rule in_range_minus [of _ _ _ "- 3 / 128" "- 3 / 128"]) (simp_all add: in_range_Fin dyadic)
  have "in_range (443 / 64) (111 / 16) (Fin 10 * Ln2Hi)"
    by (rule in_range_times [OF _ log_constants(1), of 10 10]) (simp_all add: in_range_Fin dyadic)
  then show ?thesis unfolding L by (rule in_range_minus [OF _ t]) (simp_all add: dyadic)
qed

lemma thousanth_range:
  assumes "is64 x" "0 < x"
  shows "x < 1 \<Longrightarrow> \<exists>i < 0. floor_flt (math_Log (Fin x) / math_Log (Fin 1000)) = Fin i"
    and "1 \<le> x \<Longrightarrow> x < 2 ^ 88 \<Longrightarrow> \<exists>i < 9. floor_flt (math_Log (Fin x) / math_Log (Fin 1000)) = Fin (of_nat i)"
    and "2 ^ 91 \<le> x \<Longrightarrow> \<exists>i \<ge> 9. floor_flt (math_Log (Fin x) / math_Log (Fin 1000)) = Fin (of_nat i)"
proof -
  obtain c where c: "math_Log (Fin 1000) = Fin c" "441 / 64 \<le> c" "c \<le> 111 / 16"
    using log_1000 by (auto simp: in_range_def)
  show "\<exists>i < 0. floor_flt (math_Log (Fin x) / math_Log (Fin 1000)) = Fin i" if lt: "x < 1"
  proof -
    obtain l where l: "math_Log (Fin x) = Fin l" "- 1000 \<le> l" "l \<le> - (1 / 2 ^ 53)"
      using math_Log_small [OF assms lt] by (auto simp: in_range_def)
    have "- 1000 \<le> l / c" "l / c \<le> - (1 / 2 ^ 56)" using l c by (simp_all add: pos_divide_le_eq pos_le_divide_eq)
    then have "in_range (- 1000) (- (1 / 2 ^ 56)) (fl64 (l / c))" by (intro fl64_in dyadic)
    then obtain q where q: "fl64 (l / c) = Fin q" "q < 0" by (auto simp: in_range_def)
    then have "\<lfloor>q\<rfloor> < 0" by simp
    then show ?thesis using c l q by (intro exI [of _ "of_int \<lfloor>q\<rfloor>"]) simp
  qed
  show "\<exists>i < 9. floor_flt (math_Log (Fin x) / math_Log (Fin 1000)) = Fin (of_nat i)" if le: "1 \<le> x" "x < 2 ^ 88"
  proof -
    obtain l where l: "math_Log (Fin x) = Fin l" "0 \<le> l" "l \<le> 493 / 8"
      using math_Log_middle [OF assms le] by (auto simp: in_range_def)
    have "l / c \<le> 287 / 32" using l c by (simp add: pos_divide_le_eq)
    then have "in_range 0 (287 / 32) (fl64 (l / c))" using l c by (intro fl64_in) (simp_all add: dyadic)
    then obtain q where q: "fl64 (l / c) = Fin q" "0 \<le> q" "q \<le> 287 / 32" by (auto simp: in_range_def)
    then have "nat \<lfloor>q\<rfloor> < 9" by linarith
    then show ?thesis using q c l by (intro exI [of _ "nat \<lfloor>q\<rfloor>"]) simp
  qed
  show "\<exists>i \<ge> 9. floor_flt (math_Log (Fin x) / math_Log (Fin 1000)) = Fin (of_nat i)" if le: "2 ^ 91 \<le> x"
  proof -
    obtain l where l: "math_Log (Fin x) = Fin l" "125 / 2 \<le> l" "l \<le> 1000"
      using math_Log_large [OF assms le] by (auto simp: in_range_def)
    have "9 \<le> l / c" "l / c \<le> 1000" using l c by (simp_all add: pos_divide_le_eq pos_le_divide_eq)
    then have "in_range 9 1000 (fl64 (l / c))" by (intro fl64_in dyadic)
    then obtain q where q: "fl64 (l / c) = Fin q" "9 \<le> q" by (auto simp: in_range_def)
    then have "9 \<le> nat \<lfloor>q\<rfloor>" by linarith
    then show ?thesis using q c l by (intro exI [of _ "nat \<lfloor>q\<rfloor>"]) simp
  qed
qed

lemma floatToHashrate_panics:
  assumes "is64 x" "x < 0 \<or> (0 < x \<and> x < 1) \<or> 2 ^ 91 \<le> x"
  shows "is_panic (floatToHashrate (Fin x))"
proof (cases "x < 0")
  case False
  let ?t = "floor_flt (math_Log (Fin x) / math_Log (Fin 1000))"
  have x: "0 < x" using False assms(2) by (auto elim: less_le_trans [rotated])
  then consider "x < 1" | "2 ^ 91 \<le> x" using assms(2) by fastforce
  then have "\<exists>p. size_at ?t = Panic p"
  proof cases
    case 1
    then obtain i where "i < 0" "?t = Fin i" using thousanth_range(1) [OF assms(1) x] by blast
    then show ?thesis by simp
  next
    case 2
    then obtain i where "9 \<le> i" "?t = Fin (of_nat i)" using thousanth_range(3) [OF assms(1) x] by blast
    then show ?thesis by (simp add: nth_out_def sizes_def)
  qed
  then show ?thesis using x by (auto simp: floatToHashrate_def zero_flt_def)
qed (simp add: floatToHashrate_def zero_flt_def)

lemma floatToHashrate_shows:
  assumes "is64 x" "1 \<le> x" "x < 2 ^ 88"
  shows "\<exists>rate unit. unit \<in> set sizes
    \<and> floatToHashrate (Fin x) = Ok \<lparr>hr_Rate = rate, hr_Denomination = unit @ ''/s'', hr_Raw = Fin x\<rparr>"
proof -
  let ?t = "floor_flt (math_Log (Fin x) / math_Log (Fin 1000))"
  have x: "0 < x" using assms(2) by linarith
  then obtain i where i: "i < 9" "?t = Fin (of_nat i)" using thousanth_range(2) [OF assms(1)] assms(2,3) by blast
  then have "size_at ?t = Ok (sizes ! i)" "i < length sizes" by (simp_all add: nth_out_def sizes_def)
  then show ?thesis using x
    by (intro exI [of _ "show_fixed2 (Fin x / pow_1000 ?t)"] exI [of _ "sizes ! i"])
      (simp add: floatToHashrate_def zero_flt_def Let_def del: pow_1000.simps show_fixed2.simps)
qed

text \<open>
  C38. The API can show a hashrate of zero and every hashrate from 1 up to \<open>2^88\<close>, the latter
  unchanged and with one of the nine units; for a negative one, for one between 0 and 1, whose
  unit has a negative index, and for one from \<open>2^91\<close> on, whose unit is beyond the last, it
  panics. Between \<open>2^88\<close> and \<open>2^91\<close> nothing is said.
\<close>

theorem floatToHashrate_range:
  assumes "fl64 x = Fin x"
  shows "(x < 0 \<or> (0 < x \<and> x < 1) \<or> 2 ^ 91 \<le> x \<longrightarrow> is_panic (floatToHashrate (Fin x)))
    \<and> (x = 0 \<longrightarrow> floatToHashrate (Fin x) = Ok \<lparr>hr_Rate = ''0'', hr_Denomination = '''', hr_Raw = 0\<rparr>)
    \<and> (1 \<le> x \<and> x < 2 ^ 88 \<longrightarrow> (\<exists>rate unit. unit \<in> set sizes
        \<and> floatToHashrate (Fin x) = Ok \<lparr>hr_Rate = rate, hr_Denomination = unit @ ''/s'', hr_Raw = Fin x\<rparr>))"
  using assms floatToHashrate_panics [of x] floatToHashrate_shows [of x]
  by (auto simp: is64_def floatToHashrate_def zero_flt_def zero_HashRate_def)

theorem floatToHashrate_range_witness:
  "is_panic (floatToHashrate (Fin (1 / 2)))
   \<and> (\<exists>rate unit. unit \<in> set sizes \<and> floatToHashrate (Fin 1500) = Ok \<lparr>hr_Rate = rate, hr_Denomination = unit @ ''/s'', hr_Raw = Fin 1500\<rparr>)"
proof -
  have "fl64 (1 / 2) = Fin (1 / 2)" "fl64 1500 = Fin 1500"
    using is64_dyadic [of 1 1] is64_dyadic [of 1500 0] by (simp_all add: is64_def)
  from floatToHashrate_range [OF this(1)] floatToHashrate_range [OF this(2)] show ?thesis by simp
qed

end
