(* ===== verification/Database.thy ===== *)
theory Database
  imports GoFloat
begin

text \<open>
  What \<open>src/persistence\<close> uses of \<open>database/sql\<close>, the \<open>pq\<close> driver and PostgreSQL, none of which
  is in the repository: a state of tables (columns as in \<open>src/persistence/schema/2-schema.sql\<close>),
  statements that either fail or have their effect, the \<open>numeric(28,8)\<close> columns and the time
  stamps. Three things are parameters, kept as fields of the state so that every statement
  sees them: the clock, the decimal number the driver writes for a \<open>float64\<close>, and the script
  of faults, one entry per driver call, that says which calls fail and with what error (an
  exhausted script means no more faults). The row order of a table is the order of its list,
  which is arbitrary; an \<open>ORDER BY\<close> sorts it and leaves ties in that order. Times are integers,
  nanoseconds since Go's zero time.
\<close>

section \<open>Operations with effects\<close>

type_synonym ('w, 'a) op = "'w \<Rightarrow> 'w \<times> 'a outcome"

definition return_op :: "'a \<Rightarrow> ('w, 'a) op" where "return_op x w = (w, Ok x)"
definition fail_op :: "go_error \<Rightarrow> ('w, 'a) op" where "fail_op e w = (w, Err e)"
definition panic_op :: "go_panic \<Rightarrow> ('w, 'a) op" where "panic_op p w = (w, Panic p)"
definition lift_op :: "'a outcome \<Rightarrow> ('w, 'a) op" where "lift_op r w = (w, r)"

definition bind_op :: "('w, 'a) op \<Rightarrow> ('a \<Rightarrow> ('w, 'b) op) \<Rightarrow> ('w, 'b) op" where
  "bind_op m f w =
     (case m w of (w, Ok x) \<Rightarrow> f x w | (w, Err e) \<Rightarrow> (w, Err e) | (w, Panic p) \<Rightarrow> (w, Panic p))"

text \<open>The error of a call becomes a value, as in \<open>x, err := f()\<close>; a panic stays one.\<close>

definition try_op :: "('w, 'a) op \<Rightarrow> ('w, go_error + 'a) op" where
  "try_op m w =
     (case m w of (w, Ok x) \<Rightarrow> (w, Ok (Inr x)) | (w, Err e) \<Rightarrow> (w, Ok (Inl e))
      | (w, Panic p) \<Rightarrow> (w, Panic p))"

text \<open>The error of a call is wrapped.\<close>

definition map_err_op :: "(go_error \<Rightarrow> go_error) \<Rightarrow> ('w, 'a) op \<Rightarrow> ('w, 'a) op" where
  "map_err_op g f w = (case f w of (w', r) \<Rightarrow> (w', map_err g r))"

fun for_op :: "('a \<Rightarrow> ('w, unit) op) \<Rightarrow> 'a list \<Rightarrow> ('w, unit) op" where
  "for_op f [] = return_op ()"
| "for_op f (x # xs) = bind_op (f x) (\<lambda>_. for_op f xs)"

fun map_op :: "('a \<Rightarrow> ('w, 'b) op) \<Rightarrow> 'a list \<Rightarrow> ('w, 'b list) op" where
  "map_op f [] = return_op []"
| "map_op f (x # xs) = bind_op (f x) (\<lambda>y. bind_op (map_op f xs) (\<lambda>ys. return_op (y # ys)))"

named_theorems op_simps \<open>how the operations compute\<close>

lemma op_basic [op_simps]:
  "return_op x w = (w, Ok x)" "fail_op e w = (w, Err e)" "panic_op p w = (w, Panic p)"
  "lift_op r w = (w, r)"
  by (simp_all add: return_op_def fail_op_def panic_op_def lift_op_def)

lemma bind_op_apply [op_simps]:
  "m w = (w', Ok x) \<Longrightarrow> bind_op m f w = f x w'"
  "m w = (w', Err e) \<Longrightarrow> bind_op m f w = (w', Err e)"
  "m w = (w', Panic p) \<Longrightarrow> bind_op m f w = (w', Panic p)"
  by (simp_all add: bind_op_def)

lemma bind_op_Ok: "bind_op m f w = (w'', Ok y) \<longleftrightarrow> (\<exists>w' x. m w = (w', Ok x) \<and> f x w' = (w'', Ok y))"
  by (auto simp: bind_op_def split: prod.splits outcome.splits)

lemma return_op_Ok: "return_op x w = (w', Ok y) \<longleftrightarrow> w' = w \<and> y = x"
  by (auto simp: return_op_def)

lemma fail_op_Ok: "fail_op e w \<noteq> (w', Ok y)"
  by (simp add: fail_op_def)

lemmas op_Ok = bind_op_Ok return_op_Ok fail_op_Ok

lemma bind_op_assoc: "bind_op (bind_op m f) g = bind_op m (\<lambda>x. bind_op (f x) g)"
  by (auto simp: fun_eq_iff bind_op_def split: prod.splits outcome.splits)

lemma bind_op_return: "bind_op (return_op x) f = f x"
  by (simp add: fun_eq_iff bind_op_def return_op_def)

lemma for_op_append: "for_op f (xs @ ys) = bind_op (for_op f xs) (\<lambda>_. for_op f ys)"
proof (induction xs)
  case (Cons x xs)
  then show ?case
    by (auto simp: fun_eq_iff bind_op_def split: prod.splits outcome.splits)
qed (simp add: fun_eq_iff bind_op_def return_op_def)

text \<open>A loop keeps what each of its rounds keeps, however it ends.\<close>

lemma for_op_invariant:
  assumes "P w" "\<And>x w. x \<in> set xs \<Longrightarrow> P w \<Longrightarrow> P (fst (f x w))"
  shows "P (fst (for_op f xs w))"
  using assms
proof (induction xs arbitrary: w)
  case (Cons x xs)
  obtain w' r where fx: "f x w = (w', r)" by (cases "f x w")
  have "P (fst (f x w))" using Cons.prems by simp
  then have "P w'" by (simp add: fx)
  then have "P (fst (for_op f xs w'))" using Cons by simp
  then show ?case using \<open>P w'\<close> by (cases r) (simp_all add: bind_op_def fx)
qed (simp add: return_op_def)

section \<open>Columns\<close>

text \<open>PostgreSQL's \<open>numeric\<close>; a column \<open>numeric(28,8)\<close> rounds halves away from zero to eight
  decimals and has room for numbers below 10^20 and for NaN, but not for infinities.\<close>

datatype numeric = Num rat | NumNaN | NumInf

definition round8 :: "rat \<Rightarrow> rat" where
  "round8 r = of_int (round_half_away (r * 10 ^ 8)) / 10 ^ 8"

fun add_numeric :: "numeric \<Rightarrow> numeric \<Rightarrow> numeric" where
  "add_numeric (Num a) (Num b) = Num (a + b)"
| "add_numeric NumNaN _ = NumNaN"
| "add_numeric _ NumNaN = NumNaN"
| "add_numeric _ _ = NumInf"

fun store_numeric :: "numeric \<Rightarrow> numeric outcome" where
  "store_numeric (Num r) =
     (if \<bar>round8 r\<bar> < 10 ^ 20 then Ok (Num (round8 r)) else Err (ErrRemote ''numeric field overflow''))"
| "store_numeric NumNaN = Ok NumNaN"
| "store_numeric NumInf = Err (ErrRemote ''numeric field overflow'')"

text \<open>Reading a \<open>numeric\<close> into a \<open>float64\<close> or a \<open>float32\<close> parses its decimal digits.\<close>

fun scan_float64 :: "numeric \<Rightarrow> flt" where
  "scan_float64 (Num r) = fl64 r"
| "scan_float64 _ = NaN"

fun scan_float32 :: "numeric \<Rightarrow> flt" where
  "scan_float32 (Num r) = fl32 r"
| "scan_float32 _ = NaN"

text \<open>\<open>a >= b\<close>: NaN is above every number.\<close>

fun ge_numeric :: "numeric \<Rightarrow> numeric \<Rightarrow> bool" where
  "ge_numeric (Num a) (Num b) = (b \<le> a)"
| "ge_numeric NumNaN _ = True"
| "ge_numeric _ NumNaN = False"
| "ge_numeric NumInf _ = True"
| "ge_numeric (Num _) NumInf = False"

text \<open>A time stamp column keeps microseconds.\<close>

definition pg_time :: "int \<Rightarrow> int" where
  "pg_time t = round_even (of_int t / 1000) * 1000"

section \<open>Tables\<close>

record share_row =
  sr_poolid :: string
  sr_blockheight :: int
  sr_difficulty :: flt
  sr_networkdifficulty :: flt
  sr_miner :: string
  sr_worker :: string
  sr_useragent :: string
  sr_ipaddress :: string
  sr_source :: string
  sr_created :: int

record block_row =
  kr_id :: nat
  kr_poolid :: string
  kr_type :: string
  kr_chain :: string
  kr_blockheight :: int
  kr_networkdifficulty :: flt
  kr_status :: string
  kr_confirmationprogress :: flt
  kr_effort :: flt
  kr_transactionconfirmationdata :: string
  kr_miner :: string
  kr_reward :: numeric
  kr_source :: string
  kr_hash :: string
  kr_created :: int

record balance_row =
  br_poolid :: string
  br_chain :: string
  br_address :: string
  br_amount :: numeric
  br_created :: int
  br_updated :: int

record change_row =
  cr_id :: nat
  cr_poolid :: string
  cr_chain :: string
  cr_address :: string
  cr_amount :: numeric
  cr_usage :: string
  cr_created :: int

record settings_row =
  tr_poolid :: string
  tr_address :: string
  tr_paymentthreshold :: numeric
  tr_created :: int
  tr_updated :: int

record payment_row =
  pr_id :: nat
  pr_poolid :: string
  pr_chain :: string
  pr_address :: string
  pr_amount :: numeric
  pr_transactionconfirmationdata :: string
  pr_created :: int

record db =
  db_shares :: "share_row list"
  db_blocks :: "block_row list"
  db_balances :: "balance_row list"
  db_changes :: "change_row list"
  db_settings :: "settings_row list"
  db_payments :: "payment_row list"
  db_serial :: nat
  db_now :: int
  db_dec :: "flt \<Rightarrow> rat"
  db_faults :: "go_error option list"

text \<open>The \<open>numeric\<close> a float parameter arrives as.\<close>

definition numeric_of :: "(flt \<Rightarrow> rat) \<Rightarrow> flt \<Rightarrow> numeric" where
  "numeric_of dec x = (case x of Fin _ \<Rightarrow> Num (dec x) | NaN \<Rightarrow> NumNaN | _ \<Rightarrow> NumInf)"

section \<open>Statements\<close>

text \<open>A driver call takes the next entry of the fault script.\<close>

definition sql_call :: "('z db_scheme, unit) op" where
  "sql_call d =
     (case db_faults d of
        [] \<Rightarrow> (d, Ok ())
      | None # fs \<Rightarrow> (d\<lparr>db_faults := fs\<rparr>, Ok ())
      | Some e # fs \<Rightarrow> (d\<lparr>db_faults := fs\<rparr>, Err e))"

definition sql_query :: "('z db_scheme \<Rightarrow> 'a outcome) \<Rightarrow> ('z db_scheme, 'a) op" where
  "sql_query q = bind_op sql_call (\<lambda>_ d. (d, q d))"

definition sql_exec :: "('z db_scheme \<Rightarrow> 'z db_scheme outcome) \<Rightarrow> ('z db_scheme, unit) op" where
  "sql_exec u = bind_op sql_call (\<lambda>_ d. case u d of Ok d' \<Rightarrow> (d', Ok ()) | Err e \<Rightarrow> (d, Err e)
     | Panic p \<Rightarrow> (d, Panic p))"

definition no_faults :: "'z db_scheme \<Rightarrow> bool" where
  "no_faults d \<longleftrightarrow> (\<forall>f \<in> set (db_faults d). f = None)"

lemma in_set_tlD: "x \<in> set (tl xs) \<Longrightarrow> x \<in> set xs"
  by (cases xs) auto

lemma sql_call_ok [op_simps]:
  "no_faults d \<Longrightarrow> sql_call d = (d\<lparr>db_faults := tl (db_faults d)\<rparr>, Ok ())"
  by (cases "db_faults d") (auto simp: sql_call_def no_faults_def)

lemma no_faults_tl [simp]: "no_faults d \<Longrightarrow> no_faults (d\<lparr>db_faults := tl (db_faults d)\<rparr>)"
  by (cases "db_faults d") (auto simp: no_faults_def)

lemma sql_query_ok [op_simps]:
  "no_faults d \<Longrightarrow> sql_query q d
     = (d\<lparr>db_faults := tl (db_faults d)\<rparr>, q (d\<lparr>db_faults := tl (db_faults d)\<rparr>))"
  by (simp add: sql_query_def bind_op_def sql_call_ok)

lemma sql_exec_ok [op_simps]:
  assumes "no_faults d"
  shows "sql_exec u d = (let d' = d\<lparr>db_faults := tl (db_faults d)\<rparr> in
     case u d' of Ok d'' \<Rightarrow> (d'', Ok ()) | Err e \<Rightarrow> (d', Err e) | Panic p \<Rightarrow> (d', Panic p))"
  by (simp add: sql_exec_def bind_op_def sql_call_ok [OF assms] Let_def split: outcome.split)

section \<open>Operations that write nothing\<close>

text \<open>Queries only consume faults, and no statement panics.\<close>

definition only_faults :: "'z db_scheme \<Rightarrow> 'z db_scheme \<Rightarrow> bool" where
  "only_faults d d' \<longleftrightarrow> d' = d\<lparr>db_faults := db_faults d'\<rparr>"

definition reads_only :: "('z db_scheme, 'a) op \<Rightarrow> bool" where
  "reads_only m \<longleftrightarrow> (\<forall>d. only_faults d (fst (m d)) \<and> \<not> is_panic (snd (m d)))"

named_theorems reads \<open>operations that write nothing\<close>

lemma only_faults_refl [simp]: "only_faults d d"
  by (simp add: only_faults_def)

lemma only_faults_trans: "only_faults d e \<Longrightarrow> only_faults e f \<Longrightarrow> only_faults d f"
  unfolding only_faults_def by (metis (no_types, lifting) db.select_convs(10) db.surjective db.update_convs(10))

lemma reads_bind [reads]:
  assumes "reads_only m" "\<And>x. reads_only (f x)"
  shows "reads_only (bind_op m f)"
  unfolding reads_only_def
proof (intro allI)
  fix d
  obtain e r where m: "m d = (e, r)" by (cases "m d")
  have e: "only_faults d e" "\<not> is_panic r" using assms(1) m by (auto simp: reads_only_def dest: spec [of _ d])
  show "only_faults d (fst (bind_op m f d)) \<and> \<not> is_panic (snd (bind_op m f d))"
  proof (cases r)
    case (Ok x)
    have "only_faults e (fst (f x e)) \<and> \<not> is_panic (snd (f x e))"
      using assms(2) [of x] by (simp add: reads_only_def)
    then show ?thesis using e(1) m Ok only_faults_trans by (auto simp: bind_op_def)
  qed (use e m in \<open>simp_all add: bind_op_def\<close>)
qed

lemma reads_call [reads]: "reads_only sql_call"
  by (auto simp: reads_only_def sql_call_def only_faults_def split: list.splits option.splits)

lemma reads_return [reads]: "reads_only (return_op x)" "reads_only (fail_op e)"
  by (simp_all add: reads_only_def return_op_def fail_op_def)

lemma reads_lift [reads]: "(\<And>p. r \<noteq> Panic p) \<Longrightarrow> reads_only (lift_op r)"
  by (auto simp: reads_only_def lift_op_def is_panic_iff)

lemma reads_query [reads]: "(\<And>d p. q d \<noteq> Panic p) \<Longrightarrow> reads_only (sql_query q)"
  unfolding sql_query_def
  by (intro reads_bind reads_call) (auto simp: reads_only_def is_panic_iff)

lemma reads_map [reads]: "(\<And>x. reads_only (f x)) \<Longrightarrow> reads_only (map_op f xs)"
  by (induction xs) (auto intro!: reads)

lemma reads_only_keeps:
  "reads_only m \<Longrightarrow> m d = (d', r) \<Longrightarrow> d' = d\<lparr>db_faults := db_faults d'\<rparr> \<and> \<not> is_panic r"
  by (auto simp: reads_only_def only_faults_def dest!: spec [of _ d])

end
