(* ===== verification/Balances.thy ===== *)
theory Balances
  imports Database
begin

text \<open>
  The miners' ledger, \<open>src/persistence/balance.go\<close>: the running balances and the log of their
  changes. The abstract ledger is the map from a pool, chain and address to an amount.
\<close>

section \<open>The code\<close>

record Balance =
  bal_PoolID :: string
  bal_Chain :: string
  bal_Address :: string
  bal_Amount :: flt
  bal_Created :: int
  bal_Updated :: int

record BalanceChange =
  bc_ID :: nat
  bc_PoolID :: string
  bc_Chain :: string
  bc_Address :: string
  bc_Amount :: flt
  bc_Usage :: string
  bc_Created :: int

definition balance_key :: "balance_row \<Rightarrow> string \<times> string \<times> string" where
  "balance_key r = (br_poolid r, br_chain r, br_address r)"

definition Balance_Insert :: "Balance \<Rightarrow> ('z db_scheme, unit) op" where
  "Balance_Insert balance =
     bind_op sql_call (\<lambda>_.
     sql_exec (\<lambda>d.
       bind_out (store_numeric (numeric_of (db_dec d) (bal_Amount balance))) (\<lambda>amount.
       let row = \<lparr>br_poolid = bal_PoolID balance, br_chain = bal_Chain balance,
                  br_address = bal_Address balance, br_amount = amount,
                  br_created = pg_time (bal_Created balance),
                  br_updated = pg_time (bal_Updated balance)\<rparr>
       in if balance_key row \<in> set (map balance_key (db_balances d))
          then Err (ErrRemote ''duplicate key value violates unique constraint'')
          else Ok (d\<lparr>db_balances := db_balances d @ [row]\<rparr>))))"

definition Balance_Update :: "Balance \<Rightarrow> ('z db_scheme, unit) op" where
  "Balance_Update balance =
     bind_op sql_call (\<lambda>_.
     sql_exec (\<lambda>d.
       bind_out
         (traverse (\<lambda>r.
            if balance_key r = (bal_PoolID balance, bal_Chain balance, bal_Address balance)
            then bind_out (store_numeric (add_numeric (br_amount r)
                       (numeric_of (db_dec d) (bal_Amount balance)))) (\<lambda>amount.
                   Ok (r\<lparr>br_amount := amount, br_updated := pg_time (db_now d)\<rparr>))
            else Ok r) (db_balances d))
         (\<lambda>rows. Ok (d\<lparr>db_balances := rows\<rparr>))))"

definition GetBalance :: "string \<Rightarrow> string \<Rightarrow> string \<Rightarrow> ('z db_scheme, flt option) op" where
  "GetBalance poolID chain address =
     bind_op sql_call (\<lambda>_.
     sql_query (\<lambda>d.
       Ok (map_option (\<lambda>r. scan_float64 (br_amount r))
             (find (\<lambda>r. balance_key r = (poolID, chain, address)) (db_balances d)))))"

definition AddAmount :: "string \<Rightarrow> string \<Rightarrow> string \<Rightarrow> string \<Rightarrow> flt \<Rightarrow> ('z db_scheme, unit) op" where
  "AddAmount poolID chain address usage amount d =
     (let now = db_now d in
      bind_op sql_call (\<lambda>_.
      bind_op (sql_exec (\<lambda>d.
        bind_out (store_numeric (numeric_of (db_dec d) amount)) (\<lambda>stored.
          Ok (d\<lparr>db_changes := db_changes d @
                 [\<lparr>cr_id = db_serial d, cr_poolid = poolID, cr_chain = chain, cr_address = address,
                   cr_amount = stored, cr_usage = usage, cr_created = pg_time now\<rparr>],
                db_serial := Suc (db_serial d)\<rparr>)))) (\<lambda>_.
      bind_op (GetBalance poolID chain address) (\<lambda>balance.
      let balanceRecord = \<lparr>bal_PoolID = poolID, bal_Chain = chain, bal_Address = address,
                           bal_Amount = amount, bal_Created = 0, bal_Updated = now\<rparr>
      in if balance = None then Balance_Insert (balanceRecord\<lparr>bal_Created := now\<rparr>)
         else Balance_Update balanceRecord))) d)"

text \<open>The left join gives a row without settings one line with a null threshold.\<close>

definition join_settings ::
    "settings_row list \<Rightarrow> balance_row \<Rightarrow> (balance_row \<times> settings_row option) list" where
  "join_settings settings b =
     (let ms = filter (\<lambda>s. tr_poolid s = br_poolid b \<and> tr_address s = br_address b) settings
      in if ms = [] then [(b, None)] else map (\<lambda>s. (b, Some s)) ms)"

definition scan_balance :: "balance_row \<Rightarrow> Balance" where
  "scan_balance r =
     \<lparr>bal_PoolID = br_poolid r, bal_Chain = br_chain r, bal_Address = br_address r,
      bal_Amount = scan_float64 (br_amount r), bal_Created = br_created r, bal_Updated = br_updated r\<rparr>"

definition GetPoolBalancesOverThreshold ::
    "string \<Rightarrow> string \<Rightarrow> flt \<Rightarrow> ('z db_scheme, Balance list) op" where
  "GetPoolBalancesOverThreshold poolID chain minimum =
     bind_op sql_call (\<lambda>_.
     sql_query (\<lambda>d.
       Ok (map (\<lambda>(b, _). scan_balance b)
            (filter (\<lambda>(b, ms). br_poolid b = poolID \<and> br_chain b = chain
               \<and> ge_numeric (br_amount b)
                   (case ms of Some s \<Rightarrow> tr_paymentthreshold s
                    | None \<Rightarrow> numeric_of (db_dec d) minimum))
              (concat (map (join_settings (db_settings d)) (db_balances d)))))))"

text \<open>\<open>OFFSET\<close> and \<open>FETCH NEXT\<close>; rows in descending order of a key.\<close>

definition offset_fetch :: "int \<Rightarrow> int \<Rightarrow> 'a list \<Rightarrow> 'a list outcome" where
  "offset_fetch offset count rows =
     (if offset < 0 then Err (ErrRemote ''OFFSET must not be negative'')
      else if count < 0 then Err (ErrRemote ''FETCH must not be negative'')
      else Ok (take (nat count) (drop (nat offset) rows)))"

definition order_desc :: "('a \<Rightarrow> int) \<Rightarrow> 'a list \<Rightarrow> 'a list" where
  "order_desc key rows = sort_key (\<lambda>r. - key r) rows"

text \<open>\<open>rows.Scan(&change)\<close> gives one destination to eight columns, an error on the first row.\<close>

definition PageBalanceChanges :: "string \<Rightarrow> int \<Rightarrow> int \<Rightarrow> ('z db_scheme, BalanceChange list) op" where
  "PageBalanceChanges poolID page pageSize =
     bind_op sql_call (\<lambda>_.
     sql_query (\<lambda>d.
       bind_out (offset_fetch page pageSize
                  (order_desc cr_created (filter (\<lambda>c. cr_poolid c = poolID) (db_changes d))))
         (\<lambda>rows. if rows = [] then Ok []
                 else Err (ErrText ''sql: expected 8 destination arguments in Scan, not 1''))))"

definition GetBalanceChangesCount :: "string \<Rightarrow> ('z db_scheme, nat) op" where
  "GetBalanceChangesCount poolID =
     bind_op sql_call (\<lambda>_.
     sql_query (\<lambda>d. Ok (length (filter (\<lambda>c. cr_poolid c = poolID) (db_changes d)))))"

section \<open>The abstract ledger\<close>

type_synonym ledger_key = "string \<times> string \<times> string"

definition unique_balances :: "'z db_scheme \<Rightarrow> bool" where
  "unique_balances d \<longleftrightarrow> distinct (map balance_key (db_balances d))"

definition balance_of :: "'z db_scheme \<Rightarrow> ledger_key \<Rightarrow> numeric option" where
  "balance_of d = map_of (map (\<lambda>r. (balance_key r, br_amount r)) (db_balances d))"

text \<open>Crediting: an absent balance counts as nothing, and the result is stored with eight decimals.\<close>

definition credited :: "numeric option \<Rightarrow> numeric \<Rightarrow> numeric outcome" where
  "credited old amount =
     store_numeric (case old of None \<Rightarrow> amount | Some a \<Rightarrow> add_numeric a amount)"

lemma find_balance:
  "find (\<lambda>r. balance_key r = k) rows = None \<longleftrightarrow> k \<notin> set (map balance_key rows)"
  by (induction rows) auto

lemma balance_of_None: "balance_of d k = None \<longleftrightarrow> k \<notin> set (map balance_key (db_balances d))"
  by (auto simp: balance_of_def map_of_eq_None_iff image_image)

text \<open>The update touches the one row of its key.\<close>

lemma update_rows:
  assumes "distinct (map balance_key rows)" "map_of (map (\<lambda>r. (balance_key r, br_amount r)) rows) k = Some a"
    and "g a = Ok b"
  shows "\<exists>rows'. traverse (\<lambda>r. if balance_key r = k
        then bind_out (g (br_amount r)) (\<lambda>amount. Ok (r\<lparr>br_amount := amount, br_updated := t\<rparr>))
        else Ok r) rows = Ok rows'
    \<and> map balance_key rows' = map balance_key rows
    \<and> map_of (map (\<lambda>r. (balance_key r, br_amount r)) rows')
        = (map_of (map (\<lambda>r. (balance_key r, br_amount r)) rows))(k \<mapsto> b)"
  using assms(1,2)
proof (induction rows)
  case (Cons r rows)
  have key: "balance_key (r\<lparr>br_amount := x, br_updated := y\<rparr>) = balance_key r" for x y
    by (simp add: balance_key_def)
  show ?case
  proof (cases "balance_key r = k")
    case True
    then have "k \<notin> balance_key ` set rows" using Cons.prems(1) by simp
    then have "traverse (\<lambda>r. if balance_key r = k
        then bind_out (g (br_amount r)) (\<lambda>amount. Ok (r\<lparr>br_amount := amount, br_updated := t\<rparr>))
        else Ok r) rows = Ok (map (\<lambda>r. r) rows)"
      by (intro traverse_map) auto
    then show ?thesis using True Cons.prems assms(3) key by (auto simp: fun_eq_iff)
  next
    case False
    then show ?thesis using Cons by (auto simp: fun_eq_iff)
  qed
qed simp

lemma find_balance_Some:
  "map_option (\<lambda>r. scan_float64 (br_amount r)) (find (\<lambda>r. balance_key r = k) rows)
     = map_option scan_float64 (map_of (map (\<lambda>r. (balance_key r, br_amount r)) rows) k)"
  by (induction rows) auto

lemma GetBalance_value:
  assumes "no_faults d"
  obtains d' where "GetBalance p c a d = (d', Ok (map_option scan_float64 (balance_of d (p, c, a))))"
    "d' = d\<lparr>db_faults := tl (tl (db_faults d))\<rparr>"
proof -
  have "no_faults (d\<lparr>db_faults := tl (db_faults d)\<rparr>)" using assms by simp
  then show thesis
    using that assms
    by (simp add: GetBalance_def bind_op_def sql_call_ok sql_query_ok find_balance_Some balance_of_def)
qed

lemma Balance_Insert_value:
  assumes "no_faults d" "balance_of d (bal_PoolID b, bal_Chain b, bal_Address b) = None"
    and "store_numeric (numeric_of (db_dec d) (bal_Amount b)) = Ok amount"
  shows "\<exists>r. Balance_Insert b d = (d\<lparr>db_faults := tl (tl (db_faults d)), db_balances := db_balances d @ [r]\<rparr>, Ok ())
    \<and> balance_key r = (bal_PoolID b, bal_Chain b, bal_Address b) \<and> br_amount r = amount"
proof -
  have "no_faults (d\<lparr>db_faults := tl (db_faults d)\<rparr>)" using assms by simp
  then show ?thesis
    using assms
    by (intro exI [of _ "\<lparr>br_poolid = bal_PoolID b, br_chain = bal_Chain b, br_address = bal_Address b,
        br_amount = amount, br_created = pg_time (bal_Created b), br_updated = pg_time (bal_Updated b)\<rparr>"])
      (simp add: Balance_Insert_def bind_op_def sql_call_ok sql_exec_ok Let_def balance_of_None
        balance_key_def)
qed

lemma Balance_Update_value:
  assumes "no_faults d" "unique_balances d"
    and "balance_of d (bal_PoolID b, bal_Chain b, bal_Address b) = Some old"
    and "store_numeric (add_numeric old (numeric_of (db_dec d) (bal_Amount b))) = Ok amount"
  shows "\<exists>rows. Balance_Update b d = (d\<lparr>db_faults := tl (tl (db_faults d)), db_balances := rows\<rparr>, Ok ())
    \<and> map balance_key rows = map balance_key (db_balances d)
    \<and> map_of (map (\<lambda>r. (balance_key r, br_amount r)) rows)
        = (balance_of d)((bal_PoolID b, bal_Chain b, bal_Address b) \<mapsto> amount)"
proof -
  have nf: "no_faults (d\<lparr>db_faults := tl (db_faults d)\<rparr>)" using assms by simp
  let ?k = "(bal_PoolID b, bal_Chain b, bal_Address b)"
  let ?g = "\<lambda>a. store_numeric (add_numeric a (numeric_of (db_dec d) (bal_Amount b)))"
  obtain rows where "traverse (\<lambda>r. if balance_key r = ?k
        then bind_out (?g (br_amount r)) (\<lambda>amount. Ok (r\<lparr>br_amount := amount, br_updated := pg_time (db_now d)\<rparr>))
        else Ok r) (db_balances d) = Ok rows"
    "map balance_key rows = map balance_key (db_balances d)"
    "map_of (map (\<lambda>r. (balance_key r, br_amount r)) rows) = (balance_of d)(?k \<mapsto> amount)"
    using update_rows [of "db_balances d" ?k old ?g amount "pg_time (db_now d)"] assms
    by (auto simp: unique_balances_def balance_of_def)
  then show ?thesis
    using assms(1) nf by (intro exI [of _ rows])
      (simp add: Balance_Update_def bind_op_def sql_call_ok sql_exec_ok Let_def cong del: if_weak_cong)
qed

text \<open>What crediting leaves of the rest of the database.\<close>

definition same_but_ledger :: "'z db_scheme \<Rightarrow> 'z db_scheme \<Rightarrow> bool" where
  "same_but_ledger d d' \<longleftrightarrow>
     d' = d\<lparr>db_balances := db_balances d', db_changes := db_changes d', db_serial := db_serial d',
            db_faults := db_faults d'\<rparr>"

lemma AddAmount_value:
  fixes d :: "'z db_scheme"
  assumes nf: "no_faults d" and u: "unique_balances d"
    and c: "store_numeric (numeric_of (db_dec d) amount) = Ok change"
    and b: "credited (balance_of d (p, ch, a)) (numeric_of (db_dec d) amount) = Ok new"
  shows "\<exists>d' entry. AddAmount p ch a usage amount d = (d', Ok ())
    \<and> balance_of d' = (balance_of d)((p, ch, a) \<mapsto> new)
    \<and> db_changes d' = db_changes d @ [entry]
    \<and> (cr_poolid entry, cr_chain entry, cr_address entry) = (p, ch, a) \<and> cr_amount entry = change
    \<and> unique_balances d' \<and> no_faults d' \<and> same_but_ledger d d'"
proof -
  define d1 where "d1 = d\<lparr>db_faults := tl (db_faults d)\<rparr>"
  define entry where "entry = \<lparr>cr_id = db_serial d, cr_poolid = p, cr_chain = ch, cr_address = a,
    cr_amount = change, cr_usage = usage, cr_created = pg_time (db_now d)\<rparr>"
  define d2 where "d2 = d\<lparr>db_faults := tl (tl (db_faults d)), db_changes := db_changes d @ [entry],
    db_serial := Suc (db_serial d)\<rparr>"
  have nf1: "no_faults d1" using nf by (simp add: d1_def)
  have nft: "no_faults (e\<lparr>db_faults := tl (db_faults e')\<rparr>)" if "no_faults e'" for e e' :: "'z db_scheme"
    using that by (cases "db_faults e'") (auto simp: no_faults_def)
  have nf2: "no_faults d2" using nf1 by (cases "tl (db_faults d)") (auto simp: no_faults_def d1_def d2_def)
  obtain d3 where d3: "GetBalance p ch a d2 = (d3, Ok (map_option scan_float64 (balance_of d2 (p, ch, a))))"
    "d3 = d2\<lparr>db_faults := tl (tl (db_faults d2))\<rparr>" using nf2 by (rule GetBalance_value)
  have nf3: "no_faults d3" using nf2 by (auto simp: d3(2) no_faults_def dest: in_set_tlD)
  have bal: "balance_of d3 = balance_of d" by (simp add: d3(2) d2_def balance_of_def fun_eq_iff)
  have u3: "unique_balances d3" using u by (simp add: d3(2) d2_def unique_balances_def)
  define rec where "rec = \<lparr>bal_PoolID = p, bal_Chain = ch, bal_Address = a, bal_Amount = amount,
    bal_Created = 0, bal_Updated = db_now d\<rparr>"
  have run: "AddAmount p ch a usage amount d =
     (if balance_of d (p, ch, a) = None then Balance_Insert (rec\<lparr>bal_Created := db_now d\<rparr>) d3
      else Balance_Update rec d3)"
    using nf nf1 c d3(1) bal
    by (simp add: AddAmount_def bind_op_def sql_call_ok sql_exec_ok Let_def d1_def d2_def entry_def rec_def
        balance_of_def split: if_splits)
  show ?thesis
  proof (cases "balance_of d (p, ch, a)")
    case None
    then obtain r where r: "Balance_Insert (rec\<lparr>bal_Created := db_now d\<rparr>) d3
        = (d3\<lparr>db_faults := tl (tl (db_faults d3)), db_balances := db_balances d3 @ [r]\<rparr>, Ok ())"
      "balance_key r = (p, ch, a)" "br_amount r = new"
      using Balance_Insert_value [OF nf3, of "rec\<lparr>bal_Created := db_now d\<rparr>" new] b bal
      by (auto simp: rec_def credited_def d3(2) d2_def)
    define d' where "d' = d3\<lparr>db_faults := tl (tl (db_faults d3)), db_balances := db_balances d3 @ [r]\<rparr>"
    have "balance_of d' = (balance_of d)((p, ch, a) \<mapsto> new)"
      using None r bal by (auto simp: d'_def balance_of_def map_add_def fun_eq_iff split: option.splits)
    moreover have "unique_balances d'"
      using u3 None r(2) bal balance_of_None [of d3 "(p, ch, a)"] by (simp add: d'_def unique_balances_def)
    moreover have "no_faults d'" using nf3 by (auto simp: d'_def no_faults_def dest: in_set_tlD)
    moreover have "same_but_ledger d d'" by (simp add: same_but_ledger_def d'_def d3(2) d2_def)
    ultimately show ?thesis
      using run None r(1) by (intro exI [of _ d'] exI [of _ entry]) (simp add: d'_def d3(2) d2_def entry_def)
  next
    case (Some old)
    then obtain rows where r: "Balance_Update rec d3
        = (d3\<lparr>db_faults := tl (tl (db_faults d3)), db_balances := rows\<rparr>, Ok ())"
      "map balance_key rows = map balance_key (db_balances d3)"
      "map_of (map (\<lambda>r. (balance_key r, br_amount r)) rows) = (balance_of d3)((p, ch, a) \<mapsto> new)"
      using Balance_Update_value [OF nf3 u3, of rec old new] b bal
      by (auto simp: rec_def credited_def d3(2) d2_def)
    define d' where "d' = d3\<lparr>db_faults := tl (tl (db_faults d3)), db_balances := rows\<rparr>"
    have "balance_of d' = (balance_of d)((p, ch, a) \<mapsto> new)"
      using r(3) bal by (simp add: d'_def balance_of_def fun_eq_iff)
    moreover have "unique_balances d'" using u3 r(2) by (simp add: d'_def unique_balances_def)
    moreover have "no_faults d'" using nf3 by (auto simp: d'_def no_faults_def dest: in_set_tlD)
    moreover have "same_but_ledger d d'" by (simp add: same_but_ledger_def d'_def d3(2) d2_def)
    ultimately show ?thesis
      using run Some r(1) by (intro exI [of _ d'] exI [of _ entry]) (simp add: d'_def d3(2) d2_def entry_def)
  qed
qed

section \<open>Balances and the log of changes\<close>

definition eight_decimals :: "rat \<Rightarrow> bool" where "eight_decimals r \<longleftrightarrow> round8 r = r"

lemma round_half_away_of_int [simp]: "round_half_away (of_int i) = i"
  by (auto simp: round_half_away_def floor_eq_iff)

lemma eight_decimals_iff: "eight_decimals r \<longleftrightarrow> (\<exists>i. r = of_int i / 10 ^ 8)"
proof
  assume "eight_decimals r"
  then show "\<exists>i. r = of_int i / 10 ^ 8" unfolding eight_decimals_def round8_def by metis
next
  assume "\<exists>i. r = of_int i / 10 ^ 8"
  then obtain i where "r * 10 ^ 8 = of_int i" "r = of_int i / 10 ^ 8" by auto
  then show "eight_decimals r" unfolding eight_decimals_def round8_def by (simp only: round_half_away_of_int)
qed

lemma eight_decimals_round8: "eight_decimals (round8 r)"
  unfolding eight_decimals_iff round8_def by blast

lemma eight_decimals_add: "eight_decimals a \<Longrightarrow> eight_decimals b \<Longrightarrow> eight_decimals (a + b)"
  unfolding eight_decimals_iff by (metis add_divide_distrib of_int_add)

fun rat_amount :: "numeric option \<Rightarrow> rat" where
  "rat_amount (Some (Num r)) = r"
| "rat_amount _ = 0"

definition change_key :: "change_row \<Rightarrow> ledger_key" where
  "change_key c = (cr_poolid c, cr_chain c, cr_address c)"

definition change_sum :: "change_row list \<Rightarrow> ledger_key \<Rightarrow> rat" where
  "change_sum cs k = sum_list (map (\<lambda>c. rat_amount (Some (cr_amount c))) (filter (\<lambda>c. change_key c = k) cs))"

text \<open>Every balance is an exact number and the sum of its logged changes.\<close>

definition ledger_consistent :: "'z db_scheme \<Rightarrow> bool" where
  "ledger_consistent d \<longleftrightarrow> unique_balances d \<and>
     (\<forall>k. balance_of d k \<in> {None} \<union> (Some \<circ> Num) ` {r. eight_decimals r}
        \<and> rat_amount (balance_of d k) = change_sum (db_changes d) k)"

lemma change_sum_append:
  "change_sum (cs @ [c]) k = change_sum cs k + (if change_key c = k then rat_amount (Some (cr_amount c)) else 0)"
  by (simp add: change_sum_def)

definition amount_fits :: "'z db_scheme \<Rightarrow> ledger_key \<Rightarrow> flt \<Rightarrow> bool" where
  "amount_fits d k amount \<longleftrightarrow> (\<exists>x. amount = Fin x) \<and> eight_decimals (db_dec d amount)
     \<and> \<bar>db_dec d amount\<bar> < 10 ^ 20 \<and> \<bar>rat_amount (balance_of d k) + db_dec d amount\<bar> < 10 ^ 20"

lemma store_eight: "eight_decimals r \<Longrightarrow> \<bar>r\<bar> < 10 ^ 20 \<Longrightarrow> store_numeric (Num r) = Ok (Num r)"
  by (simp add: eight_decimals_def)

lemma AddAmount_consistent:
  assumes "no_faults d" "ledger_consistent d" "amount_fits d (p, ch, a) amount"
  shows "\<exists>d'. AddAmount p ch a usage amount d = (d', Ok ()) \<and> no_faults d' \<and> ledger_consistent d'
    \<and> balance_of d' = (balance_of d)((p, ch, a) \<mapsto> Num (rat_amount (balance_of d (p, ch, a)) + db_dec d amount))
    \<and> same_but_ledger d d'"
proof -
  let ?k = "(p, ch, a)" and ?x = "db_dec d amount"
  have n: "numeric_of (db_dec d) amount = Num ?x" using assms(3) by (auto simp: amount_fits_def numeric_of_def)
  have u: "unique_balances d" using assms(2) by (simp add: ledger_consistent_def)
  have c: "store_numeric (numeric_of (db_dec d) amount) = Ok (Num ?x)"
    using assms(3) n store_eight by (simp add: amount_fits_def)
  have old: "balance_of d ?k = None \<or> (\<exists>r. balance_of d ?k = Some (Num r) \<and> eight_decimals r)"
    using assms(2) by (auto simp: ledger_consistent_def)
  have new8: "eight_decimals (rat_amount (balance_of d ?k) + ?x)"
    using old assms(3) eight_decimals_add by (auto simp: amount_fits_def)
  have b: "credited (balance_of d ?k) (numeric_of (db_dec d) amount)
      = Ok (Num (rat_amount (balance_of d ?k) + ?x))"
    using old new8 assms(3) store_eight n by (auto simp: credited_def amount_fits_def)
  obtain d' entry where d': "AddAmount p ch a usage amount d = (d', Ok ())"
    "balance_of d' = (balance_of d)(?k \<mapsto> Num (rat_amount (balance_of d ?k) + ?x))"
    "db_changes d' = db_changes d @ [entry]" "(cr_poolid entry, cr_chain entry, cr_address entry) = ?k"
    "cr_amount entry = Num ?x" "unique_balances d'" "no_faults d'" "same_but_ledger d d'"
    using AddAmount_value [OF assms(1) u c b] by blast
  have "change_sum (db_changes d') k = change_sum (db_changes d) k + (if ?k = k then ?x else 0)" for k
    using d'(3-5) by (simp add: change_sum_append change_key_def)
  then have "ledger_consistent d'"
    using assms(2) new8 d'(2,6) by (auto simp: ledger_consistent_def)
  with d' show ?thesis by blast
qed

section \<open>Properties\<close>

text \<open>
  C12. Crediting keeps the books: while no statement fails, \<open>AddAmount\<close> of an amount with at
  most eight decimals that the column can hold succeeds, changes exactly the balance of that
  pool, chain and address, by exactly the amount, and leaves every balance equal to the sum of
  its logged changes; the other tables stay as they are.
\<close>

theorem AddAmount_keeps_the_books:
  assumes "no_faults d" "ledger_consistent d" "amount_fits d (p, ch, a) amount"
  shows "\<exists>d'. AddAmount p ch a usage amount d = (d', Ok ())
    \<and> ledger_consistent d' \<and> no_faults d' \<and> same_but_ledger d d'
    \<and> rat_amount (balance_of d' (p, ch, a)) = rat_amount (balance_of d (p, ch, a)) + db_dec d amount
    \<and> (\<forall>k. k \<noteq> (p, ch, a) \<longrightarrow> balance_of d' k = balance_of d k)"
  using AddAmount_consistent [OF assms, of usage] by auto

definition example_db :: "unit db_scheme" where
  "example_db = \<lparr>db_shares = [], db_blocks = [],
     db_balances = [\<lparr>br_poolid = ''p'', br_chain = ''dogecoin'', br_address = ''bob'',
        br_amount = Num (5 / 2), br_created = 0, br_updated = 0\<rparr>],
     db_changes = [\<lparr>cr_id = 0, cr_poolid = ''p'', cr_chain = ''dogecoin'', cr_address = ''bob'',
        cr_amount = Num (5 / 2), cr_usage = ''u'', cr_created = 0\<rparr>],
     db_settings = [], db_payments = [], db_serial = 1, db_now = 1000,
     db_dec = (\<lambda>x. case x of Fin r \<Rightarrow> r | _ \<Rightarrow> 0), db_faults = []\<rparr>"

lemma example_db_balance: "balance_of example_db = [(''p'', ''dogecoin'', ''bob'') \<mapsto> Num (5 / 2)]"
  by (simp add: example_db_def balance_of_def balance_key_def)

lemma example_db_consistent: "ledger_consistent example_db" "no_faults example_db"
proof -
  have "eight_decimals (5 / 2)" unfolding eight_decimals_iff by (intro exI [of _ 250000000]) simp
  then show "ledger_consistent example_db"
    by (auto simp: ledger_consistent_def example_db_balance change_sum_def change_key_def unique_balances_def)
      (auto simp: example_db_def)
  show "no_faults example_db" by (simp add: no_faults_def example_db_def)
qed

theorem AddAmount_keeps_the_books_witness:
  "\<exists>d'. AddAmount ''p'' ''dogecoin'' ''bob'' ''gift'' (Fin 1) example_db = (d', Ok ())
    \<and> ledger_consistent d' \<and> rat_amount (balance_of d' (''p'', ''dogecoin'', ''bob'')) = 7 / 2"
proof -
  have "eight_decimals 1" unfolding eight_decimals_iff by (intro exI [of _ 100000000]) simp
  then have f: "amount_fits example_db (''p'', ''dogecoin'', ''bob'') (Fin 1)"
    by (simp add: amount_fits_def example_db_balance) (simp add: example_db_def)
  have "db_dec example_db (Fin 1) = 1" by (simp add: example_db_def)
  then show ?thesis
    using AddAmount_keeps_the_books [OF example_db_consistent(2,1) f, of "''gift''"]
    by (auto simp: example_db_balance)
qed

text \<open>
  C32. A failure in the middle of \<open>AddAmount\<close> leaves the books unbalanced: the change is already
  in the log when one of the later statements fails, and there is no transaction to take it
  back, so the error is returned with the log one entry longer and every balance unchanged.
\<close>

theorem AddAmount_failure_keeps_the_log_entry:
  assumes "db_faults d = replicate n None @ Some e # fs" "2 \<le> n" "n \<le> 5"
    and "store_numeric (numeric_of (db_dec d) amount) = Ok change"
  shows "\<exists>d' entry. AddAmount p ch a usage amount d = (d', Err e)
    \<and> db_changes d' = db_changes d @ [entry] \<and> change_key entry = (p, ch, a)
    \<and> cr_amount entry = change \<and> db_balances d' = db_balances d"
proof -
  consider "n = 2" | "n = 3" | "n = 4" | "n = 5" using assms(2,3) by linarith
  then show ?thesis
    using assms(1,4)
    by cases (simp_all add: AddAmount_def bind_op_def sql_call_def sql_exec_def sql_query_def GetBalance_def
        Balance_Insert_def Balance_Update_def Let_def change_key_def numeral_eq_Suc)
qed

theorem AddAmount_failure_keeps_the_log_entry_witness:
  "\<exists>d' entry. AddAmount ''p'' ''dogecoin'' ''bob'' ''gift'' (Fin 1)
      (example_db\<lparr>db_faults := [None, None, None, None, None, Some (ErrRemote ''connection lost'')]\<rparr>)
      = (d', Err (ErrRemote ''connection lost''))
    \<and> db_changes d' = db_changes example_db @ [entry] \<and> db_balances d' = db_balances example_db"
proof -
  let ?d = "example_db\<lparr>db_faults := [None, None, None, None, None, Some (ErrRemote ''connection lost'')]\<rparr>"
  have f: "db_faults ?d = replicate 5 None @ Some (ErrRemote ''connection lost'') # []"
    by (simp add: numeral_eq_Suc)
  have "eight_decimals 1" unfolding eight_decimals_iff by (intro exI [of _ 100000000]) simp
  then have s: "store_numeric (numeric_of (db_dec ?d) (Fin 1)) = Ok (Num 1)"
    by (simp add: numeric_of_def eight_decimals_def example_db_def)
  show ?thesis
    using AddAmount_failure_keeps_the_log_entry [OF f _ _ s, of "''p''" "''dogecoin''" "''bob''" "''gift''"]
    by auto
qed

end
