(* ===== verification/Shares.thy ===== *)
theory Shares
  imports Balances "HOL-Library.AList" "HOL-Library.Multiset"
begin

text \<open>
  The shares table, \<open>src/persistence/share.go\<close>: the batch that the pool flushes, the pages the
  payout schemes read, the sums and the grouping behind the statistics. A Go map is an
  association list; the order in which a \<open>range\<close> visits it is not the list's order but an
  argument of the definitions that iterate.
\<close>

section \<open>Float columns\<close>

text \<open>PostgreSQL's \<open>double precision\<close> arithmetic: an overflow, an underflow to zero or a division
  by zero is an error of the statement.\<close>

fun infinite_flt :: "flt \<Rightarrow> bool" where
  "infinite_flt PInf = True"
| "infinite_flt NInf = True"
| "infinite_flt _ = False"

definition pg_range :: "bool \<Rightarrow> bool \<Rightarrow> flt \<Rightarrow> flt outcome" where
  "pg_range inf_allowed zero_allowed r =
     (if infinite_flt r \<and> \<not> inf_allowed then Err (ErrRemote ''value out of range: overflow'')
      else if r = 0 \<and> \<not> zero_allowed then Err (ErrRemote ''value out of range: underflow'')
      else Ok r)"

definition pg_add :: "flt \<Rightarrow> flt \<Rightarrow> flt outcome" where
  "pg_add x y = pg_range (infinite_flt x \<or> infinite_flt y) True (x + y)"

definition pg_mul :: "flt \<Rightarrow> flt \<Rightarrow> flt outcome" where
  "pg_mul x y = pg_range (infinite_flt x \<or> infinite_flt y) (x = 0 \<or> y = 0) (x * y)"

definition pg_div :: "flt \<Rightarrow> flt \<Rightarrow> flt outcome" where
  "pg_div x y =
     (if y = 0 \<and> x \<noteq> NaN then Err (ErrRemote ''division by zero'')
      else pg_range (infinite_flt x) (x = 0 \<or> infinite_flt y) (x / y))"

text \<open>\<open>SUM\<close> of no rows is null.\<close>

fun pg_sum_from :: "flt \<Rightarrow> flt list \<Rightarrow> flt outcome" where
  "pg_sum_from acc [] = Ok acc"
| "pg_sum_from acc (x # xs) = bind_out (pg_add acc x) (\<lambda>acc. pg_sum_from acc xs)"

definition pg_sum :: "flt list \<Rightarrow> flt option outcome" where
  "pg_sum xs = (case xs of [] \<Rightarrow> Ok None | x # xs \<Rightarrow> bind_out (pg_sum_from x xs) (\<lambda>s. Ok (Some s)))"

definition scan_not_null :: "string \<Rightarrow> 'a option \<Rightarrow> 'a outcome" where
  "scan_not_null column v =
     (case v of None \<Rightarrow> Err (ErrText (''sql: Scan error, converting NULL: '' @ column)) | Some x \<Rightarrow> Ok x)"

section \<open>Writing and reading shares\<close>

record Share =
  sh_PoolID :: string
  sh_BlockHeight :: u64
  sh_Miner :: string
  sh_Worker :: string
  sh_UserAgent :: string
  sh_Difficulty :: flt
  sh_NetworkDifficulty :: flt
  sh_IpAddress :: string
  sh_Created :: int

text \<open>A \<open>uint\<close> parameter with its top bit set is refused by the driver.\<close>

definition share_to_row :: "Share \<Rightarrow> share_row outcome" where
  "share_to_row s =
     (if 2 ^ 63 \<le> unat (sh_BlockHeight s)
      then Err (ErrText ''uint64 values with high bit set are not supported'')
      else Ok \<lparr>sr_poolid = sh_PoolID s, sr_blockheight = int (unat (sh_BlockHeight s)),
               sr_difficulty = sh_Difficulty s, sr_networkdifficulty = sh_NetworkDifficulty s,
               sr_miner = sh_Miner s, sr_worker = sh_Worker s, sr_useragent = sh_UserAgent s,
               sr_ipaddress = sh_IpAddress s, sr_source = '''', sr_created = pg_time (sh_Created s)\<rparr>)"

definition scan_share :: "share_row \<Rightarrow> Share" where
  "scan_share r =
     \<lparr>sh_PoolID = sr_poolid r, sh_BlockHeight = of_int (sr_blockheight r), sh_Miner = sr_miner r,
      sh_Worker = sr_worker r, sh_UserAgent = sr_useragent r, sh_Difficulty = sr_difficulty r,
      sh_NetworkDifficulty = sr_networkdifficulty r, sh_IpAddress = sr_ipaddress r,
      sh_Created = sr_created r\<rparr>"

text \<open>Begin, prepare the copy, one call per share, the call that ends the copy, close, commit. The
  rows are in the table from the commit on.\<close>

definition Share_InsertBatch :: "Share list \<Rightarrow> ('z db_scheme, unit) op" where
  "Share_InsertBatch shares =
     bind_op sql_call (\<lambda>_.
     bind_op sql_call (\<lambda>_.
     bind_op (map_op (\<lambda>share. bind_op sql_call (\<lambda>_. lift_op (share_to_row share))) shares) (\<lambda>rows.
     bind_op sql_call (\<lambda>_.
     bind_op sql_call (\<lambda>_.
     sql_exec (\<lambda>d. Ok (d\<lparr>db_shares := db_shares d @ rows\<rparr>)))))))"

definition GetSharesBefore :: "string \<Rightarrow> int \<Rightarrow> bool \<Rightarrow> int \<Rightarrow> ('z db_scheme, Share list) op" where
  "GetSharesBefore poolID before inclusive pageSize =
     bind_op sql_call (\<lambda>_.
     sql_query (\<lambda>d.
       bind_out (offset_fetch 0 pageSize
         (order_desc sr_created
           (filter (\<lambda>s. sr_poolid s = poolID
              \<and> (if inclusive then sr_created s \<le> pg_time before else sr_created s < pg_time before))
             (db_shares d))))
         (\<lambda>rows. Ok (map scan_share rows))))"

definition shares_between :: "string \<Rightarrow> int \<Rightarrow> int \<Rightarrow> 'z db_scheme \<Rightarrow> share_row list" where
  "shares_between poolID start end d =
     filter (\<lambda>s. sr_poolid s = poolID \<and> pg_time start < sr_created s \<and> sr_created s < pg_time end)
       (db_shares d)"

text \<open>The argument \<open>inclusive\<close> is not used.\<close>

definition CountSharesBefore :: "string \<Rightarrow> int \<Rightarrow> bool \<Rightarrow> ('z db_scheme, nat) op" where
  "CountSharesBefore poolID before inclusive =
     bind_op sql_call (\<lambda>_.
     sql_query (\<lambda>d. Ok (length (filter (\<lambda>s. sr_poolid s = poolID \<and> sr_created s < pg_time before)
       (db_shares d)))))"

definition CountSharesByMiner :: "string \<Rightarrow> string \<Rightarrow> ('z db_scheme, nat) op" where
  "CountSharesByMiner poolID minerAddress =
     bind_op sql_call (\<lambda>_.
     sql_query (\<lambda>d. Ok (length (filter (\<lambda>s. sr_poolid s = poolID \<and> sr_miner s = minerAddress)
       (db_shares d)))))"

definition GetEffortBetweenCreated :: "string \<Rightarrow> flt \<Rightarrow> int \<Rightarrow> int \<Rightarrow> ('z db_scheme, flt) op" where
  "GetEffortBetweenCreated poolID shareConst start end =
     bind_op sql_call (\<lambda>_.
     sql_query (\<lambda>d.
       bind_out (traverse (\<lambda>s. bind_out (pg_mul (sr_difficulty s) shareConst)
                                 (\<lambda>x. pg_div x (sr_networkdifficulty s)))
                   (shares_between poolID start end d)) (\<lambda>xs.
       bind_out (pg_sum xs) (scan_not_null ''sum''))))"

definition DeleteSharesByMiner :: "string \<Rightarrow> string \<Rightarrow> ('z db_scheme, unit) op" where
  "DeleteSharesByMiner poolID minerAddress =
     bind_op sql_call (\<lambda>_.
     sql_exec (\<lambda>d. Ok (d\<lparr>db_shares :=
       filter (\<lambda>s. \<not> (sr_poolid s = poolID \<and> sr_miner s = minerAddress)) (db_shares d)\<rparr>)))"

definition DeleteSharesBefore :: "string \<Rightarrow> int \<Rightarrow> ('z db_scheme, unit) op" where
  "DeleteSharesBefore poolID before =
     bind_op sql_call (\<lambda>_.
     sql_exec (\<lambda>d. Ok (d\<lparr>db_shares :=
       filter (\<lambda>s. \<not> (sr_poolid s = poolID \<and> sr_created s < pg_time before)) (db_shares d)\<rparr>)))"

definition GetAccumulatedShareDifficultyBetween :: "string \<Rightarrow> int \<Rightarrow> int \<Rightarrow> ('z db_scheme, flt) op" where
  "GetAccumulatedShareDifficultyBetween poolID start end =
     bind_op sql_call (\<lambda>_.
     sql_query (\<lambda>d.
       bind_out (pg_sum (map sr_difficulty (shares_between poolID start end d))) (scan_not_null ''sum'')))"

definition GetEffectiveAccumulatedShareDifficultyBetween ::
    "string \<Rightarrow> int \<Rightarrow> int \<Rightarrow> ('z db_scheme, flt) op" where
  "GetEffectiveAccumulatedShareDifficultyBetween poolID start end =
     bind_op sql_call (\<lambda>_.
     sql_query (\<lambda>d.
       bind_out (traverse (\<lambda>s. pg_div (sr_difficulty s) (sr_networkdifficulty s))
                   (shares_between poolID start end d)) (\<lambda>xs.
       bind_out (pg_sum xs) (\<lambda>sum. Ok (case sum of None \<Rightarrow> 0 | Some x \<Rightarrow> x)))))"

section \<open>Accumulated work per worker\<close>

record MinerWorkerHashAccumulation =
  ha_Miner :: string
  ha_Worker :: string
  ha_SumDifficulty :: flt
  ha_ShareCount :: nat
  ha_FirstShare :: int
  ha_LastShare :: int

definition group_by_miner_step ::
    "MinerWorkerHashAccumulation \<Rightarrow> (string \<times> MinerWorkerHashAccumulation list) list
     \<Rightarrow> (string \<times> MinerWorkerHashAccumulation list) list" where
  "group_by_miner_step summary miners =
     (let miner = (case map_of miners (ha_Miner summary) of None \<Rightarrow> [] | Some collection \<Rightarrow> collection)
      in AList.update (ha_Miner summary)
           (miner @ [\<lparr>ha_Miner = ha_Miner summary, ha_Worker = ha_Worker summary,
              ha_SumDifficulty = ha_SumDifficulty summary, ha_ShareCount = ha_ShareCount summary,
              ha_FirstShare = ha_FirstShare summary, ha_LastShare = ha_LastShare summary\<rparr>]) miners)"

definition GroupByMiner ::
    "MinerWorkerHashAccumulation list \<Rightarrow> (string \<times> MinerWorkerHashAccumulation list) list" where
  "GroupByMiner results = fold group_by_miner_step results []"

text \<open>One group per miner and worker with shares in the window.\<close>

definition accumulate_group :: "share_row list \<Rightarrow> string \<times> string \<Rightarrow> MinerWorkerHashAccumulation outcome" where
  "accumulate_group rows k =
     (let g = filter (\<lambda>s. (sr_miner s, sr_worker s) = k) rows in
      bind_out (bind_out (pg_sum (map sr_difficulty g)) (scan_not_null ''sum'')) (\<lambda>sum.
        Ok \<lparr>ha_Miner = fst k, ha_Worker = snd k, ha_SumDifficulty = sum, ha_ShareCount = length g,
            ha_FirstShare = Min (set (map sr_created g)), ha_LastShare = Max (set (map sr_created g))\<rparr>))"

definition GetWorkerHashAccumulationBetween ::
    "string \<Rightarrow> int \<Rightarrow> int \<Rightarrow> ('z db_scheme, MinerWorkerHashAccumulation list) op" where
  "GetWorkerHashAccumulationBetween poolID start end =
     bind_op sql_call (\<lambda>_.
     sql_query (\<lambda>d.
       let rows = filter (\<lambda>s. sr_poolid s = poolID \<and> pg_time start \<le> sr_created s
                    \<and> sr_created s \<le> pg_time end) (db_shares d)
       in traverse (accumulate_group rows) (remdups (map (\<lambda>s. (sr_miner s, sr_worker s)) rows))))"

text \<open>Two queries the server refuses to prepare: the first is glued together with
  \<open>fmt.Sprint\<close>, so its \<open>%v\<close> stays in the text, the second names an alias no table has.\<close>

definition GetAccumulatedUserAgentShareDifficultyBetween ::
    "string \<Rightarrow> int \<Rightarrow> int \<Rightarrow> bool \<Rightarrow> ('z db_scheme, (string \<times> flt) list) op" where
  "GetAccumulatedUserAgentShareDifficultyBetween poolID start end byVersion =
     bind_op sql_call (\<lambda>_. fail_op (ErrRemote ''syntax error''))"

definition Share_GetRecentyUsedIpAddresses :: "string \<Rightarrow> ('z db_scheme, string list) op" where
  "Share_GetRecentyUsedIpAddresses poolID =
     bind_op sql_call (\<lambda>_. fail_op (ErrRemote ''missing FROM-clause entry for table s''))"

section \<open>Facts\<close>

lemma map_op_call_Ok:
  "map_op (\<lambda>x. bind_op sql_call (\<lambda>_. lift_op (g x))) xs d = (d', Ok ys) \<Longrightarrow> traverse g xs = Ok ys"
proof (induction xs arbitrary: d ys)
  case (Cons x xs)
  then show ?case by (auto simp: op_Ok lift_op_def)
qed (simp add: return_op_def)

lemma order_desc_sorted: "sorted_wrt (\<lambda>a b. key b \<le> key a) (order_desc key rows)"
proof -
  have "sorted (map (\<lambda>r. - key r) (order_desc key rows))" by (simp add: order_desc_def)
  then show ?thesis by (simp add: sorted_map)
qed

lemma set_order_desc [simp]: "set (order_desc key rows) = set rows"
  and mset_order_desc [simp]: "mset (order_desc key rows) = mset rows"
  and length_order_desc [simp]: "length (order_desc key rows) = length rows"
  by (simp_all add: order_desc_def)

section \<open>Properties\<close>

lemma InsertBatch_outcome:
  fixes d :: "'z db_scheme"
  shows "\<exists>fs. case Share_InsertBatch shares d of
     (d', Ok _) \<Rightarrow> (\<exists>rows. traverse share_to_row shares = Ok rows
        \<and> d' = d\<lparr>db_shares := db_shares d @ rows, db_faults := fs\<rparr>)
   | (d', Err e) \<Rightarrow> d' = d\<lparr>db_faults := fs\<rparr>
   | (d', Panic p) \<Rightarrow> False"
proof -
  let ?row = "\<lambda>share. bind_op sql_call (\<lambda>_. lift_op (share_to_row share))"
  define pre :: "('z db_scheme, share_row list) op" where "pre = bind_op sql_call (\<lambda>_. bind_op sql_call (\<lambda>_.
    bind_op (map_op ?row shares) (\<lambda>rows. bind_op sql_call (\<lambda>_. bind_op sql_call (\<lambda>_.
    bind_op sql_call (\<lambda>_. return_op rows))))))"
  have "reads_only pre"
    unfolding pre_def by (intro reads) (auto simp: share_to_row_def)
  moreover obtain d1 r where pre: "pre d = (d1, r)" by (cases "pre d")
  ultimately have d1: "d1 = d\<lparr>db_faults := db_faults d1\<rparr>" "\<not> is_panic r"
    using reads_only_keeps by blast+
  have "Share_InsertBatch shares = bind_op pre (\<lambda>rows d. (d\<lparr>db_shares := db_shares d @ rows\<rparr>, Ok ()))"
    unfolding pre_def Share_InsertBatch_def sql_exec_def bind_op_assoc bind_op_return by simp
  then have run: "Share_InsertBatch shares d = (case r of
      Ok rows \<Rightarrow> (d1\<lparr>db_shares := db_shares d1 @ rows\<rparr>, Ok ()) | Err e \<Rightarrow> (d1, Err e) | Panic p \<Rightarrow> (d1, Panic p))"
    by (simp add: bind_op_def pre)
  show ?thesis
  proof (cases r)
    case (Ok rows)
    have "traverse share_to_row shares = Ok rows"
      using pre unfolding pre_def by (auto simp: Ok op_Ok dest!: map_op_call_Ok)
    moreover have "d1\<lparr>db_shares := db_shares d1 @ rows\<rparr>
        = d\<lparr>db_shares := db_shares d @ rows, db_faults := db_faults d1\<rparr>"
      by (subst (1 2) d1(1)) simp
    ultimately show ?thesis using run Ok by (intro exI [of _ "db_faults d1"]) simp
  next
    case (Err e)
    then show ?thesis using run d1 by (intro exI [of _ "db_faults d1"]) simp
  next
    case (Panic p)
    then show ?thesis using d1 by simp
  qed
qed

text \<open>
  A batch of shares is written as a whole or not at all: whatever statements fail, an
  error leaves the shares table as it was, and success appends exactly one row per share, in
  order; no other table changes.
\<close>

theorem InsertBatch_atomic:
  fixes d :: "'z db_scheme"
  shows "\<exists>fs. case Share_InsertBatch shares d of
     (d', Ok _) \<Rightarrow> (\<exists>rows. traverse share_to_row shares = Ok rows
        \<and> d' = d\<lparr>db_shares := db_shares d @ rows, db_faults := fs\<rparr>)
   | (d', Err e) \<Rightarrow> d' = d\<lparr>db_faults := fs\<rparr>
   | (d', Panic p) \<Rightarrow> False"
  by (rule InsertBatch_outcome)

text \<open>
  A page of shares is the newest part of what was asked for: it and the rest of the
  matching rows together are exactly the matching rows, in descending order of their time, and
  the page is full unless there is no rest.
\<close>

theorem GetSharesBefore_page:
  assumes "no_faults d" "0 \<le> pageSize"
  shows "\<exists>rows rest. snd (GetSharesBefore poolID before inclusive pageSize d) = Ok (map scan_share rows)
    \<and> mset (rows @ rest) = mset (filter (\<lambda>s. sr_poolid s = poolID
        \<and> (if inclusive then sr_created s \<le> pg_time before else sr_created s < pg_time before)) (db_shares d))
    \<and> sorted_wrt (\<lambda>a b. sr_created b \<le> sr_created a) (rows @ rest)
    \<and> length rows \<le> nat pageSize \<and> (rest = [] \<or> length rows = nat pageSize)"
proof (intro exI conjI)
  define matching where "matching = filter (\<lambda>s. sr_poolid s = poolID
    \<and> (if inclusive then sr_created s \<le> pg_time before else sr_created s < pg_time before)) (db_shares d)"
  let ?sorted = "order_desc sr_created matching"
  have "no_faults (d\<lparr>db_faults := tl (db_faults d)\<rparr>)" using assms(1) by simp
  then show "snd (GetSharesBefore poolID before inclusive pageSize d)
      = Ok (map scan_share (take (nat pageSize) ?sorted))"
    using assms(1,2)
    by (simp add: GetSharesBefore_def bind_op_def sql_call_ok sql_query_ok offset_fetch_def matching_def)
  have r: "take (nat pageSize) ?sorted @ drop (nat pageSize) ?sorted = ?sorted"
    by (rule append_take_drop_id)
  show "mset (take (nat pageSize) ?sorted @ drop (nat pageSize) ?sorted) = mset (filter (\<lambda>s. sr_poolid s = poolID
        \<and> (if inclusive then sr_created s \<le> pg_time before else sr_created s < pg_time before)) (db_shares d))"
    unfolding r mset_order_desc unfolding matching_def ..
  show "sorted_wrt (\<lambda>a b. sr_created b \<le> sr_created a)
      (take (nat pageSize) ?sorted @ drop (nat pageSize) ?sorted)"
    by (simp only: r order_desc_sorted)
qed (auto simp: min_def)

definition example_share_row :: "string \<Rightarrow> int \<Rightarrow> share_row" where
  "example_share_row m t = \<lparr>sr_poolid = ''p'', sr_blockheight = 9, sr_difficulty = Fin 2,
     sr_networkdifficulty = Fin 4, sr_miner = m, sr_worker = ''rig'', sr_useragent = '''',
     sr_ipaddress = ''::1'', sr_source = '''', sr_created = t\<rparr>"

theorem GetSharesBefore_page_witness:
  "\<exists>rows rest. snd (GetSharesBefore ''p'' 5000 True 1
      (example_db\<lparr>db_shares := [example_share_row ''a'' 1000, example_share_row ''b'' 3000]\<rparr>))
      = Ok (map scan_share rows)
    \<and> mset (rows @ rest) = {#example_share_row ''a'' 1000, example_share_row ''b'' 3000#} \<and> length rows \<le> 1"
proof -
  let ?d = "example_db\<lparr>db_shares := [example_share_row ''a'' 1000, example_share_row ''b'' 3000]\<rparr>"
  have nf: "no_faults ?d" using example_db_consistent(2) by (simp add: no_faults_def)
  have "pg_time 5000 = 5000" using round_even_of_int [of 5] by (simp add: pg_time_def)
  then have m: "filter (\<lambda>s. sr_poolid s = ''p''
      \<and> (if True then sr_created s \<le> pg_time 5000 else sr_created s < pg_time 5000)) (db_shares ?d) = db_shares ?d"
    by (simp add: example_share_row_def)
  obtain rows rest where "snd (GetSharesBefore ''p'' 5000 True 1 ?d) = Ok (map scan_share rows)"
    "mset (rows @ rest) = mset (db_shares ?d)" "length rows \<le> nat 1"
    using GetSharesBefore_page [OF nf, where pageSize = 1 and poolID = "''p''" and inclusive = True and before = 5000] unfolding m by auto
  then show ?thesis by auto
qed

end
