(* ===== verification/Blocks.thy ===== *)
theory Blocks
  imports Shares
begin

text \<open>
  The found blocks, \<open>src/persistence/found.go\<close>, and the payments,
  \<open>src/persistence/payment.go\<close>, as tables. Statements that PostgreSQL or the driver always
  refuses, because of their text or of their arguments, are modelled as the error they end
  in. The serial numbers of all tables come from one counter.
\<close>

section \<open>src/persistence/found.go\<close>

definition StatusPending :: string where "StatusPending = ''pending''"
definition StatusOrphaned :: string where "StatusOrphaned = ''orphaned''"
definition StatusConfirmed :: string where "StatusConfirmed = ''confirmed''"

record Found =
  fd_ID :: nat
  fd_PoolID :: string
  fd_Chain :: string
  fd_BlockHeight :: u64
  fd_NetworkDifficulty :: flt
  fd_Status :: string
  fd_Type :: string
  fd_ConfirmationProgress :: flt
  fd_Effort :: flt
  fd_TransactionConfirmationData :: string
  fd_Miner :: string
  fd_Reward :: flt
  fd_Source :: string
  fd_Hash :: string
  fd_Created :: int

definition zero_Found :: Found where
  "zero_Found = \<lparr>fd_ID = 0, fd_PoolID = '''', fd_Chain = '''', fd_BlockHeight = 0,
     fd_NetworkDifficulty = 0, fd_Status = '''', fd_Type = '''', fd_ConfirmationProgress = 0,
     fd_Effort = 0, fd_TransactionConfirmationData = '''', fd_Miner = '''', fd_Reward = 0,
     fd_Source = '''', fd_Hash = '''', fd_Created = 0\<rparr>"

definition GetConfirmed :: "Found list \<Rightarrow> Found list" where
  "GetConfirmed b = filter (\<lambda>block. fd_Status block = StatusConfirmed) b"

definition roundToThreeDigits :: "flt \<Rightarrow> flt" where
  "roundToThreeDigits x = round_flt (x * Fin 1000) / Fin 1000"

definition block_key :: "block_row \<Rightarrow> string \<times> string \<times> int" where
  "block_key r = (kr_poolid r, kr_chain r, kr_blockheight r)"

text \<open>The table allows one block per pool, chain and height.\<close>

definition Found_Insert :: "Found \<Rightarrow> ('z db_scheme, unit) op" where
  "Found_Insert block =
     (let block = block\<lparr>fd_NetworkDifficulty := roundToThreeDigits (fd_NetworkDifficulty block)\<rparr> in
      sql_exec (\<lambda>d.
        if 2 ^ 63 \<le> unat (fd_BlockHeight block)
        then Err (ErrText ''uint64 values with high bit set are not supported'')
        else bind_out (store_numeric (numeric_of (db_dec d) (fd_Reward block))) (\<lambda>reward.
        let row = \<lparr>kr_id = db_serial d, kr_poolid = fd_PoolID block, kr_type = fd_Type block,
              kr_chain = fd_Chain block, kr_blockheight = int (unat (fd_BlockHeight block)),
              kr_networkdifficulty = fd_NetworkDifficulty block, kr_status = fd_Status block,
              kr_confirmationprogress = fd_ConfirmationProgress block, kr_effort = fd_Effort block,
              kr_transactionconfirmationdata = fd_TransactionConfirmationData block,
              kr_miner = fd_Miner block, kr_reward = reward, kr_source = fd_Source block,
              kr_hash = fd_Hash block, kr_created = pg_time (fd_Created block)\<rparr>
        in if block_key row \<in> set (map block_key (db_blocks d))
           then Err (ErrRemote ''duplicate key value violates unique constraint'')
           else Ok (d\<lparr>db_blocks := db_blocks d @ [row], db_serial := Suc (db_serial d)\<rparr>))))"

definition block_update :: "Found \<Rightarrow> numeric \<Rightarrow> block_row \<Rightarrow> block_row" where
  "block_update block reward r =
     (if kr_id r = fd_ID block
      then r\<lparr>kr_blockheight := int (unat (fd_BlockHeight block)), kr_status := fd_Status block,
             kr_type := fd_Type block, kr_reward := reward, kr_effort := fd_Effort block,
             kr_confirmationprogress := fd_ConfirmationProgress block, kr_hash := fd_Hash block\<rparr>
      else r)"

text \<open>An update of no row is an error of the caller, after the statement.\<close>

definition Found_Update :: "Found \<Rightarrow> ('z db_scheme, unit) op" where
  "Found_Update block =
     bind_op sql_call (\<lambda>_.
     bind_op (\<lambda>d. (d, Ok (length (filter (\<lambda>r. kr_id r = fd_ID block) (db_blocks d))))) (\<lambda>count.
     bind_op (sql_exec (\<lambda>d.
        if 2 ^ 63 \<le> unat (fd_BlockHeight block)
        then Err (ErrText ''uint64 values with high bit set are not supported'')
        else bind_out (store_numeric (numeric_of (db_dec d) (fd_Reward block))) (\<lambda>reward.
        let rows = map (block_update block reward) (db_blocks d)
        in if distinct (map block_key rows) then Ok (d\<lparr>db_blocks := rows\<rparr>)
           else Err (ErrRemote ''duplicate key value violates unique constraint'')))) (\<lambda>_.
     if count < 1
     then fail_op (ErrText (''No update of block: '' @ show_dec (unat (fd_BlockHeight block))))
     else return_op ())))"

definition Found_Delete :: "Found \<Rightarrow> ('z db_scheme, unit) op" where
  "Found_Delete block =
     bind_op sql_call (\<lambda>_.
     sql_exec (\<lambda>d. Ok (d\<lparr>db_blocks := filter (\<lambda>r. kr_id r \<noteq> fd_ID block) (db_blocks d)\<rparr>)))"

definition scan_block :: "block_row \<Rightarrow> Found" where
  "scan_block r =
     \<lparr>fd_ID = kr_id r, fd_PoolID = kr_poolid r, fd_Chain = kr_chain r,
      fd_BlockHeight = of_int (kr_blockheight r), fd_NetworkDifficulty = kr_networkdifficulty r,
      fd_Status = kr_status r, fd_Type = kr_type r,
      fd_ConfirmationProgress = to_flt32 (kr_confirmationprogress r), fd_Effort = kr_effort r,
      fd_TransactionConfirmationData = kr_transactionconfirmationdata r, fd_Miner = kr_miner r,
      fd_Reward = scan_float64 (kr_reward r), fd_Source = kr_source r, fd_Hash = kr_hash r,
      fd_Created = kr_created r\<rparr>"

definition PageBlocks ::
    "string \<Rightarrow> string \<Rightarrow> string list \<Rightarrow> int \<Rightarrow> int \<Rightarrow> ('z db_scheme, Found list) op" where
  "PageBlocks poolID chain blockStatus page pageSize =
     bind_op sql_call (\<lambda>_.
     sql_query (\<lambda>d.
       bind_out (offset_fetch page pageSize
         (order_desc kr_created
           (filter (\<lambda>r. kr_poolid r = poolID \<and> kr_chain r = chain \<and> kr_status r \<in> set blockStatus)
             (db_blocks d))))
         (\<lambda>rows. Ok (map scan_block rows))))"

text \<open>A number is no array of statuses.\<close>

definition PageBlocksAcrossAllPools :: "u64 \<Rightarrow> int \<Rightarrow> int \<Rightarrow> ('z db_scheme, Found list) op" where
  "PageBlocksAcrossAllPools blockStatus page pageSize =
     bind_op sql_call (\<lambda>_.
     bind_op sql_call (\<lambda>_. fail_op (ErrRemote ''malformed array literal'')))"

definition PendingBlocksForPool :: "string \<Rightarrow> ('z db_scheme, Found list) op" where
  "PendingBlocksForPool poolID =
     bind_op sql_call (\<lambda>_.
     sql_query (\<lambda>d. Ok (map scan_block
       (filter (\<lambda>r. kr_poolid r = poolID \<and> kr_status r = StatusPending) (db_blocks d)))))"

text \<open>\<open>BlockBefore\<close> does not select the id and the chain, which stay at their zero values.\<close>

definition scan_found :: "block_row \<Rightarrow> Found" where
  "scan_found r = (scan_block r)\<lparr>fd_ID := 0, fd_Chain := ''''\<rparr>"

definition BlockBefore :: "string \<Rightarrow> string list \<Rightarrow> int \<Rightarrow> ('z db_scheme, Found option) op" where
  "BlockBefore poolID blockStatus before =
     bind_op sql_call (\<lambda>_.
     sql_query (\<lambda>d.
       Ok (case order_desc kr_created
              (filter (\<lambda>r. kr_poolid r = poolID \<and> kr_status r \<in> set blockStatus
                 \<and> kr_created r < pg_time before) (db_blocks d)) of
             [] \<Rightarrow> None | r # _ \<Rightarrow> Some (scan_found r))))"

text \<open>One argument is given to a query with two parameters.\<close>

definition BlockByHeight :: "string \<Rightarrow> u64 \<Rightarrow> ('z db_scheme, Found option) op" where
  "BlockByHeight poolID height =
     bind_op sql_call (\<lambda>_. fail_op (ErrText ''sql: expected 2 arguments, got 1''))"

definition PoolBlockCount :: "string \<Rightarrow> ('z db_scheme, nat) op" where
  "PoolBlockCount poolID =
     bind_op sql_call (\<lambda>_.
     sql_query (\<lambda>d. Ok (length (filter (\<lambda>r. kr_poolid r = poolID) (db_blocks d)))))"

definition PoolBlocksPerHour :: "string \<Rightarrow> ('z db_scheme, nat) op" where
  "PoolBlocksPerHour poolID =
     bind_op sql_call (\<lambda>_.
     sql_query (\<lambda>d. Ok (length (filter (\<lambda>r. kr_poolid r = poolID
        \<and> kr_created r \<ge> pg_time (db_now d) - 3600 * 10 ^ 9) (db_blocks d)))))"

definition sql_ErrNoRows :: go_error where "sql_ErrNoRows = ErrText ''sql: no rows in result set''"

definition PoolLastBlockTime :: "string \<Rightarrow> ('z db_scheme, int) op" where
  "PoolLastBlockTime poolID =
     bind_op sql_call (\<lambda>_.
     sql_query (\<lambda>d.
       case order_desc kr_created (filter (\<lambda>r. kr_poolid r = poolID) (db_blocks d)) of
         [] \<Rightarrow> Err sql_ErrNoRows | r # _ \<Rightarrow> Ok (kr_created r)))"

section \<open>src/persistence/payment.go\<close>

record Payment =
  pay_ID :: nat
  pay_PoolID :: string
  pay_Chain :: string
  pay_Address :: string
  pay_Amount :: flt
  pay_TransactionConfirmationData :: string
  pay_Created :: int

definition Payment_Insert :: "Payment \<Rightarrow> ('z db_scheme, unit) op" where
  "Payment_Insert payment =
     bind_op sql_call (\<lambda>_.
     sql_exec (\<lambda>d.
       bind_out (store_numeric (numeric_of (db_dec d) (pay_Amount payment))) (\<lambda>amount.
       Ok (d\<lparr>db_payments := db_payments d @
              [\<lparr>pr_id = db_serial d, pr_poolid = pay_PoolID payment, pr_chain = pay_Chain payment,
                pr_address = pay_Address payment, pr_amount = amount,
                pr_transactionconfirmationdata = pay_TransactionConfirmationData payment,
                pr_created = pg_time (pay_Created payment)\<rparr>],
             db_serial := Suc (db_serial d)\<rparr>))))"

text \<open>The copy names a column where the table belongs; there is no table \<open>poolid\<close>.\<close>

definition Payment_InsertBatch :: "Payment list \<Rightarrow> ('z db_scheme, unit) op" where
  "Payment_InsertBatch payments =
     bind_op sql_call (\<lambda>_.
     bind_op sql_call (\<lambda>_. fail_op (ErrRemote ''relation poolid does not exist'')))"

definition scan_payment :: "payment_row \<Rightarrow> Payment" where
  "scan_payment r =
     \<lparr>pay_ID = 0, pay_PoolID = pr_poolid r, pay_Chain = pr_chain r, pay_Address = pr_address r,
      pay_Amount = scan_float64 (pr_amount r),
      pay_TransactionConfirmationData = pr_transactionconfirmationdata r, pay_Created = pr_created r\<rparr>"

definition miner_payments :: "string \<Rightarrow> string \<Rightarrow> 'z db_scheme \<Rightarrow> payment_row list" where
  "miner_payments poolID miner d =
     filter (\<lambda>p. pr_poolid p = poolID \<and> (miner \<noteq> '''' \<longrightarrow> pr_address p = miner)) (db_payments d)"

definition PagePayments :: "string \<Rightarrow> string \<Rightarrow> int \<Rightarrow> int \<Rightarrow> ('z db_scheme, Payment list) op" where
  "PagePayments poolID miner page pageSize =
     bind_op sql_call (\<lambda>_.
     sql_query (\<lambda>d.
       bind_out (offset_fetch page pageSize (order_desc pr_created (miner_payments poolID miner d)))
         (\<lambda>rows. Ok (map scan_payment rows))))"

text \<open>Two columns are selected and six scanned: any row is an error. A day is a day of UTC.\<close>

definition day_of :: "int \<Rightarrow> int" where "day_of t = t div (24 * 3600 * 10 ^ 9)"

definition PageMinerPaymentsByDay :: "string \<Rightarrow> string \<Rightarrow> int \<Rightarrow> int \<Rightarrow> ('z db_scheme, Payment list) op" where
  "PageMinerPaymentsByDay poolID miner page pageSize =
     bind_op sql_call (\<lambda>_.
     sql_query (\<lambda>d.
       bind_out (offset_fetch page pageSize
         (order_desc (\<lambda>t. t) (remdups (map (\<lambda>p. day_of (pr_created p)) (miner_payments poolID miner d)))))
         (\<lambda>days. if days = [] then Ok []
                 else Err (ErrText ''sql: expected 2 destination arguments in Scan, not 6''))))"

definition PaymentsCount :: "string \<Rightarrow> string \<Rightarrow> ('z db_scheme, nat) op" where
  "PaymentsCount poolID miner =
     bind_op sql_call (\<lambda>_. sql_query (\<lambda>d. Ok (length (miner_payments poolID miner d))))"

text \<open>The text has \<open>FROM GROUP BY\<close>.\<close>

definition MinerPaymentsByDayCount :: "string \<Rightarrow> string \<Rightarrow> ('z db_scheme, (string \<times> nat) list) op" where
  "MinerPaymentsByDayCount poolID miner =
     bind_op sql_call (\<lambda>_. fail_op (ErrRemote ''syntax error''))"

text \<open>The subquery takes the newest payment of the chain, of whatever miner. The rows of a failed
  query are nil, and that is looked at before the error: the error is lost.\<close>

definition MinerLastPayments :: "string \<Rightarrow> string \<Rightarrow> ('z db_scheme, (string \<times> Payment) list) op" where
  "MinerLastPayments poolID miner =
     bind_op (try_op (sql_query (\<lambda>d.
       Ok (filter (\<lambda>p. pr_poolid p = poolID \<and> pr_address p = miner
             \<and> (\<forall>b \<in> set (db_payments d).
                  pr_poolid b = pr_poolid p \<and> pr_chain b = pr_chain p \<longrightarrow> pr_created b \<le> pr_created p))
             (db_payments d))))) (\<lambda>r.
     case r of Inl e \<Rightarrow> return_op []
     | Inr rows \<Rightarrow>
        return_op (fold (\<lambda>r payments. AList.update (pr_chain r) (scan_payment r) payments) rows []))"

end
