(* ===== verification/Config.thy ===== *)
theory Config
  imports GoFloat
begin

text \<open>
  The configuration, \<open>src/config/config.go\<close>, as far as the code reads it: the fields decoded
  from the file, with Go maps as association lists. Reading the file and decoding its JSON are
  arguments of \<open>LoadConfig\<close>. Go ranges over a map in an arbitrary order:
  wherever that happens the order is an argument of the model, a function on the keys.
\<close>

section \<open>Go maps\<close>

definition range_map :: "('k list \<Rightarrow> 'k list) \<Rightarrow> ('k \<times> 'v) list \<Rightarrow> ('k \<times> 'v) list" where
  "range_map order m = map (\<lambda>k. (k, the (map_of m k))) (order (map fst m))"

definition permutes_keys :: "('k list \<Rightarrow> 'k list) \<Rightarrow> bool" where
  "permutes_keys order \<longleftrightarrow> (\<forall>ks. set (order ks) = set ks \<and> (distinct ks \<longrightarrow> distinct (order ks)))"

lemma range_map_keys: "map fst (range_map order m) = order (map fst m)"
  by (simp add: range_map_def comp_def)

lemma set_range_map:
  assumes "permutes_keys order" "distinct (map fst m)"
  shows "set (range_map order m) = set m"
proof -
  have "set (order (map fst m)) = fst ` set m" using assms(1) by (simp add: permutes_keys_def)
  then have "set (range_map order m) = (\<lambda>k. (k, the (map_of m k))) ` fst ` set m" by (simp add: range_map_def)
  also have "\<dots> = (\<lambda>p. (fst p, the (map_of m (fst p)))) ` set m" by (simp add: image_image)
  also have "\<dots> = (\<lambda>p. p) ` set m" using assms(2) by (intro image_cong) auto
  finally show ?thesis by simp
qed

lemma distinct_range_map:
  "permutes_keys order \<Longrightarrow> distinct (map fst m) \<Longrightarrow> distinct (map fst (range_map order m))"
  by (simp add: range_map_keys permutes_keys_def)

lemma range_map_pairs:
  assumes "set (order ks) \<subseteq> set ks"
  shows "range_map order (map (\<lambda>k. (k, f k)) ks) = map (\<lambda>k. (k, f k)) (order ks)"
proof -
  have "map_of (map (\<lambda>k. (k, f k)) ks) k = Some (f k)" if "k \<in> set ks" for k
    using that by (simp add: map_of_map_restrict)
  then show ?thesis using assms by (auto simp: range_map_def comp_def)
qed

lemma permutes_keys_examples: "permutes_keys (\<lambda>ks. ks)" "permutes_keys rev"
  by (simp_all add: permutes_keys_def)

section \<open>src/config/config.go\<close>

record coinNodeConfig =
  cn_Name :: string
  cn_RPC_URL :: string
  cn_RPC_Username :: string
  cn_RPC_Password :: string
  cn_Timeout :: string
  cn_NotifyURL :: string
  cn_RewardTo :: string

record recipient =
  rp_Address :: string
  rp_Percentage :: flt

record sqlConfig =
  sq_Host :: string
  sq_Port :: u64
  sq_User :: string
  sq_Password :: string
  sq_Database :: string
  sq_SSLMode :: string

record apiConfig =
  ac_Port :: string

record ChainPayouts =
  cp_Name :: string
  cp_RewardFrom :: string
  cp_MinerMinimumPayment :: flt
  cp_PoolRewardRecipients :: "recipient list"

record Config =
  cf_PoolName :: string
  cf_BlockSignature :: string
  cf_BlockchainNodes :: "(string \<times> coinNodeConfig list) list"
  cf_BlockChainOrder :: "string list"
  cf_PoolDifficulty :: flt
  cf_PayoutScheme :: string
  cf_PayoutChains :: "(string \<times> ChainPayouts) list"
  cf_ShareFlushInterval :: string
  cf_HashrateWindow :: string
  cf_PoolStatsInterval :: string
  cf_Port :: string
  cf_MaxConnections :: int
  cf_ConnectionTimeout :: string
  cf_Persister :: sqlConfig
  cf_API :: apiConfig
  cf_PayoutInterval :: string
  cf_AppStatsInterval :: string

definition GetPrimary :: "string list \<Rightarrow> string outcome" where
  "GetPrimary b = nth_out b 0"

definition GetAuxN :: "string list \<Rightarrow> nat \<Rightarrow> string" where
  "GetAuxN b n = (if length b < n + 1 then '''' else b ! n)"

text \<open>The check of \<open>LoadConfig\<close>.\<close>

definition check_config :: "Config \<Rightarrow> Config outcome" where
  "check_config c =
     (if length (cf_BlockchainNodes c) < 1 then Panic (PanicText ''You need to configure coin nodes'') else Ok c)"

text \<open>
  \<open>log.Fatal\<close> ends the program, as a panic of the main goroutine does. Opening and reading the
  file, and \<open>encoding/json\<close> on its bytes, are arguments.
\<close>

definition logFatalOnError :: "'a outcome \<Rightarrow> 'a outcome" where
  "logFatalOnError r = (case r of Err e \<Rightarrow> Panic (PanicError '''' e) | r \<Rightarrow> r)"

definition LoadConfig ::
    "(string \<Rightarrow> unit outcome) \<Rightarrow> (string \<Rightarrow> bytes outcome) \<Rightarrow> (bytes \<Rightarrow> Config outcome) \<Rightarrow> string \<Rightarrow> Config outcome" where
  "LoadConfig open_file read_all unmarshal fileName =
     bind_out (logFatalOnError (open_file fileName)) (\<lambda>_.
     bind_out (logFatalOnError (read_all fileName)) (\<lambda>fileBytes.
     bind_out (logFatalOnError (unmarshal fileBytes)) check_config))"

text \<open>A configuration the witnesses use.\<close>

definition example_persister :: sqlConfig where
  "example_persister = \<lparr>sq_Host = ''localhost'', sq_Port = 5432, sq_User = ''u'', sq_Password = ''p'',
     sq_Database = ''pool'', sq_SSLMode = ''disable''\<rparr>"

definition example_config :: "string list \<Rightarrow> Config" where
  "example_config order = \<lparr>cf_PoolName = ''p'', cf_BlockSignature = ''/pool/'', cf_BlockchainNodes = [],
     cf_BlockChainOrder = order, cf_PoolDifficulty = Fin 65536, cf_PayoutScheme = ''PROP'', cf_PayoutChains = [],
     cf_ShareFlushInterval = ''1s'', cf_HashrateWindow = ''1m'', cf_PoolStatsInterval = ''1m'',
     cf_Port = ''3333'', cf_MaxConnections = 100, cf_ConnectionTimeout = ''1m'',
     cf_Persister = example_persister, cf_API = \<lparr>ac_Port = ''8001''\<rparr>, cf_PayoutInterval = ''1h'', cf_AppStatsInterval = ''1h''\<rparr>"

end
