(* ===== verification/Stats.thy ===== *)
theory Stats
  imports Blocks Config "HOL-Library.Product_Lexorder"
begin

text \<open>
  Statistics of the pool and its miners: the tables \<open>minerstats\<close> and \<open>poolstats\<close>
  (\<open>src/persistence/schema/2-schema.sql\<close>), the service that fills them,
  \<open>src/persistence/stats.go\<close>, and the queries of \<open>miner.go\<close> and \<open>pool.go\<close>. The two tables
  extend the database. A duration is its number of nanoseconds; days and hours are those of
  UTC. \<open>AVG\<close> is the sum of its rows by their number: the variance the server computes beside
  it overflows only beyond \<open>10^150\<close> and is left out.
\<close>

section \<open>Tables\<close>

record minerstat_row =
  mt_poolid :: string
  mt_miner :: string
  mt_worker :: string
  mt_hashrate :: flt
  mt_sharespersecond :: flt
  mt_created :: int

record poolstat_row =
  pt_poolid :: string
  pt_connectedminers :: int
  pt_connectedworkers :: int
  pt_poolhashrate :: flt
  pt_sharespersecond :: flt
  pt_networkhashrate :: flt
  pt_networkdifficulty :: flt
  pt_lastnetworkblocktime :: int
  pt_blockheight :: int
  pt_connectedpeers :: int
  pt_created :: int

record stats_db = db +
  db_minerstats :: "minerstat_row list"
  db_poolstats :: "poolstat_row list"

text \<open>A \<open>uint\<close> parameter for an integer column of the given width.\<close>

definition uint_param :: "nat \<Rightarrow> u64 \<Rightarrow> int outcome" where
  "uint_param width u =
     (if 2 ^ 63 \<le> unat u then Err (ErrText ''uint64 values with high bit set are not supported'')
      else if 2 ^ (width - 1) \<le> unat u then Err (ErrRemote ''value out of range for type integer'')
      else Ok (int (unat u)))"

text \<open>Descending order of a float column, in which NaN comes first.\<close>

fun desc_key :: "flt \<Rightarrow> nat \<times> rat" where
  "desc_key NaN = (0, 0)"
| "desc_key PInf = (1, 0)"
| "desc_key (Fin r) = (2, - r)"
| "desc_key NInf = (3, 0)"

definition pg_avg :: "flt list \<Rightarrow> flt outcome" where
  "pg_avg xs = bind_out (bind_out (pg_sum xs) (scan_not_null ''avg'')) (\<lambda>s. Ok (s / flt_of_nat (length xs)))"

fun sum_numeric :: "numeric list \<Rightarrow> numeric option" where
  "sum_numeric [] = None"
| "sum_numeric (x # xs) = Some (fold (\<lambda>y acc. add_numeric acc y) xs x)"

section \<open>Durations\<close>

definition go_quot :: "int \<Rightarrow> int \<Rightarrow> int" where
  "go_quot a b = (if 0 \<le> a then a div b else - ((- a) div b))"

definition second :: int where "second = 10 ^ 9"
definition minute :: int where "minute = 60 * second"
definition hour :: int where "hour = 60 * minute"

definition Seconds :: "int \<Rightarrow> flt" where
  "Seconds d = flt_of_int (go_quot d second) + flt_of_int (d - go_quot d second * second) / Fin (10 ^ 9)"

definition Minutes :: "int \<Rightarrow> flt" where
  "Minutes d = flt_of_int (go_quot d minute) + flt_of_int (d - go_quot d minute * minute) / Fin (60 * 10 ^ 9)"

text \<open>The difference of two times saturates.\<close>

definition time_Sub :: "int \<Rightarrow> int \<Rightarrow> int" where
  "time_Sub t u = max (- (2 ^ 63)) (min (2 ^ 63 - 1) (t - u))"

definition hour_of :: "int \<Rightarrow> int" where "hour_of t = t div hour * hour"

section \<open>src/persistence/pool.go\<close>

record PoolStat =
  ps_PoolID :: string
  ps_ConnectedMiners :: u64
  ps_ConnectedWorkers :: u64
  ps_PoolHashrate :: flt
  ps_NetworkHashrate :: flt
  ps_NetworkDifficulty :: flt
  ps_LastNetworkBlockTime :: int
  ps_BlockHeight :: u64
  ps_ConnectedPeers :: u64
  ps_SharesPerSecond :: flt
  ps_Created :: int

definition zero_PoolStat :: PoolStat where
  "zero_PoolStat = \<lparr>ps_PoolID = '''', ps_ConnectedMiners = 0, ps_ConnectedWorkers = 0, ps_PoolHashrate = 0,
     ps_NetworkHashrate = 0, ps_NetworkDifficulty = 0, ps_LastNetworkBlockTime = 0, ps_BlockHeight = 0,
     ps_ConnectedPeers = 0, ps_SharesPerSecond = 0, ps_Created = 0\<rparr>"

definition poolstat_to_row :: "PoolStat \<Rightarrow> poolstat_row outcome" where
  "poolstat_to_row stat =
     bind_out (uint_param 32 (ps_ConnectedMiners stat)) (\<lambda>miners.
     bind_out (uint_param 32 (ps_ConnectedWorkers stat)) (\<lambda>workers.
     bind_out (uint_param 64 (ps_BlockHeight stat)) (\<lambda>height.
     bind_out (uint_param 32 (ps_ConnectedPeers stat)) (\<lambda>peers.
       Ok \<lparr>pt_poolid = ps_PoolID stat, pt_connectedminers = miners, pt_connectedworkers = workers,
           pt_poolhashrate = ps_PoolHashrate stat, pt_sharespersecond = ps_SharesPerSecond stat,
           pt_networkhashrate = ps_NetworkHashrate stat, pt_networkdifficulty = ps_NetworkDifficulty stat,
           pt_lastnetworkblocktime = pg_time (ps_LastNetworkBlockTime stat), pt_blockheight = height,
           pt_connectedpeers = peers, pt_created = pg_time (ps_Created stat)\<rparr>))))"

definition InsertPoolStat :: "PoolStat \<Rightarrow> ('z stats_db_scheme, unit) op" where
  "InsertPoolStat stat =
     bind_op sql_call (\<lambda>_.
     sql_exec (\<lambda>d. bind_out (poolstat_to_row stat) (\<lambda>row. Ok (d\<lparr>db_poolstats := db_poolstats d @ [row]\<rparr>))))"

definition scan_poolstat :: "poolstat_row \<Rightarrow> PoolStat" where
  "scan_poolstat r = \<lparr>ps_PoolID = pt_poolid r, ps_ConnectedMiners = of_int (pt_connectedminers r),
     ps_ConnectedWorkers = of_int (pt_connectedworkers r), ps_PoolHashrate = pt_poolhashrate r,
     ps_NetworkHashrate = pt_networkhashrate r, ps_NetworkDifficulty = pt_networkdifficulty r,
     ps_LastNetworkBlockTime = pt_lastnetworkblocktime r, ps_BlockHeight = of_int (pt_blockheight r),
     ps_ConnectedPeers = of_int (pt_connectedpeers r), ps_SharesPerSecond = pt_sharespersecond r,
     ps_Created = pt_created r\<rparr>"

definition GetLastStat :: "string \<Rightarrow> ('z stats_db_scheme, PoolStat) op" where
  "GetLastStat poolID =
     bind_op sql_call (\<lambda>_.
     sql_query (\<lambda>d.
       case order_desc pt_created (filter (\<lambda>r. pt_poolid r = poolID) (db_poolstats d)) of
         [] \<Rightarrow> Err sql_ErrNoRows | r # _ \<Rightarrow> Ok (scan_poolstat r)))"

definition TotalPoolPayments :: "string \<Rightarrow> ('z db_scheme, flt) op" where
  "TotalPoolPayments poolID =
     bind_op sql_call (\<lambda>_.
     sql_query (\<lambda>d.
       bind_out (scan_not_null ''sum'' (sum_numeric (map pr_amount (filter (\<lambda>p. pr_poolid p = poolID) (db_payments d)))))
         (\<lambda>s. Ok (scan_float32 s))))"

text \<open>\<open>fmt.Sprint\<close> puts the interval after the text, which then orders by \<open>createdhour\<close> or
  \<open>createdday\<close>.\<close>

definition PoolPerformanceBetween ::
    "string \<Rightarrow> int \<Rightarrow> int \<Rightarrow> int \<Rightarrow> ('z db_scheme, PoolStat list) op" where
  "PoolPerformanceBetween poolID start end sampleInterval =
     (if sampleInterval = hour \<or> sampleInterval = hour * 24
      then bind_op sql_call (\<lambda>_. fail_op (ErrRemote ''column does not exist''))
      else fail_op (ErrText ''unknown sample interval''))"

type_synonym miner_hashrates = "(string \<times> (string \<times> flt) list) list"

definition Hashrates_GroupByMiner ::
    "(string list \<Rightarrow> string list) \<Rightarrow> miner_hashrates \<Rightarrow> (string \<times> flt list) list" where
  "Hashrates_GroupByMiner order results = map (\<lambda>(miner, workers). (miner, map snd (range_map order workers))) results"

fun pg_positive :: "flt \<Rightarrow> bool" where
  "pg_positive (Fin r) = (0 < r)"
| "pg_positive NInf = False"
| "pg_positive _ = True"

text \<open>The newest row of every miner and worker, if its hashrate is positive.\<close>

definition latest_stats :: "string \<Rightarrow> minerstat_row list \<Rightarrow> minerstat_row list" where
  "latest_stats poolID stats =
     (let rows = filter (\<lambda>r. mt_poolid r = poolID) stats;
          newest = (\<lambda>k. hd (order_desc mt_created (filter (\<lambda>r. (mt_miner r, mt_worker r) = k) rows)))
      in filter (\<lambda>r. pg_positive (mt_hashrate r)) (map newest (remdups (map (\<lambda>r. (mt_miner r, mt_worker r)) rows))))"

text \<open>The inner map is made for the empty name, before the row is read, and written for the row's.\<close>

fun hashrate_rows :: "miner_hashrates \<Rightarrow> minerstat_row list \<Rightarrow> miner_hashrates outcome" where
  "hashrate_rows rates [] = Ok rates"
| "hashrate_rows rates (r # rs) =
     (let rates = (if map_of rates '''' = None then AList.update '''' [] rates else rates) in
      case map_of rates (mt_miner r) of
        None \<Rightarrow> Panic (PanicText ''assignment to entry in nil map'')
      | Some workers \<Rightarrow>
          hashrate_rows (AList.update (mt_miner r) (AList.update (mt_worker r) (mt_hashrate r) workers) rates) rs)"

definition MinerWorkerHashrates :: "string \<Rightarrow> ('z stats_db_scheme, miner_hashrates) op" where
  "MinerWorkerHashrates poolID =
     bind_op sql_call (\<lambda>_. sql_query (\<lambda>d. hashrate_rows [] (latest_stats poolID (db_minerstats d))))"

definition DeletePoolStatsBefore :: "int \<Rightarrow> ('z stats_db_scheme, unit) op" where
  "DeletePoolStatsBefore date =
     bind_op sql_call (\<lambda>_.
     sql_exec (\<lambda>d. Ok (d\<lparr>db_poolstats := filter (\<lambda>r. \<not> pt_created r < pg_time date) (db_poolstats d)\<rparr>)))"

section \<open>src/persistence/miner.go: settings and statistics\<close>

record MinerSettings =
  ms_PoolID :: string
  ms_Miner :: string
  ms_PaymentThreshold :: flt
  ms_Created :: int
  ms_Updated :: int

definition GetSettings :: "string \<Rightarrow> string \<Rightarrow> ('z db_scheme, MinerSettings) op" where
  "GetSettings poolID miner =
     bind_op sql_call (\<lambda>_.
     sql_query (\<lambda>d.
       case find (\<lambda>r. tr_poolid r = poolID \<and> tr_address r = miner) (db_settings d) of
         None \<Rightarrow> Err sql_ErrNoRows
       | Some r \<Rightarrow> Ok \<lparr>ms_PoolID = tr_poolid r, ms_Miner = tr_address r,
             ms_PaymentThreshold = scan_float32 (tr_paymentthreshold r), ms_Created = tr_created r,
             ms_Updated = tr_updated r\<rparr>))"

text \<open>An insert that becomes an update when the pool has settings for the address.\<close>

definition UpdateSettings :: "MinerSettings \<Rightarrow> ('z db_scheme, unit) op" where
  "UpdateSettings settings =
     bind_op sql_call (\<lambda>_.
     sql_exec (\<lambda>d.
       bind_out (store_numeric (numeric_of (db_dec d) (ms_PaymentThreshold settings))) (\<lambda>threshold.
       let now = pg_time (db_now d);
           mine = (\<lambda>r. tr_poolid r = ms_PoolID settings \<and> tr_address r = ms_Miner settings)
       in if \<exists>r \<in> set (db_settings d). mine r
          then Ok (d\<lparr>db_settings := map (\<lambda>r. if mine r then r\<lparr>tr_paymentthreshold := threshold, tr_updated := now\<rparr> else r)
                      (db_settings d)\<rparr>)
          else Ok (d\<lparr>db_settings := db_settings d @
                      [\<lparr>tr_poolid = ms_PoolID settings, tr_address = ms_Miner settings,
                        tr_paymentthreshold = threshold, tr_created = now, tr_updated = now\<rparr>]\<rparr>))))"

record MinerStat =
  mn_PoolID :: string
  mn_Miner :: string
  mn_Worker :: string
  mn_Hashrate :: flt
  mn_SharesPerSecond :: flt
  mn_Created :: int

definition minerstat_to_row :: "MinerStat \<Rightarrow> minerstat_row" where
  "minerstat_to_row s = \<lparr>mt_poolid = mn_PoolID s, mt_miner = mn_Miner s, mt_worker = mn_Worker s,
     mt_hashrate = mn_Hashrate s, mt_sharespersecond = mn_SharesPerSecond s, mt_created = pg_time (mn_Created s)\<rparr>"

definition InsertMinerWorkerPerformanceStats :: "MinerStat \<Rightarrow> ('z stats_db_scheme, unit) op" where
  "InsertMinerWorkerPerformanceStats stat =
     bind_op sql_call (\<lambda>_.
     sql_exec (\<lambda>d. Ok (d\<lparr>db_minerstats := db_minerstats d @ [minerstat_to_row stat]\<rparr>)))"

definition scan_minerstat :: "minerstat_row \<Rightarrow> MinerStat" where
  "scan_minerstat r = \<lparr>mn_PoolID = mt_poolid r, mn_Miner = mt_miner r, mn_Worker = mt_worker r,
     mn_Hashrate = mt_hashrate r, mn_SharesPerSecond = mt_sharespersecond r, mn_Created = mt_created r\<rparr>"

definition GetMinerStatsByCreatedTime :: "string \<Rightarrow> string \<Rightarrow> int \<Rightarrow> ('z stats_db_scheme, MinerStat list) op" where
  "GetMinerStatsByCreatedTime poolID address created =
     bind_op sql_call (\<lambda>_.
     sql_query (\<lambda>d. Ok (map scan_minerstat
       (filter (\<lambda>r. mt_poolid r = poolID \<and> mt_miner r = address \<and> mt_created r = pg_time created) (db_minerstats d)))))"

definition GetMinerStatsBetweenTimes :: "string \<Rightarrow> string \<Rightarrow> int \<Rightarrow> int \<Rightarrow> ('z stats_db_scheme, MinerStat list) op" where
  "GetMinerStatsBetweenTimes poolID address start end = return_op []"

text \<open>The totals per miner and time, of them the highest hashrate per miner; the page is an offset of rows.\<close>

definition sum_stats :: "minerstat_row list \<Rightarrow> string \<times> int \<Rightarrow> (string \<times> flt \<times> flt) outcome" where
  "sum_stats rows k =
     (let g = filter (\<lambda>r. (mt_miner r, mt_created r) = k) rows in
      bind_out (bind_out (pg_sum (map mt_hashrate g)) (scan_not_null ''hashrate'')) (\<lambda>hashrate.
      bind_out (bind_out (pg_sum (map mt_sharespersecond g)) (scan_not_null ''sharespersecond'')) (\<lambda>shares.
        Ok (fst k, hashrate, shares))))"

definition PageMinerHashrates ::
    "string \<Rightarrow> int \<Rightarrow> int \<Rightarrow> int \<Rightarrow> ('z stats_db_scheme, (string \<times> MinerStat) list) op" where
  "PageMinerHashrates poolID from_time page pageSize =
     bind_op sql_call (\<lambda>_.
     sql_query (\<lambda>d.
       let rows = filter (\<lambda>r. mt_poolid r = poolID \<and> pg_time from_time \<le> mt_created r) (db_minerstats d) in
       bind_out (traverse (sum_stats rows) (remdups (map (\<lambda>r. (mt_miner r, mt_created r)) rows))) (\<lambda>totals.
       let by_rate = sort_key (\<lambda>(_, hashrate, _). desc_key hashrate);
           best = map (\<lambda>miner. hd (by_rate (filter (\<lambda>(m, _). m = miner) totals))) (remdups (map fst totals))
       in bind_out (offset_fetch page pageSize (by_rate best)) (\<lambda>rows.
          Ok (fold (\<lambda>(miner, hashrate, shares) rates. AList.update miner
                \<lparr>mn_PoolID = '''', mn_Miner = miner, mn_Worker = '''', mn_Hashrate = hashrate,
                 mn_SharesPerSecond = shares, mn_Created = 0\<rparr> rates) rows [])))))"

definition DeleteMinerStatsBefore :: "int \<Rightarrow> ('z stats_db_scheme, unit) op" where
  "DeleteMinerStatsBefore date =
     bind_op sql_call (\<lambda>_.
     sql_exec (\<lambda>d. Ok (d\<lparr>db_minerstats := filter (\<lambda>r. \<not> mt_created r < pg_time date) (db_minerstats d)\<rparr>)))"

definition Miner_GetRecentyUsedIpAddresses :: "string \<Rightarrow> string \<Rightarrow> ('z db_scheme, string list) op" where
  "Miner_GetRecentyUsedIpAddresses poolID minerAddress =
     bind_op sql_call (\<lambda>_.
     sql_query (\<lambda>d. Ok (remdups (map sr_ipaddress (take 100 (order_desc sr_created
       (filter (\<lambda>s. sr_poolid s = poolID \<and> sr_miner s = minerAddress) (db_shares d))))))))"

text \<open>A miner without statistics is the error of reading no row.\<close>

definition LastStatUpdate :: "string \<Rightarrow> string \<Rightarrow> ('z stats_db_scheme, int) op" where
  "LastStatUpdate poolID miner =
     bind_op sql_call (\<lambda>_.
     sql_query (\<lambda>d.
       case order_desc mt_created (filter (\<lambda>r. mt_poolid r = poolID \<and> mt_miner r = miner) (db_minerstats d)) of
         [] \<Rightarrow> Err sql_ErrNoRows | r # _ \<Rightarrow> Ok (mt_created r)))"

section \<open>src/persistence/miner.go: reports\<close>

record WorkerStat =
  wk_PoolID :: string
  wk_Miner :: string
  wk_Worker :: string
  wk_Hashrate :: flt
  wk_SharesPerSecond :: flt
  wk_Status :: string
  wk_LastSeen :: int
  wk_Rating :: int
  wk_Created :: int
  wk_Partition :: int

definition zero_WorkerStat :: WorkerStat where
  "zero_WorkerStat = \<lparr>wk_PoolID = '''', wk_Miner = '''', wk_Worker = '''', wk_Hashrate = 0, wk_SharesPerSecond = 0,
     wk_Status = '''', wk_LastSeen = 0, wk_Rating = 0, wk_Created = 0, wk_Partition = 0\<rparr>"

record WorkersReport =
  wr_PendingShares :: flt
  wr_Created :: int
  wr_Workers :: "(string \<times> WorkerStat) list"

definition newWorkerReport :: WorkersReport where
  "newWorkerReport = \<lparr>wr_PendingShares = 0, wr_Created = 0, wr_Workers = []\<rparr>"

definition zero_Payment :: Payment where
  "zero_Payment = \<lparr>pay_ID = 0, pay_PoolID = '''', pay_Chain = '''', pay_Address = '''', pay_Amount = 0,
     pay_TransactionConfirmationData = '''', pay_Created = 0\<rparr>"

record MinerAccount =
  ma_PendingBalance :: flt
  ma_TotalPaid :: flt
  ma_TodayPaid :: flt
  ma_LastPayment :: Payment

definition zero_MinerAccount :: MinerAccount where
  "zero_MinerAccount = \<lparr>ma_PendingBalance = 0, ma_TotalPaid = 0, ma_TodayPaid = 0, ma_LastPayment = zero_Payment\<rparr>"

type_synonym ChainAccounts = "(string \<times> MinerAccount) list"

definition GetPendingAmounts :: "ChainAccounts \<Rightarrow> (string \<times> flt) list" where
  "GetPendingAmounts accounts = map (\<lambda>(chain, account). (chain, ma_PendingBalance account)) accounts"

definition GetTotalPaidAmounts :: "ChainAccounts \<Rightarrow> (string \<times> flt) list" where
  "GetTotalPaidAmounts accounts = map (\<lambda>(chain, account). (chain, ma_TodayPaid account)) accounts"

record MinerReport =
  mr_Created :: int
  mr_ChainAccounts :: ChainAccounts
  mr_WorkersReport :: WorkersReport

definition zero_MinerReport :: MinerReport where
  "zero_MinerReport = \<lparr>mr_Created = 0, mr_ChainAccounts = [], mr_WorkersReport = newWorkerReport\<rparr>"

definition set_account :: "(MinerAccount \<Rightarrow> 'a \<Rightarrow> MinerAccount) \<Rightarrow> string \<times> 'a \<Rightarrow> ChainAccounts \<Rightarrow> ChainAccounts" where
  "set_account put = (\<lambda>(chain, x) accounts.
     AList.update chain (put (case map_of accounts chain of Some a \<Rightarrow> a | None \<Rightarrow> zero_MinerAccount) x) accounts)"

text \<open>What a miner was paid, by chain.\<close>

definition paid_by_chain :: "payment_row list \<Rightarrow> (string \<times> flt) list" where
  "paid_by_chain rows =
     map (\<lambda>chain. (chain, case sum_numeric (map pr_amount (filter (\<lambda>p. pr_chain p = chain) rows)) of
                        Some s \<Rightarrow> scan_float32 s | None \<Rightarrow> 0))
       (remdups (map pr_chain rows))"

definition miner_accounts :: "string \<Rightarrow> string \<Rightarrow> ('z db_scheme, ChainAccounts) op" where
  "miner_accounts poolID address =
     bind_op (sql_query (\<lambda>d. Ok (map (\<lambda>r. (br_chain r, scan_float32 (br_amount r)))
                (filter (\<lambda>r. br_poolid r = poolID \<and> br_address r = address) (db_balances d))))) (\<lambda>pending.
     bind_op (sql_query (\<lambda>d. Ok (paid_by_chain
                (filter (\<lambda>p. pr_poolid p = poolID \<and> pr_address p = address) (db_payments d))))) (\<lambda>total.
     bind_op (sql_query (\<lambda>d. Ok (paid_by_chain
                (filter (\<lambda>p. pr_poolid p = poolID \<and> pr_address p = address
                   \<and> day_of (pg_time (db_now d)) * (24 * hour) \<le> pr_created p) (db_payments d))))) (\<lambda>today.
     bind_op (MinerLastPayments poolID address) (\<lambda>last.
       return_op
         (fold (set_account (\<lambda>a p. a\<lparr>ma_LastPayment := p\<rparr>)) last
         (fold (set_account (\<lambda>a x. a\<lparr>ma_TodayPaid := x\<rparr>)) today
         (fold (set_account (\<lambda>a x. a\<lparr>ma_TotalPaid := x\<rparr>)) total
         (fold (set_account (\<lambda>a x. a\<lparr>ma_PendingBalance := x\<rparr>)) pending []))))))))"

definition minerStatWindow :: int where "minerStatWindow = 20"

text \<open>The newest statistics if they are not stale. The report of the workers is made anew, without
  the pending shares found before.\<close>

definition report_workers :: "string \<Rightarrow> string \<Rightarrow> MinerReport \<Rightarrow> ('z stats_db_scheme, MinerReport) op" where
  "report_workers poolID address report =
     bind_op (LastStatUpdate poolID address) (\<lambda>lastUpdate.
     bind_op (\<lambda>d. (d, Ok (db_now d))) (\<lambda>now.
     if lastUpdate < now - minerStatWindow * minute then return_op report
     else
     bind_op (GetMinerStatsByCreatedTime poolID address lastUpdate) (\<lambda>stats.
       return_op (report\<lparr>mr_Created := lastUpdate,
         mr_WorkersReport := newWorkerReport\<lparr>wr_Workers :=
           fold (\<lambda>stat. AList.update (mn_Worker stat)
             (zero_WorkerStat\<lparr>wk_Worker := mn_Worker stat, wk_Hashrate := mn_Hashrate stat,
                wk_SharesPerSecond := mn_SharesPerSecond stat\<rparr>)) stats []\<rparr>\<rparr>))))"

text \<open>The report and the error; an error of the first query comes with the empty report, one of the
  others without.\<close>

definition GetMinerStatsReport ::
    "string \<Rightarrow> string \<Rightarrow> ('z stats_db_scheme, MinerReport option \<times> go_error option) op" where
  "GetMinerStatsReport poolID address =
     bind_op (try_op (sql_query (\<lambda>d. bind_out (pg_sum (map sr_difficulty
        (filter (\<lambda>s. sr_poolid s = poolID \<and> sr_miner s = address) (db_shares d)))) (scan_not_null ''sum'')))) (\<lambda>r.
     case r of
       Inl err \<Rightarrow> return_op (Some zero_MinerReport, Some err)
     | Inr pendingShares \<Rightarrow>
         bind_op (try_op (bind_op (miner_accounts poolID address) (\<lambda>accounts.
           report_workers poolID address
             (zero_MinerReport\<lparr>mr_ChainAccounts := accounts,
                mr_WorkersReport := newWorkerReport\<lparr>wr_PendingShares := pendingShares\<rparr>\<rparr>)))) (\<lambda>r.
         case r of Inl err \<Rightarrow> return_op (None, Some err) | Inr report \<Rightarrow> return_op (Some report, None)))"

record MinerAverage =
  av_Worker :: string
  av_Created :: int
  av_AverageHashrate :: flt
  av_AverageSharesPerSecond :: flt

text \<open>The groups of a time slot and a worker, in the order of their slots, with their averages.\<close>

definition averages :: "(minerstat_row \<Rightarrow> 's :: linorder) \<Rightarrow> minerstat_row list \<Rightarrow> ('s \<times> string \<times> flt \<times> flt) list outcome" where
  "averages slot rows =
     traverse (\<lambda>(s, worker).
       let g = filter (\<lambda>r. (slot r, mt_worker r) = (s, worker)) rows in
       bind_out (pg_avg (map mt_hashrate g)) (\<lambda>hashrate.
       bind_out (pg_avg (map mt_sharespersecond g)) (\<lambda>shares. Ok (s, worker, hashrate, shares))))
     (sort_key fst (remdups (map (\<lambda>r. (slot r, mt_worker r)) rows)))"

definition stats_between :: "string \<Rightarrow> string \<Rightarrow> int \<Rightarrow> int \<Rightarrow> 'z stats_db_scheme \<Rightarrow> minerstat_row list" where
  "stats_between poolID miner start end d =
     filter (\<lambda>r. mt_poolid r = poolID \<and> mt_miner r = miner \<and> pg_time start \<le> mt_created r \<and> mt_created r \<le> pg_time end)
       (db_minerstats d)"

definition GetMinerHourlyAveragesBetween ::
    "string \<Rightarrow> string \<Rightarrow> int \<Rightarrow> int \<Rightarrow> ('z stats_db_scheme, (string \<times> MinerAverage list) list) op" where
  "GetMinerHourlyAveragesBetween poolID miner start end =
     sql_query (\<lambda>d.
       bind_out (averages (\<lambda>r. hour_of (mt_created r)) (stats_between poolID miner start end d)) (\<lambda>rows.
       Ok (fold (\<lambda>(created, worker, hashrate, shares) avgs.
             AList.update worker
               ((case map_of avgs worker of Some l \<Rightarrow> l | None \<Rightarrow> []) @
                [\<lparr>av_Worker = worker, av_Created = created, av_AverageHashrate = hashrate,
                  av_AverageSharesPerSecond = shares\<rparr>]) avgs) rows [])))"

text \<open>Both averages are scanned into the hashrate, the second stays; the last slot of a worker stays.
  A step of zero minutes divides by zero.\<close>

definition GetMinerPerformanceBetweenTimeAtXMinuteIntervals ::
    "string \<Rightarrow> string \<Rightarrow> int \<Rightarrow> int \<Rightarrow> int \<Rightarrow> ('z stats_db_scheme, WorkersReport) op" where
  "GetMinerPerformanceBetweenTimeAtXMinuteIntervals poolID address start end xMinutes =
     sql_query (\<lambda>d.
       let rows = stats_between poolID address start end d in
       if xMinutes = 0 \<and> rows \<noteq> [] then Err (ErrRemote ''division by zero'')
       else
       bind_out (averages (\<lambda>r. (hour_of (mt_created r),
                    sgn xMinutes * (((mt_created r - hour_of (mt_created r)) div minute) div \<bar>xMinutes\<bar>))) rows) (\<lambda>rows.
       Ok (newWorkerReport\<lparr>wr_Workers :=
             fold (\<lambda>((created, partition), worker, hashrate, shares). AList.update worker
               (zero_WorkerStat\<lparr>wk_Created := created, wk_Partition := partition, wk_Worker := worker,
                  wk_Hashrate := shares\<rparr>)) rows []\<rparr>)))"

text \<open>The query selects columns it does not group by: the server refuses it.\<close>

definition GetMinerPerformanceBetweenTimesAtInterval ::
    "string \<Rightarrow> string \<Rightarrow> int \<Rightarrow> int \<Rightarrow> int \<Rightarrow> ('z db_scheme, WorkersReport) op" where
  "GetMinerPerformanceBetweenTimesAtInterval poolID address start end interval =
     (if interval \<in> {minute, hour, hour * 24}
      then bind_op sql_call (\<lambda>_. fail_op (ErrRemote ''column must appear in the GROUP BY clause''))
      else fail_op (ErrText ''invalid input interval''))"

text \<open>The pool is not asked for. After a failed query the nil rows are used: a panic.\<close>

definition GetWorkersLastSeen :: "string \<Rightarrow> string \<Rightarrow> ('z db_scheme, WorkersReport) op" where
  "GetWorkersLastSeen poolID miner =
     bind_op (try_op (sql_query (\<lambda>d.
       let rows = filter (\<lambda>s. sr_miner s = miner) (db_shares d);
           newest = (\<lambda>worker. Max (set (map sr_created (filter (\<lambda>s. sr_worker s = worker) rows))))
       in Ok (filter (\<lambda>(_, seen). pg_time (db_now d) - 7 * 24 * hour \<le> seen)
                (map (\<lambda>worker. (worker, newest worker)) (remdups (map sr_worker rows))))))) (\<lambda>r.
     case r of
       Inl err \<Rightarrow> panic_op PanicNil
     | Inr rows \<Rightarrow>
         bind_op (\<lambda>d. (d, Ok (db_now d))) (\<lambda>now.
           return_op (newWorkerReport\<lparr>wr_Workers :=
             fold (\<lambda>(worker, seen). AList.update worker
               (zero_WorkerStat\<lparr>wk_Status := (if Fin 10 \<le> Minutes (time_Sub now seen) then ''Inactive'' else ''Active''),
                  wk_LastSeen := seen\<rparr>)) rows []\<rparr>)))"

section \<open>src/persistence/stats.go\<close>

record StatsCalcWindow =
  sw_startDifference :: int
  sw_endDifference :: int

definition getWindowDifferences :: "int \<Rightarrow> int \<Rightarrow> MinerWorkerHashAccumulation list \<Rightarrow> StatsCalcWindow outcome" where
  "getWindowDifferences now timeFrom workers =
     bind_out (nth_out workers 0) (\<lambda>worker.
     let first = fold (\<lambda>w first. if ha_FirstShare w < first then ha_FirstShare w else first) workers (ha_FirstShare worker);
         last = fold (\<lambda>w last. if last < ha_LastShare w then ha_LastShare w else last) workers 0
     in Ok \<lparr>sw_startDifference = time_Sub first timeFrom, sw_endDifference = time_Sub now last\<rparr>)"

definition adjustHashWindow :: "StatsCalcWindow \<Rightarrow> int \<Rightarrow> flt" where
  "adjustHashWindow window hashRateCalculationWindow =
     (let full = Seconds hashRateCalculationWindow;
          statsStartedAfterHashrateWindow = full * fl64 (1 / 10) \<le> Seconds (sw_startDifference window);
          statsEndedBeforeHashrateWindow = full * fl64 (1 / 10) \<le> Seconds (sw_endDifference window);
          minerHashTimeFrame =
            (if statsStartedAfterHashrateWindow \<and> statsEndedBeforeHashrateWindow
             then full - Seconds (sw_startDifference window) + Seconds (sw_endDifference window)
             else if statsStartedAfterHashrateWindow then full - Seconds (sw_startDifference window)
             else if statsEndedBeforeHashrateWindow then full + Seconds (sw_endDifference window)
             else full);
          minerHashTimeFrame = floor_flt minerHashTimeFrame
      in if minerHashTimeFrame < Fin 1 then Fin 1 else minerHashTimeFrame)"

definition hashrateFromShares :: "flt \<Rightarrow> flt \<Rightarrow> flt" where
  "hashrateFromShares shareSum interval = shareSum * Fin (2 ^ 32) / interval"

text \<open>The number of shares is divided by the window's nanoseconds.\<close>

definition getHashrateAndSharesPerSecond :: "MinerWorkerHashAccumulation list \<Rightarrow> int \<Rightarrow> flt \<times> flt" where
  "getHashrateAndSharesPerSecond hashSummaries hashRateCalculationWindow =
     (let (sumShares, sharesPerSecond) =
            fold (\<lambda>summary (sum, shares). (sum + ha_SumDifficulty summary, shares + flt_of_nat (ha_ShareCount summary)))
              hashSummaries (0, 0);
          hashRate = hashrateFromShares sumShares (Seconds hashRateCalculationWindow)
      in (floor_flt hashRate, sharesPerSecond / flt_of_int hashRateCalculationWindow))"

text \<open>A query without rows leaves the slice of workers nil.\<close>

definition makeNewPoolStat ::
    "string \<Rightarrow> int \<Rightarrow> MinerWorkerHashAccumulation list \<Rightarrow> u64 \<Rightarrow> int \<Rightarrow> ('z stats_db_scheme, unit) op" where
  "makeNewPoolStat poolID hashRateCalculationWindow workers minerCount now =
     (let poolStat = zero_PoolStat\<lparr>ps_PoolID := poolID, ps_Created := now\<rparr> in
      InsertPoolStat
        (if workers = [] then poolStat
         else let (rate, shares) = getHashrateAndSharesPerSecond workers hashRateCalculationWindow in
              poolStat\<lparr>ps_ConnectedMiners := minerCount, ps_ConnectedWorkers := of_nat (length workers),
                       ps_PoolHashrate := floor_flt rate, ps_SharesPerSecond := roundToThreeDigits shares\<rparr>))"

definition worker_stat :: "string \<Rightarrow> int \<Rightarrow> string \<Rightarrow> flt \<Rightarrow> MinerWorkerHashAccumulation \<Rightarrow> MinerStat" where
  "worker_stat poolID now miner adjustedWindow worker =
     \<lparr>mn_PoolID = poolID, mn_Miner = miner, mn_Worker = ha_Worker worker,
      mn_Hashrate = floor_flt (hashrateFromShares (ha_SumDifficulty worker) adjustedWindow),
      mn_SharesPerSecond = roundToThreeDigits (flt_of_nat (ha_ShareCount worker) / adjustedWindow),
      mn_Created = now\<rparr>"

text \<open>The loops over the miners, in the map's order, and their workers; an insert that fails is only
  logged. The result counts the inserts that did not.\<close>

definition insert_worker_stat :: "MinerStat \<Rightarrow> ('z stats_db_scheme, nat) op" where
  "insert_worker_stat stat =
     bind_op (try_op (InsertMinerWorkerPerformanceStats stat)) (\<lambda>r.
       return_op (case r of Inl _ \<Rightarrow> 0 | Inr _ \<Rightarrow> 1))"

definition makeMinerStats ::
    "(string list \<Rightarrow> string list) \<Rightarrow> string \<Rightarrow> (string \<times> MinerWorkerHashAccumulation list) list \<Rightarrow> int \<Rightarrow> int \<Rightarrow> int
      \<Rightarrow> ('z stats_db_scheme, nat) op" where
  "makeMinerStats order poolID miners now timeFrom hashRateCalculationWindow =
     bind_op (map_op (\<lambda>(miner, workers).
         bind_op (lift_op (getWindowDifferences now timeFrom workers)) (\<lambda>differences.
         let adjustedWindow = adjustHashWindow differences hashRateCalculationWindow in
         bind_op (map_op (\<lambda>worker. insert_worker_stat (worker_stat poolID now miner adjustedWindow worker)) workers)
           (\<lambda>counts. return_op (sum_list counts))))
       (range_map order miners)) (\<lambda>counts. return_op (sum_list counts))"

text \<open>The source reads the clock once for the window and once more for the rows; here both are one reading.\<close>

definition insertManyNewMinerStatsAndOnePoolStat ::
    "(string list \<Rightarrow> string list) \<Rightarrow> string \<Rightarrow> int \<Rightarrow> ('z stats_db_scheme, unit) op" where
  "insertManyNewMinerStatsAndOnePoolStat order poolID hashRateCalculationWindow d =
     (let now = db_now d; timeFrom = db_now d - hashRateCalculationWindow in
      bind_op (GetWorkerHashAccumulationBetween poolID timeFrom now) (\<lambda>workers.
      let miners = GroupByMiner workers in
      bind_op (try_op (makeNewPoolStat poolID hashRateCalculationWindow workers (of_nat (length miners)) now)) (\<lambda>_.
      bind_op (makeMinerStats order poolID miners now timeFrom hashRateCalculationWindow) (\<lambda>_.
        return_op ()))) d)"

text \<open>One round of the endless loop, without the sleep.\<close>

definition UpdateStatsOnInterval :: "(string list \<Rightarrow> string list) \<Rightarrow> string \<Rightarrow> int \<Rightarrow> ('z stats_db_scheme, unit) op" where
  "UpdateStatsOnInterval order poolID hashRateCalculationWindow =
     bind_op (try_op (insertManyNewMinerStatsAndOnePoolStat order poolID hashRateCalculationWindow)) (\<lambda>_. return_op ())"

end
