(* ===== verification/Api.thy ===== *)
theory Api
  imports Encoding Hashrate Stats
begin

text \<open>
  The pool's HTTP API, \<open>src/api\<close>: the pages for a miner, its history and the pool
  (\<open>dashboard.go\<close>, \<open>miner.go\<close>, \<open>pool.go\<close>) and their handlers (\<open>server.go\<close>). A page is the
  value that the handler encodes; the text of the JSON is not modelled, but that encoding fails
  for numbers and times JSON cannot represent is. A time shown as text is kept as the time. An
  error that is only logged is dropped. A panic in a handler ends the connection without a
  response, which is how \<open>net/http\<close> recovers from it.
\<close>

section \<open>src/api/dashboard.go\<close>

record Worker =
  aw_RigID :: string
  aw_Status :: string
  aw_CurrentHashrate :: HashRate
  aw_Rating :: int
  aw_LastSeen :: int

record Dashboard =
  ds_Balances :: "(string \<times> flt) list"
  ds_CurrentHashrate :: HashRate
  ds_ActiveWorkers :: nat
  ds_InactiveWorkers :: nat
  ds_WorkerList :: "Worker list"

definition padZeros :: "(string \<times> flt) list \<Rightarrow> string list \<Rightarrow> (string \<times> flt) list" where
  "padZeros balances chain_names =
     fold (\<lambda>chain balances. if map_of balances chain = None then AList.update chain 0 balances else balances)
       chain_names balances"

definition getWorkerCounts :: "string \<Rightarrow> string \<Rightarrow> ('z db_scheme, nat \<times> nat) op" where
  "getWorkerCounts poolId minerId =
     bind_op (GetWorkersLastSeen poolId minerId) (\<lambda>report.
     let count = (\<lambda>status. length (filter (\<lambda>(_, worker). wk_Status worker = status) (wr_Workers report)))
     in return_op (count ''Active'', count ''Inactive''))"

definition api_worker :: "(string \<times> WorkerStat) list \<Rightarrow> string \<times> WorkerStat \<Rightarrow> Worker outcome" where
  "api_worker workerHashRates = (\<lambda>(rigID, worker).
     let stat = (case map_of workerHashRates rigID of Some s \<Rightarrow> s | None \<Rightarrow> zero_WorkerStat) in
     bind_out (floatToHashrate (wk_Hashrate stat)) (\<lambda>rate.
       Ok \<lparr>aw_RigID = rigID, aw_Status = wk_Status worker, aw_CurrentHashrate = rate, aw_Rating = 0,
           aw_LastSeen = wk_LastSeen worker\<rparr>))"

definition minerWorkers ::
    "(string list \<Rightarrow> string list) \<Rightarrow> string \<Rightarrow> string \<Rightarrow> ('z stats_db_scheme, Worker list) op" where
  "minerWorkers order poolId minerId =
     bind_op (GetMinerStatsReport poolId minerId) (\<lambda>(minerStats, err).
     case minerStats of
       None \<Rightarrow> panic_op PanicNil
     | Some minerStats \<Rightarrow>
         bind_op (GetWorkersLastSeen poolId minerId) (\<lambda>workerStats.
           lift_op (traverse (api_worker (wr_Workers (mr_WorkersReport minerStats)))
             (range_map order (wr_Workers workerStats)))))"

text \<open>A miner that is not named, or has no report, gets the empty map.\<close>

definition getDashboardStats ::
    "(string list \<Rightarrow> string list) \<Rightarrow> string \<Rightarrow> string \<Rightarrow> string list \<Rightarrow> ('z stats_db_scheme, Dashboard option) op" where
  "getDashboardStats order poolId minerId chain_names =
     (if minerId = '''' then return_op None
      else
      bind_op (GetMinerStatsReport poolId minerId) (\<lambda>(report, err).
      case report of
        None \<Rightarrow> return_op None
      | Some report \<Rightarrow>
          let hashrateFloat = fold (\<lambda>(_, stat) total. total + wk_Hashrate stat)
                (range_map order (wr_Workers (mr_WorkersReport report))) 0 in
          bind_op (getWorkerCounts poolId minerId) (\<lambda>(active, inactive).
          let balances = padZeros (GetPendingAmounts (mr_ChainAccounts report)) chain_names in
          bind_op (lift_op (floatToHashrate hashrateFloat)) (\<lambda>rate.
          bind_op (minerWorkers order poolId minerId) (\<lambda>workers.
            return_op (Some \<lparr>ds_Balances = balances, ds_CurrentHashrate = rate, ds_ActiveWorkers = active,
              ds_InactiveWorkers = inactive, ds_WorkerList = workers\<rparr>))))))"

section \<open>src/api/miner.go\<close>

record RigStat =
  rg_HashRate :: HashRate
  rg_SharesPerSecond :: flt

record HourStat =
  hs_Created :: int
  hs_HashRate :: HashRate
  hs_SharesPerSecond :: flt
  hs_Workers :: "(string \<times> RigStat) list"

definition Hours :: "int \<Rightarrow> flt" where
  "Hours d = flt_of_int (go_quot d hour) + flt_of_int (d - go_quot d hour * hour) / Fin (60 * 60 * 10 ^ 9)"

definition empty_hours :: "int \<Rightarrow> HourStat list" where
  "empty_hours now =
     map (\<lambda>i. \<lparr>hs_Created = now - hour * int i, hs_HashRate = zero_HashRate, hs_SharesPerSecond = 0, hs_Workers = []\<rparr>)
       [0..<24]"

text \<open>An average goes to the hour it is older than now; only the raw hashrate of an hour is set.\<close>

definition fill_hour :: "int \<Rightarrow> string \<times> MinerAverage \<Rightarrow> HourStat list \<Rightarrow> HourStat list outcome" where
  "fill_hour now = (\<lambda>(rigID, average) hourStats.
     let i = truncate_flt (Hours (time_Sub now (av_Created average))) in
     if 23 < i then Ok hourStats
     else if i < 0 then Panic (PanicText ''index out of range'')
     else
     bind_out (nth_out hourStats (nat i)) (\<lambda>stat.
     bind_out (floatToHashrate (av_AverageHashrate average)) (\<lambda>rate.
       Ok (hourStats[nat i := stat\<lparr>
         hs_HashRate := (hs_HashRate stat)\<lparr>hr_Raw := hr_Raw (hs_HashRate stat) + av_AverageHashrate average\<rparr>,
         hs_SharesPerSecond := hs_SharesPerSecond stat + av_AverageSharesPerSecond average,
         hs_Created := av_Created average,
         hs_Workers := AList.update rigID \<lparr>rg_HashRate = rate,
           rg_SharesPerSecond = av_AverageSharesPerSecond average\<rparr> (hs_Workers stat)\<rparr>]))))"

fun fill_hours :: "int \<Rightarrow> (string \<times> MinerAverage) list \<Rightarrow> HourStat list \<Rightarrow> HourStat list outcome" where
  "fill_hours now [] hourStats = Ok hourStats"
| "fill_hours now (a # as) hourStats = bind_out (fill_hour now a hourStats) (fill_hours now as)"

text \<open>The averages of a failed query are nil.\<close>

definition getMinerHistory ::
    "(string list \<Rightarrow> string list) \<Rightarrow> string \<Rightarrow> string \<Rightarrow> ('z stats_db_scheme, HourStat list option) op" where
  "getMinerHistory order poolId minerId d =
     (let now = db_now d; oneDayAgo = now - 24 * hour in
      bind_op (try_op (GetMinerHourlyAveragesBetween poolId minerId oneDayAgo now)) (\<lambda>r.
      case r of
        Inl err \<Rightarrow> return_op None
      | Inr rigs \<Rightarrow>
          let averages = concat (map (\<lambda>(rigID, averages). map (Pair rigID) averages) (range_map order rigs)) in
          bind_op (lift_op (fill_hours (hour_of now) averages (empty_hours (hour_of now)))) (\<lambda>hourStats.
            return_op (Some (rev hourStats)))) d)"

section \<open>src/api/pool.go\<close>

record ApiBlock =
  ab_Chain :: string
  ab_Height :: int
  ab_HashHeader :: string
  ab_Created :: int
  ab_MinutesAgo :: int

record PoolIndex =
  pi_PoolHashRate :: HashRate
  pi_ActiveMiners :: u64
  pi_Workers :: u64
  pi_BlocksPerHour :: nat
  pi_LatestBlocks :: "ApiBlock list"

definition blocksPerHour :: "string \<Rightarrow> ('z db_scheme, nat) op" where
  "blocksPerHour poolID =
     bind_op (try_op (PoolBlocksPerHour poolID)) (\<lambda>r. return_op (case r of Inl _ \<Rightarrow> 0 | Inr rate \<Rightarrow> rate))"

text \<open>\<open>strings.ToUpper\<close> of one byte: a byte that is no ASCII character is not valid UTF-8.\<close>

definition to_upper :: "char \<Rightarrow> string" where
  "to_upper c =
     (let n = of_char c :: nat in
      if 97 \<le> n \<and> n \<le> 122 then [char_of (n - 32)]
      else if 128 \<le> n then map char_of [0xEF, 0xBF, 0xBD :: nat] else [c])"

definition api_block :: "int \<Rightarrow> Found \<Rightarrow> ApiBlock outcome" where
  "api_block now block =
     (case fd_Chain block of
        '''' \<Rightarrow> Panic (PanicText ''slice bounds out of range'')
      | c # cs \<Rightarrow> Ok \<lparr>ab_Chain = to_upper c @ cs, ab_Height = sint (fd_BlockHeight block),
          ab_HashHeader = fd_Hash block, ab_Created = fd_Created block,
          ab_MinutesAgo = truncate_flt (Minutes (time_Sub now (fd_Created block)))\<rparr>)"

definition recentBlocks :: "string \<Rightarrow> string list \<Rightarrow> ('z db_scheme, ApiBlock list) op" where
  "recentBlocks poolId chain_names =
     bind_op (map_op (\<lambda>chain.
         bind_op (try_op (PageBlocks poolId chain [StatusConfirmed] 0 5)) (\<lambda>r.
           return_op (case r of Inl _ \<Rightarrow> [] | Inr found \<Rightarrow> found))) chain_names) (\<lambda>founds d.
       (d, traverse (api_block (db_now d)) (concat founds)))"

definition getPoolIndex :: "string \<Rightarrow> string list \<Rightarrow> ('z stats_db_scheme, PoolIndex) op" where
  "getPoolIndex poolID chain_names =
     bind_op (try_op (GetLastStat poolID)) (\<lambda>r.
     let stat = (case r of Inl _ \<Rightarrow> zero_PoolStat | Inr stat \<Rightarrow> stat) in
     bind_op (lift_op (floatToHashrate (ps_PoolHashrate stat))) (\<lambda>rate.
     bind_op (blocksPerHour poolID) (\<lambda>perHour.
     bind_op (recentBlocks poolID chain_names) (\<lambda>blocks.
       return_op \<lparr>pi_PoolHashRate = rate, pi_ActiveMiners = ps_ConnectedMiners stat,
         pi_Workers = ps_ConnectedWorkers stat, pi_BlocksPerHour = perHour, pi_LatestBlocks = blocks\<rparr>))))"

section \<open>src/api/server.go\<close>

datatype page = MinerPage "Dashboard option" | HistoryPage "HourStat list option" | PoolPage PoolIndex

datatype body = JsonBody page | TextBody string

record api_request =
  aq_Method :: string
  aq_Path :: string
  aq_Id :: string

record api_response =
  ap_Status :: nat
  ap_Headers :: "(string \<times> string) list"
  ap_Body :: body

text \<open>JSON has no infinities and no NaN, and years of four digits.\<close>

fun json_number :: "flt \<Rightarrow> bool" where
  "json_number (Fin _) = True"
| "json_number _ = False"

definition json_time :: "int \<Rightarrow> bool" where
  "json_time t \<longleftrightarrow> - (366 * 24 * hour) \<le> t \<and> t < 3652059 * 24 * hour"

fun json_page :: "page \<Rightarrow> bool" where
  "json_page (MinerPage None) = True"
| "json_page (MinerPage (Some p)) =
     (list_all (\<lambda>(_, x). json_number x) (ds_Balances p) \<and> json_number (hr_Raw (ds_CurrentHashrate p))
      \<and> list_all (\<lambda>w. json_number (hr_Raw (aw_CurrentHashrate w)) \<and> json_time (aw_LastSeen w)) (ds_WorkerList p))"
| "json_page (HistoryPage None) = True"
| "json_page (HistoryPage (Some hs)) =
     list_all (\<lambda>h. json_time (hs_Created h) \<and> json_number (hr_Raw (hs_HashRate h)) \<and> json_number (hs_SharesPerSecond h)
        \<and> list_all (\<lambda>(_, r). json_number (hr_Raw (rg_HashRate r)) \<and> json_number (rg_SharesPerSecond r)) (hs_Workers h)) hs"
| "json_page (PoolPage p) = json_number (hr_Raw (pi_PoolHashRate p))"

definition http_Error :: "(string \<times> string) list \<Rightarrow> string \<Rightarrow> nat \<Rightarrow> api_response" where
  "http_Error headers message status =
     \<lparr>ap_Status = status,
      ap_Headers = AList.update ''X-Content-Type-Options'' ''nosniff''
        (AList.update ''Content-Type'' ''text/plain; charset=utf-8'' headers),
      ap_Body = TextBody (message @ [CHR 0x0A])\<rparr>"

text \<open>What the three handlers share: the method, the headers and the encoding.\<close>

definition handle_get :: "('w, page) op \<Rightarrow> api_request \<Rightarrow> ('w, api_response) op" where
  "handle_get page request =
     (if aq_Method request \<noteq> ''GET''
      then return_op (http_Error [] (''method '' @ aq_Method request @ '' is not allowed'') 405)
      else
      let headers = [(''Content-Type'', ''application/json''), (''Access-Control-Allow-Origin'', ''*'')] in
      bind_op page (\<lambda>p.
        if json_page p then return_op \<lparr>ap_Status = 200, ap_Headers = headers, ap_Body = JsonBody p\<rparr>
        else return_op (http_Error headers ''error building the response, json: unsupported value'' 500)))"

definition minerIndex ::
    "(string list \<Rightarrow> string list) \<Rightarrow> Config \<Rightarrow> api_request \<Rightarrow> ('z stats_db_scheme, api_response) op" where
  "minerIndex order serverConfig request =
     handle_get (bind_op (getDashboardStats order (cf_PoolName serverConfig) (aq_Id request) (cf_BlockChainOrder serverConfig))
       (\<lambda>p. return_op (MinerPage p))) request"

definition minerHistory ::
    "(string list \<Rightarrow> string list) \<Rightarrow> Config \<Rightarrow> api_request \<Rightarrow> ('z stats_db_scheme, api_response) op" where
  "minerHistory order serverConfig request =
     handle_get (bind_op (getMinerHistory order (cf_PoolName serverConfig) (aq_Id request))
       (\<lambda>p. return_op (HistoryPage p))) request"

definition poolIndex :: "Config \<Rightarrow> api_request \<Rightarrow> ('z stats_db_scheme, api_response) op" where
  "poolIndex serverConfig request =
     handle_get (bind_op (getPoolIndex (cf_PoolName serverConfig) (cf_BlockChainOrder serverConfig))
       (\<lambda>p. return_op (PoolPage p))) request"

text \<open>The routes of \<open>ListenAndServe\<close>, and the server's recovery: no response after a panic.\<close>

definition route_request ::
    "(string list \<Rightarrow> string list) \<Rightarrow> Config \<Rightarrow> api_request \<Rightarrow> ('z stats_db_scheme, api_response) op" where
  "route_request order configuration request =
     (if aq_Path request = ''/miner'' then minerIndex order configuration request
      else if aq_Path request = ''/miner-history'' then minerHistory order configuration request
      else if aq_Path request = ''/pool'' then poolIndex configuration request
      else return_op (http_Error [] ''404 page not found'' 404))"

definition serve_request ::
    "(string list \<Rightarrow> string list) \<Rightarrow> Config \<Rightarrow> api_request \<Rightarrow> ('z stats_db_scheme, api_response option) op" where
  "serve_request order configuration request d =
     (case route_request order configuration request d of
        (d, Ok response) \<Rightarrow> (d, Ok (Some response))
      | (d, _) \<Rightarrow> (d, Ok None))"

end
