(* ===== verification/StatsFacts.thy ===== *)
theory StatsFacts
  imports Stats
begin

text \<open>
  What the statistics service writes, and what its readers make of it: grouping by miner loses
  no worker, a round that meets no failure writes one row for every worker with shares in the
  window; the pool's shares per second come out as zero, the map of hashrates cannot be built,
  and a miner's report lacks what its query found.
\<close>

section \<open>Grouping\<close>

lemma group_by_miner_step_value:
  "group_by_miner_step w miners
    = AList.update (ha_Miner w) ((case map_of miners (ha_Miner w) of None \<Rightarrow> [] | Some c \<Rightarrow> c) @ [w]) miners"
  by (cases w) (simp add: group_by_miner_step_def Let_def)

definition workers_of :: "MinerWorkerHashAccumulation list \<Rightarrow> string \<Rightarrow> MinerWorkerHashAccumulation list" where
  "workers_of ws m = filter (\<lambda>w. ha_Miner w = m) ws"

lemma GroupByMiner_groups:
  "distinct (map fst (GroupByMiner ws)) \<and> set (map fst (GroupByMiner ws)) = ha_Miner ` set ws
    \<and> (\<forall>m. map_of (GroupByMiner ws) m = (if m \<in> ha_Miner ` set ws then Some (workers_of ws m) else None))"
proof (induction ws rule: rev_induct)
  case (snoc w ws)
  have step: "GroupByMiner (ws @ [w]) = group_by_miner_step w (GroupByMiner ws)" by (simp add: GroupByMiner_def)
  have "map_of (GroupByMiner (ws @ [w])) m
      = (if m \<in> ha_Miner ` set (ws @ [w]) then Some (workers_of (ws @ [w]) m) else None)" for m
  proof (cases "m = ha_Miner w")
    case True
    have "workers_of ws m = []" if "m \<notin> ha_Miner ` set ws"
      using that by (auto simp: workers_of_def filter_empty_conv)
    then show ?thesis using snoc True by (simp add: step group_by_miner_step_value update_conv' workers_of_def)
  next
    case False
    then show ?thesis using snoc by (simp add: step group_by_miner_step_value update_conv' workers_of_def)
  qed
  moreover have "distinct (map fst (GroupByMiner (ws @ [w])))"
    using snoc by (simp add: step group_by_miner_step_value distinct_update)
  moreover have "set (map fst (GroupByMiner (ws @ [w]))) = ha_Miner ` set (ws @ [w])"
    using snoc by (simp add: step group_by_miner_step_value dom_update)
  ultimately show ?case by blast
qed (simp add: GroupByMiner_def)

lemma range_groups:
  assumes "permutes_keys order"
  shows "\<exists>ms. range_map order (GroupByMiner ws) = map (\<lambda>m. (m, workers_of ws m)) ms
    \<and> distinct ms \<and> set ms = ha_Miner ` set ws"
proof -
  define ms where "ms = order (map fst (GroupByMiner ws))"
  have ms: "distinct ms" "set ms = ha_Miner ` set ws"
    using assms GroupByMiner_groups [of ws] unfolding ms_def permutes_keys_def by auto
  moreover have "range_map order (GroupByMiner ws) = map (\<lambda>m. (m, workers_of ws m)) ms"
    using GroupByMiner_groups [of ws] ms(2) unfolding range_map_def ms_def [symmetric] by auto
  ultimately show ?thesis by blast
qed

lemma mset_groups:
  "distinct ms \<Longrightarrow> mset (concat (map (workers_of ws) ms)) = filter_mset (\<lambda>w. ha_Miner w \<in> set ms) (mset ws)"
proof (induction ms)
  case (Cons m ms)
  have "filter_mset (\<lambda>w. ha_Miner w \<in> set (m # ms)) (mset ws)
      = filter_mset (\<lambda>w. ha_Miner w = m) (mset ws) + filter_mset (\<lambda>w. ha_Miner w \<in> set ms) (mset ws)"
    using Cons.prems by (intro multiset_eqI) auto
  then show ?case using Cons by (simp add: workers_of_def)
qed simp

section \<open>Writing\<close>

lemma insert_worker_stats:
  assumes "no_faults d"
  shows "\<exists>fs. map_op (\<lambda>w. insert_worker_stat (f w)) ws d
      = (d\<lparr>db_minerstats := db_minerstats d @ map (\<lambda>w. minerstat_to_row (f w)) ws, db_faults := fs\<rparr>, Ok (replicate (length ws) 1))
    \<and> no_faults (d\<lparr>db_faults := fs\<rparr>)"
  using assms
proof (induction ws arbitrary: d)
  case Nil
  then show ?case by (intro exI [of _ "db_faults d"]) (simp add: return_op_def)
next
  case (Cons w ws)
  let ?d = "d\<lparr>db_minerstats := db_minerstats d @ [minerstat_to_row (f w)], db_faults := tl (tl (db_faults d))\<rparr>"
  have nf: "no_faults (d\<lparr>db_faults := tl (db_faults d)\<rparr>)" "no_faults ?d"
    using Cons.prems by (auto simp: no_faults_def dest: in_set_tlD)
  have head: "insert_worker_stat (f w) d = (?d, Ok 1)"
    using Cons.prems nf
    by (simp add: insert_worker_stat_def InsertMinerWorkerPerformanceStats_def try_op_def bind_op_def sql_call_ok sql_exec_ok
        Let_def return_op_def)
  obtain fs where fs: "map_op (\<lambda>w. insert_worker_stat (f w)) ws ?d
      = (?d\<lparr>db_minerstats := db_minerstats ?d @ map (\<lambda>w. minerstat_to_row (f w)) ws, db_faults := fs\<rparr>, Ok (replicate (length ws) 1))"
    "no_faults (?d\<lparr>db_faults := fs\<rparr>)"
    using Cons.IH [OF nf(2)] by blast
  show ?case
    by (intro exI [of _ fs]) (use head fs in \<open>simp add: bind_op_def return_op_def no_faults_def\<close>)
qed

text \<open>The window of a miner, adjusted to the times of the shares of its workers.\<close>

definition miner_window :: "int \<Rightarrow> int \<Rightarrow> MinerWorkerHashAccumulation list \<Rightarrow> flt" where
  "miner_window now window workers =
     (case getWindowDifferences now (now - window) workers of Ok x \<Rightarrow> adjustHashWindow x window | _ \<Rightarrow> 0)"

lemma getWindowDifferences_Ok:
  "workers \<noteq> [] \<Longrightarrow> \<exists>x. getWindowDifferences now timeFrom workers = Ok x \<and> adjustHashWindow x (now - timeFrom)
    = miner_window now (now - timeFrom) workers"
  by (cases workers) (simp_all add: getWindowDifferences_def miner_window_def)

definition miner_rows :: "string \<Rightarrow> int \<Rightarrow> int \<Rightarrow> MinerWorkerHashAccumulation list \<Rightarrow> string \<Rightarrow> minerstat_row list" where
  "miner_rows poolID now window ws m =
     map (\<lambda>w. minerstat_to_row (worker_stat poolID now m (miner_window now window (workers_of ws m)) w)) (workers_of ws m)"

lemma makeMinerStats_writes:
  fixes d :: "'z stats_db_scheme"
  assumes "no_faults d" "set ms \<subseteq> ha_Miner ` set ws" "range_map order miners = map (\<lambda>m. (m, workers_of ws m)) ms"
  shows "\<exists>fs n. makeMinerStats order poolID miners now (now - window) window d
    = (d\<lparr>db_minerstats := db_minerstats d @ concat (map (miner_rows poolID now window ws) ms), db_faults := fs\<rparr>, Ok n)"
proof -
  define body :: "string \<times> MinerWorkerHashAccumulation list \<Rightarrow> ('z stats_db_scheme, nat) op" where
    "body = (\<lambda>(miner, workers).
         bind_op (lift_op (getWindowDifferences now (now - window) workers)) (\<lambda>differences.
         let adjustedWindow = adjustHashWindow differences window in
         bind_op (map_op (\<lambda>worker. insert_worker_stat (worker_stat poolID now miner adjustedWindow worker)) workers)
           (\<lambda>counts. return_op (sum_list counts))))"
  have loop: "\<exists>fs ns. map_op body (map (\<lambda>m. (m, workers_of ws m)) ms) e
      = (e\<lparr>db_minerstats := db_minerstats e @ concat (map (miner_rows poolID now window ws) ms), db_faults := fs\<rparr>, Ok ns)"
    if "no_faults e" for e :: "'z stats_db_scheme"
    using assms(2) that
  proof (induction ms arbitrary: e)
    case Nil
    then show ?case by (intro exI [of _ "db_faults e"]) (simp add: return_op_def)
  next
    case (Cons m ms)
    have "workers_of ws m \<noteq> []" using Cons.prems(1) by (auto simp: workers_of_def filter_empty_conv)
    then obtain x where x: "getWindowDifferences now (now - window) (workers_of ws m) = Ok x"
      "adjustHashWindow x window = miner_window now window (workers_of ws m)"
      using getWindowDifferences_Ok [of "workers_of ws m" now "now - window"] by auto
    obtain fs where fs: "map_op (\<lambda>w. insert_worker_stat (worker_stat poolID now m (miner_window now window (workers_of ws m)) w))
          (workers_of ws m) e
        = (e\<lparr>db_minerstats := db_minerstats e @ miner_rows poolID now window ws m, db_faults := fs\<rparr>,
           Ok (replicate (length (workers_of ws m)) 1))"
      "no_faults (e\<lparr>db_faults := fs\<rparr>)"
      using insert_worker_stats [OF Cons.prems(2)] unfolding miner_rows_def by blast
    let ?e = "e\<lparr>db_minerstats := db_minerstats e @ miner_rows poolID now window ws m, db_faults := fs\<rparr>"
    have head: "body (m, workers_of ws m) e = (?e, Ok (length (workers_of ws m)))"
      by (simp add: body_def x bind_op_def lift_op_def fs(1) return_op_def sum_list_replicate)
    have "no_faults ?e" using fs(2) by (simp add: no_faults_def)
    then obtain gs ns where "map_op body (map (\<lambda>m. (m, workers_of ws m)) ms) ?e
        = (?e\<lparr>db_minerstats := db_minerstats ?e @ concat (map (miner_rows poolID now window ws) ms), db_faults := gs\<rparr>, Ok ns)"
      using Cons.IH [of ?e] Cons.prems(1) by auto
    then show ?case
      by (intro exI [of _ gs] exI [of _ "length (workers_of ws m) # ns"]) (simp add: bind_op_def head return_op_def)
  qed
  have run: "makeMinerStats order poolID miners now (now - window) window
      = bind_op (map_op body (map (\<lambda>m. (m, workers_of ws m)) ms)) (\<lambda>counts. return_op (sum_list counts))"
    unfolding makeMinerStats_def assms(3) body_def by simp
  obtain fs ns where "map_op body (map (\<lambda>m. (m, workers_of ws m)) ms) d
      = (d\<lparr>db_minerstats := db_minerstats d @ concat (map (miner_rows poolID now window ws) ms), db_faults := fs\<rparr>, Ok ns)"
    using loop [OF assms(1)] by blast
  then show ?thesis unfolding run by (intro exI [of _ fs] exI [of _ "sum_list ns"]) (simp add: bind_op_def return_op_def)
qed

section \<open>A round of the service\<close>

lemma makeNewPoolStat_writes:
  assumes "no_faults d" "unat minerCount < 2 ^ 31" "length workers < 2 ^ 31"
  shows "\<exists>row fs. makeNewPoolStat poolID window workers minerCount now d
      = (d\<lparr>db_poolstats := db_poolstats d @ [row], db_faults := fs\<rparr>, Ok ())
    \<and> no_faults (d\<lparr>db_faults := fs\<rparr>) \<and> pt_poolid row = poolID
    \<and> pt_connectedworkers row = int (length workers)
    \<and> (workers \<noteq> [] \<longrightarrow> pt_connectedminers row = int (unat minerCount))
    \<and> (workers = [] \<longrightarrow> pt_connectedminers row = 0)"
proof -
  have n: "unat (of_nat (length workers) :: u64) = length workers"
    using assms(3) by (simp add: unat_of_nat take_bit_eq_mod)
  have nf: "no_faults (d\<lparr>db_faults := tl (db_faults d)\<rparr>)" "no_faults (d\<lparr>db_faults := tl (tl (db_faults d))\<rparr>)"
    using assms(1) by (auto simp: no_faults_def dest: in_set_tlD)
  have insert: "InsertPoolStat stat d
      = (d\<lparr>db_poolstats := db_poolstats d @ [row], db_faults := tl (tl (db_faults d))\<rparr>, Ok ())"
    if "poolstat_to_row stat = Ok row" for stat row
    using assms(1) nf that by (simp add: InsertPoolStat_def bind_op_def sql_call_ok sql_exec_ok Let_def)
  show ?thesis
  proof (cases "workers = []")
    case True
    have "\<exists>row. poolstat_to_row (zero_PoolStat\<lparr>ps_PoolID := poolID, ps_Created := now\<rparr>) = Ok row
        \<and> pt_poolid row = poolID \<and> pt_connectedworkers row = 0 \<and> pt_connectedminers row = 0"
      by (simp add: poolstat_to_row_def uint_param_def zero_PoolStat_def)
    then show ?thesis using True insert nf(2) by (auto simp: makeNewPoolStat_def Let_def)
  next
    case False
    obtain rate shares where hs: "getHashrateAndSharesPerSecond workers window = (rate, shares)" by fastforce
    let ?stat = "zero_PoolStat\<lparr>ps_PoolID := poolID, ps_Created := now, ps_ConnectedMiners := minerCount,
      ps_ConnectedWorkers := of_nat (length workers), ps_PoolHashrate := floor_flt rate,
      ps_SharesPerSecond := roundToThreeDigits shares\<rparr>"
    have "\<exists>row. poolstat_to_row ?stat = Ok row \<and> pt_poolid row = poolID
        \<and> pt_connectedworkers row = int (length workers) \<and> pt_connectedminers row = int (unat minerCount)"
      using assms(2,3) n by (simp add: poolstat_to_row_def uint_param_def zero_PoolStat_def)
    then show ?thesis using False insert [of ?stat] nf(2) hs by (auto simp: makeNewPoolStat_def Let_def)
  qed
qed

lemma accumulation_reads:
  assumes "no_faults d"
  shows "GetWorkerHashAccumulationBetween poolID start end d
    = (d\<lparr>db_faults := tl (tl (db_faults d))\<rparr>, snd (GetWorkerHashAccumulationBetween poolID start end d))"
proof -
  have "no_faults (d\<lparr>db_faults := tl (db_faults d)\<rparr>)" using assms by simp
  then show ?thesis using assms
    by (simp add: GetWorkerHashAccumulationBetween_def bind_op_def sql_call_ok sql_query_ok)
qed

text \<open>A round, given the workers the query returned.\<close>

lemma round_of_workers:
  fixes d :: "'z stats_db_scheme"
  assumes "no_faults d" "permutes_keys order" "length ws < 2 ^ 31"
    and "snd (GetWorkerHashAccumulationBetween poolID (db_now d - window) (db_now d) d) = Ok ws"
  shows "\<exists>d' row rows. insertManyNewMinerStatsAndOnePoolStat order poolID window d = (d', Ok ())
    \<and> db_poolstats d' = db_poolstats d @ [row] \<and> db_minerstats d' = db_minerstats d @ rows
    \<and> pt_connectedworkers row = int (length ws) \<and> pt_connectedminers row = int (card (ha_Miner ` set ws))
    \<and> mset rows = image_mset (\<lambda>w. minerstat_to_row (worker_stat poolID (db_now d) (ha_Miner w)
        (miner_window (db_now d) window (workers_of ws (ha_Miner w))) w)) (mset ws)"
proof -
  let ?now = "db_now d"
  define d1 where "d1 = d\<lparr>db_faults := tl (tl (db_faults d))\<rparr>"
  have d1: "GetWorkerHashAccumulationBetween poolID (?now - window) ?now d = (d1, Ok ws)"
    using accumulation_reads [OF assms(1), of poolID "?now - window" ?now] assms(4) by (simp add: d1_def)
  have nf1: "no_faults d1" using assms(1) by (auto simp: d1_def no_faults_def dest: in_set_tlD)
  have count: "length (GroupByMiner ws) = card (ha_Miner ` set ws)"
    using GroupByMiner_groups [of ws] distinct_card [of "map fst (GroupByMiner ws)"] by simp
  also have "\<dots> \<le> length ws" using card_image_le [of "set ws" ha_Miner] card_length [of ws] by simp
  finally have few: "unat (of_nat (length (GroupByMiner ws)) :: u64) = card (ha_Miner ` set ws)"
    "card (ha_Miner ` set ws) < 2 ^ 31"
    using assms(3) count by (simp_all add: unat_of_nat take_bit_eq_mod)
  obtain row fs where pool: "makeNewPoolStat poolID window ws (of_nat (length (GroupByMiner ws))) ?now d1
      = (d1\<lparr>db_poolstats := db_poolstats d1 @ [row], db_faults := fs\<rparr>, Ok ())"
    "no_faults (d1\<lparr>db_faults := fs\<rparr>)" "pt_connectedworkers row = int (length ws)"
    "pt_connectedminers row = int (card (ha_Miner ` set ws))"
    using makeNewPoolStat_writes [OF nf1, of "of_nat (length (GroupByMiner ws))" ws poolID window ?now] assms(3)
    unfolding few(1) using few(2) by (cases "ws = []") auto
  define d2 where "d2 = d1\<lparr>db_poolstats := db_poolstats d1 @ [row], db_faults := fs\<rparr>"
  have nf2: "no_faults d2" using pool(2) by (simp add: d2_def no_faults_def)
  obtain ms where ms: "range_map order (GroupByMiner ws) = map (\<lambda>m. (m, workers_of ws m)) ms"
    "distinct ms" "set ms = ha_Miner ` set ws"
    using range_groups [OF assms(2), of ws] by blast
  obtain gs n where stats: "makeMinerStats order poolID (GroupByMiner ws) ?now (?now - window) window d2
      = (d2\<lparr>db_minerstats := db_minerstats d2 @ concat (map (miner_rows poolID ?now window ws) ms), db_faults := gs\<rparr>, Ok n)"
    using makeMinerStats_writes [OF nf2 _ ms(1), of poolID ?now window] ms(3) by auto
  define d3 where "d3 = d2\<lparr>db_minerstats := db_minerstats d2 @ concat (map (miner_rows poolID ?now window ws) ms), db_faults := gs\<rparr>"
  have run: "insertManyNewMinerStatsAndOnePoolStat order poolID window d = (d3, Ok ())"
    using d1 pool(1) stats unfolding d2_def [symmetric] d3_def [symmetric]
    by (simp add: insertManyNewMinerStatsAndOnePoolStat_def Let_def bind_op_def try_op_def return_op_def)
  let ?row = "\<lambda>w. minerstat_to_row (worker_stat poolID ?now (ha_Miner w) (miner_window ?now window (workers_of ws (ha_Miner w))) w)"
  have "miner_rows poolID ?now window ws = (\<lambda>m. map ?row (workers_of ws m))"
    by (rule ext) (auto simp: miner_rows_def workers_of_def)
  then have all: "concat (map (miner_rows poolID ?now window ws) ms) = map ?row (concat (map (workers_of ws) ms))"
    by (simp add: map_concat comp_def)
  have parts: "mset (concat (map (workers_of ws) ms)) = mset ws"
    unfolding mset_groups [OF ms(2)] ms(3) by (simp add: filter_mset_eq_conv)
  have rows: "mset (concat (map (miner_rows poolID ?now window ws) ms)) = image_mset ?row (mset ws)"
    by (simp only: all mset_map parts)
  have "db_poolstats d3 = db_poolstats d @ [row]" "db_minerstats d3 = db_minerstats d @ concat (map (miner_rows poolID ?now window ws) ms)"
    by (simp_all add: d3_def d2_def d1_def)
  then show ?thesis using run pool(3,4) rows by (intro exI conjI)
qed

text \<open>The shares of a pool in a window of time, by worker, and what is known of a worker from them.\<close>

definition worker_key :: "share_row \<Rightarrow> string \<times> string" where
  "worker_key s = (sr_miner s, sr_worker s)"

definition window_shares :: "string \<Rightarrow> int \<Rightarrow> int \<Rightarrow> 'z db_scheme \<Rightarrow> share_row list" where
  "window_shares poolID start end d =
     filter (\<lambda>s. sr_poolid s = poolID \<and> pg_time start \<le> sr_created s \<and> sr_created s \<le> pg_time end) (db_shares d)"

definition stats_shares :: "string \<Rightarrow> int \<Rightarrow> 'z db_scheme \<Rightarrow> share_row list" where
  "stats_shares poolID window d = window_shares poolID (db_now d - window) (db_now d) d"

definition worker_total :: "share_row list \<Rightarrow> MinerWorkerHashAccumulation \<Rightarrow> bool" where
  "worker_total shares w \<longleftrightarrow>
     (let own = filter (\<lambda>s. worker_key s = (ha_Miner w, ha_Worker w)) shares in
       pg_sum (map sr_difficulty own) = Ok (Some (ha_SumDifficulty w)) \<and> ha_ShareCount w = length own
       \<and> ha_FirstShare w \<in> sr_created ` set own \<and> ha_LastShare w \<in> sr_created ` set own
       \<and> (\<forall>s \<in> set own. ha_FirstShare w \<le> sr_created s \<and> sr_created s \<le> ha_LastShare w))"

lemma accumulate_group_total:
  assumes "k \<in> worker_key ` set shares" "pg_sum (map sr_difficulty (filter (\<lambda>s. worker_key s = k) shares)) = Ok (Some work)"
  shows "\<exists>w. accumulate_group shares k = Ok w \<and> (ha_Miner w, ha_Worker w) = k \<and> worker_total shares w"
proof -
  define own where "own = filter (\<lambda>s. worker_key s = k) shares"
  have "own \<noteq> []" using assms(1) by (auto simp: own_def filter_empty_conv)
  then have times: "finite (sr_created ` set own)" "sr_created ` set own \<noteq> {}" by simp_all
  have "accumulate_group shares k = Ok \<lparr>ha_Miner = fst k, ha_Worker = snd k, ha_SumDifficulty = work, ha_ShareCount = length own,
      ha_FirstShare = Min (sr_created ` set own), ha_LastShare = Max (sr_created ` set own)\<rparr>"
    using assms(2) by (simp add: accumulate_group_def own_def worker_key_def scan_not_null_def)
  moreover have "{x \<in> set shares. worker_key x = k} = set own" by (auto simp: own_def)
  moreover have "\<forall>s. s \<in> set shares \<and> worker_key s = k \<longrightarrow>
      Min (sr_created ` set own) \<le> sr_created s \<and> sr_created s \<le> Max (sr_created ` set own)"
    using times by (auto simp: own_def)
  ultimately show ?thesis
    using assms(2) Min_in [OF times] Max_in [OF times] by (simp add: worker_total_def own_def [symmetric])
qed

lemma traverse_all:
  assumes "\<forall>x \<in> set xs. \<exists>y. f x = Ok y \<and> key y = x \<and> P y"
  shows "\<exists>ys. traverse f xs = Ok ys \<and> map key ys = xs \<and> (\<forall>y \<in> set ys. P y)"
  using assms
proof (induction xs)
  case (Cons x xs)
  then obtain y ys where "f x = Ok y" "key y = x" "P y" "traverse f xs = Ok ys" "map key ys = xs" "\<forall>y \<in> set ys. P y" by auto
  then show ?case by (intro exI [of _ "y # ys"]) simp
qed simp

lemma accumulation_workers:
  assumes "no_faults d"
    and "\<forall>k \<in> worker_key ` set (window_shares poolID start end d). \<exists>work.
      pg_sum (map sr_difficulty (filter (\<lambda>s. worker_key s = k) (window_shares poolID start end d))) = Ok (Some work)"
  shows "\<exists>ws. snd (GetWorkerHashAccumulationBetween poolID start end d) = Ok ws
    \<and> map (\<lambda>w. (ha_Miner w, ha_Worker w)) ws = remdups (map worker_key (window_shares poolID start end d))
    \<and> (\<forall>w \<in> set ws. worker_total (window_shares poolID start end d) w)"
proof -
  let ?shares = "window_shares poolID start end d"
  have nf: "no_faults (d\<lparr>db_faults := tl (db_faults d)\<rparr>)" using assms(1) by simp
  have key: "worker_key = (\<lambda>s. (sr_miner s, sr_worker s))" by (rule ext) (simp add: worker_key_def)
  have "snd (GetWorkerHashAccumulationBetween poolID start end d)
      = traverse (accumulate_group ?shares) (remdups (map worker_key ?shares))"
    using assms(1) nf
    by (simp add: GetWorkerHashAccumulationBetween_def bind_op_def sql_call_ok sql_query_ok window_shares_def key Let_def)
  moreover have "\<forall>k \<in> set (remdups (map worker_key ?shares)).
      \<exists>w. accumulate_group ?shares k = Ok w \<and> (ha_Miner w, ha_Worker w) = k \<and> worker_total ?shares w"
    using accumulate_group_total assms(2) by fastforce
  ultimately show ?thesis using traverse_all [of "remdups (map worker_key ?shares)"] by simp
qed

text \<open>
  C16. A round of the statistics service accounts for every worker once. When no call fails and
  the sums of the difficulties can be formed, it appends one row for the pool, with the
  numbers of the workers and of the miners that have shares in the pool's window, and exactly
  one row for every such worker, whatever the order in which the miners are visited; what
  a row is made from are the worker's own shares in the window: the sum of their difficulties,
  their number, the first and the last time. A worker's hashrate is its difficulty times 2^32
  by the window of its miner.
\<close>

theorem stats_round_accounts_for_every_worker:
  fixes d :: "'z stats_db_scheme"
  assumes "no_faults d" "permutes_keys order" "length (stats_shares poolID window d) < 2 ^ 31"
    and "\<forall>k \<in> worker_key ` set (stats_shares poolID window d). \<exists>work.
      pg_sum (map sr_difficulty (filter (\<lambda>s. worker_key s = k) (stats_shares poolID window d))) = Ok (Some work)"
  shows "\<exists>d' row rows ws. insertManyNewMinerStatsAndOnePoolStat order poolID window d = (d', Ok ())
    \<and> db_poolstats d' = db_poolstats d @ [row] \<and> db_minerstats d' = db_minerstats d @ rows
    \<and> pt_connectedworkers row = int (card (worker_key ` set (stats_shares poolID window d)))
    \<and> pt_connectedminers row = int (card (sr_miner ` set (stats_shares poolID window d)))
    \<and> mset (map (\<lambda>w. (ha_Miner w, ha_Worker w)) ws) = mset_set (worker_key ` set (stats_shares poolID window d))
    \<and> (\<forall>w \<in> set ws. worker_total (stats_shares poolID window d) w)
    \<and> mset rows = image_mset (\<lambda>w. minerstat_to_row (worker_stat poolID (db_now d) (ha_Miner w)
        (miner_window (db_now d) window (workers_of ws (ha_Miner w))) w)) (mset ws)"
proof -
  let ?now = "db_now d" and ?shares = "window_shares poolID (db_now d - window) (db_now d) d"
  obtain ws where ws: "snd (GetWorkerHashAccumulationBetween poolID (?now - window) ?now d) = Ok ws"
    "map (\<lambda>w. (ha_Miner w, ha_Worker w)) ws = remdups (map worker_key ?shares)" "\<forall>w \<in> set ws. worker_total ?shares w"
    using accumulation_workers [OF assms(1), of poolID "?now - window" ?now] assms(4) unfolding stats_shares_def by blast
  have "length ws = length (remdups (map worker_key ?shares))" using arg_cong [OF ws(2), of length] by simp
  then have workers: "length ws = card (worker_key ` set ?shares)" by (simp add: length_remdups_card_conv)
  have few: "length ws < 2 ^ 31"
    using assms(3) card_image_le [of "set ?shares" worker_key] card_length [of ?shares] unfolding workers stats_shares_def by simp
  have "ha_Miner ` set ws = fst ` set (map (\<lambda>w. (ha_Miner w, ha_Worker w)) ws)" by (simp add: image_image)
  then have miners: "ha_Miner ` set ws = sr_miner ` set ?shares"
    unfolding ws(2) by (simp add: image_image worker_key_def)
  have "mset (map (\<lambda>w. (ha_Miner w, ha_Worker w)) ws) = mset_set (worker_key ` set ?shares)"
    unfolding ws(2) by (simp add: mset_set_set [symmetric])
  with round_of_workers [OF assms(1,2) few ws(1)] ws(3) show ?thesis
    unfolding workers miners stats_shares_def by blast
qed

definition example_stats :: "share_row list \<Rightarrow> minerstat_row list \<Rightarrow> stats_db" where
  "example_stats shares stats = db.extend (example_db\<lparr>db_shares := shares\<rparr>) (stats_db.fields stats [])"

lemma example_stats_simps [simp]:
  "db_shares (example_stats ss ms) = ss" "db_minerstats (example_stats ss ms) = ms" "db_poolstats (example_stats ss ms) = []"
  "db_now (example_stats ss ms) = 1000" "no_faults (example_stats ss ms)" "db_faults (example_stats ss ms) = []"
  "db_payments (example_stats ss ms) = []" "db_dec (example_stats ss ms) = db_dec example_db"
  by (simp_all add: example_stats_def db.defs stats_db.defs example_db_def no_faults_def)

text \<open>Two miners with shares in the window; shares before it and of another pool do not count.\<close>

theorem stats_round_accounts_for_every_worker_witness:
  "\<exists>d'. insertManyNewMinerStatsAndOnePoolStat rev ''p'' (60 * 10 ^ 9)
       (example_stats [example_share_row ''a'' 0, example_share_row ''b'' 1000, example_share_row ''a'' 1000,
          example_share_row ''c'' (- (100 * 10 ^ 9)), example_share_row ''d'' 1000\<lparr>sr_poolid := ''q''\<rparr>] []) = (d', Ok ())
     \<and> length (db_minerstats d') = 2 \<and> map pt_connectedworkers (db_poolstats d') = [2]
     \<and> map pt_connectedminers (db_poolstats d') = [2]"
proof -
  let ?a = "example_share_row ''a'' 0" and ?b = "example_share_row ''b'' 1000" and ?c = "example_share_row ''a'' 1000"
  let ?d = "example_stats [?a, ?b, ?c, example_share_row ''c'' (- (100 * 10 ^ 9)), example_share_row ''d'' 1000\<lparr>sr_poolid := ''q''\<rparr>] []"
  have shares: "stats_shares ''p'' (60 * 10 ^ 9) ?d = [?a, ?b, ?c]" by code_simp
  have keys: "worker_key ` set [?a, ?b, ?c] = {(''a'', ''rig''), (''b'', ''rig'')}" "sr_miner ` set [?a, ?b, ?c] = {''a'', ''b''}"
    by (auto simp: worker_key_def example_share_row_def)
  have "(\<exists>work. pg_sum (map sr_difficulty (filter (\<lambda>s. worker_key s = (''a'', ''rig'')) [?a, ?b, ?c])) = Ok (Some work))"
    by (rule exI [of _ "Fin 4"]) code_simp
  moreover have "(\<exists>work. pg_sum (map sr_difficulty (filter (\<lambda>s. worker_key s = (''b'', ''rig'')) [?a, ?b, ?c])) = Ok (Some work))"
    by (rule exI [of _ "Fin 2"]) code_simp
  ultimately have sums: "\<forall>k \<in> worker_key ` set (stats_shares ''p'' (60 * 10 ^ 9) ?d). \<exists>work.
      pg_sum (map sr_difficulty (filter (\<lambda>s. worker_key s = k) (stats_shares ''p'' (60 * 10 ^ 9) ?d)))
        = Ok (Some work)"
    unfolding shares keys by blast
  have few: "length (stats_shares ''p'' (60 * 10 ^ 9) ?d) < 2 ^ 31" unfolding shares by simp
  have nf: "no_faults ?d" and order: "permutes_keys rev" using permutes_keys_examples by simp_all
  obtain d' row rows ws where r: "insertManyNewMinerStatsAndOnePoolStat rev ''p'' (60 * 10 ^ 9) ?d = (d', Ok ())"
    "db_poolstats d' = db_poolstats ?d @ [row]" "db_minerstats d' = db_minerstats ?d @ rows"
    "pt_connectedworkers row = int (card {(''a'', ''rig''), (''b'', ''rig'')})" "pt_connectedminers row = int (card {''a'', ''b''})"
    "mset (map (\<lambda>w. (ha_Miner w, ha_Worker w)) ws) = mset_set {(''a'', ''rig''), (''b'', ''rig'')}"
    "mset rows = image_mset (\<lambda>w. minerstat_to_row (worker_stat ''p'' (db_now ?d) (ha_Miner w)
        (miner_window (db_now ?d) (60 * 10 ^ 9) (workers_of ws (ha_Miner w))) w)) (mset ws)"
    using stats_round_accounts_for_every_worker [OF nf order few sums] unfolding shares keys by (elim exE conjE) (rule that, assumption+)
  have "length ws = 2" using arg_cong [OF r(6), of size] by simp
  then have "length rows = 2" using arg_cong [OF r(7), of size] by simp
  then show ?thesis using r(1-5) by (intro exI [of _ d']) simp
qed

section \<open>The pool's shares per second\<close>

lemma fl64_mono_Fin:
  assumes "0 \<le> x" "x \<le> y" "fl64 y = Fin y"
  shows "\<exists>z. fl64 x = Fin z \<and> 0 \<le> z \<and> z \<le> y"
proof -
  define z where "z = round_ieee 53 (-1074) x"
  have y: "round_ieee 53 (-1074) y = y" "y \<noteq> 0 \<Longrightarrow> ilog2 \<bar>y\<bar> < 1024"
    using assms(3) by (auto simp: fl64_def overflow_at_def split: if_splits)
  have z: "0 \<le> z" "z \<le> y"
    using assms(1,2) round_ieee_mono [of x y 53 "-1074"] y(1) by (simp_all add: z_def round_ieee_nonneg)
  have "ilog2 \<bar>z\<bar> < 1024" if "z \<noteq> 0"
    using y(2) ilog2_mono [of z y] z that by simp
  then have "fl64 x = Fin z" by (auto simp: fl64_def overflow_at_def z_def [symmetric])
  then show ?thesis using z by blast
qed

text \<open>A quotient of at most \<open>2^-12\<close> is zero to three digits.\<close>

lemma small_rounds_to_zero:
  assumes "0 \<le> x" "x \<le> pow2 (-12)"
  shows "roundToThreeDigits (fl64 x) = 0"
proof -
  have "fl64 (pow2 (-12)) = Fin (pow2 (-12))" by (rule fl64_dyadic [of _ 1 "-12"]) simp_all
  from fl64_mono_Fin [OF assms this] obtain z where z: "fl64 x = Fin z" "0 \<le> z" "z \<le> pow2 (-12)" by blast
  have p: "pow2 (-12) = 1 / 4096" by (simp add: pow2_def)
  have "fl64 (1 / 4) = Fin (1 / 4)"
    by (rule fl64_dyadic [of _ 1 "-2"]) (simp_all add: pow2_def)
  from fl64_mono_Fin [OF _ _ this, of "z * 1000"] obtain u where u: "fl64 (z * 1000) = Fin u" "0 \<le> u" "u \<le> 1 / 4"
    using z p by auto
  have "round_half_away u = 0" using u(2,3) by (simp add: round_half_away_def floor_eq_iff)
  then show ?thesis by (simp add: roundToThreeDigits_def z(1) u(1) zero_flt_def)
qed

lemma sum_counts:
  assumes "a + (\<Sum>w \<leftarrow> ws. ha_ShareCount w) \<le> 2 ^ 53"
  shows "snd (fold (\<lambda>summary (sum, shares). (sum + ha_SumDifficulty summary, shares + flt_of_nat (ha_ShareCount summary)))
      ws (s, Fin (of_nat a))) = Fin (of_nat (a + (\<Sum>w \<leftarrow> ws. ha_ShareCount w)))"
  using assms
proof (induction ws arbitrary: a s)
  case (Cons w ws)
  have n: "flt_of_nat (ha_ShareCount w) = Fin (of_nat (ha_ShareCount w))"
    using Cons.prems fl64_int [of "int (ha_ShareCount w)"] by (simp add: flt_of_nat_def)
  have "Fin (of_nat a) + flt_of_nat (ha_ShareCount w) = Fin (of_nat (a + ha_ShareCount w))"
    using Cons.prems fl64_int [of "int (a + ha_ShareCount w)"] by (simp add: n)
  then show ?case using Cons.IH [of "a + ha_ShareCount w" "s + ha_SumDifficulty w"] Cons.prems by (simp add: ac_simps)
qed simp

text \<open>
  The pool's shares per second are stored as zero. The count of the window's shares is
  divided by the window in nanoseconds, not in seconds: as long as fewer than 244140 shares per
  second come in, the number that is stored, and served, is zero.
\<close>

theorem pool_shares_per_second_vanish:
  assumes "0 < window" "window \<le> 2 ^ 53" "4096 * int (\<Sum>w \<leftarrow> ws. ha_ShareCount w) \<le> window"
  shows "roundToThreeDigits (snd (getHashrateAndSharesPerSecond ws window)) = 0"
proof -
  let ?n = "\<Sum>w \<leftarrow> ws. ha_ShareCount w"
  have n: "?n \<le> 2 ^ 53" using assms(2,3) by simp
  then have count: "snd (fold (\<lambda>summary (sum, shares). (sum + ha_SumDifficulty summary, shares + flt_of_nat (ha_ShareCount summary)))
      ws (0, 0)) = Fin (of_nat ?n)"
    using sum_counts [of 0 ws 0] by (simp add: zero_flt_def)
  have w: "flt_of_int window = Fin (of_int window)" using assms(1,2) fl64_int [of window] by (simp add: flt_of_int_def)
  have "snd (getHashrateAndSharesPerSecond ws window) = fl64 (of_nat ?n / of_int window)"
    using assms(1) count w by (simp add: getHashrateAndSharesPerSecond_def Let_def split_beta)
  moreover have "of_nat ?n / of_int window \<le> pow2 (-12)"
  proof -
    have "(of_int (4096 * int ?n) :: rat) \<le> of_int window" using assms(3) by (simp only: of_int_le_iff)
    then show ?thesis using assms(1) by (simp add: pow2_def field_simps)
  qed
  ultimately show ?thesis using small_rounds_to_zero assms(1) by simp
qed

theorem pool_shares_per_second_vanish_witness:
  "roundToThreeDigits (snd (getHashrateAndSharesPerSecond
     [\<lparr>ha_Miner = ''a'', ha_Worker = ''rig'', ha_SumDifficulty = Fin 4, ha_ShareCount = 600000, ha_FirstShare = 0, ha_LastShare = 1000\<rparr>]
     (60 * 10 ^ 9))) = 0"
  by (rule pool_shares_per_second_vanish) simp_all

section \<open>The map of hashrates\<close>

text \<open>
  The hashrates of the workers cannot be read. As soon as a worker of a named miner has a
  positive hashrate in its newest statistics, building the map writes to a map that was made
  under the empty name: a panic.
\<close>

theorem worker_hashrates_panic:
  assumes "no_faults d" "\<exists>r \<in> set (latest_stats poolID (db_minerstats d)). mt_miner r \<noteq> ''''"
  shows "snd (MinerWorkerHashrates poolID d) = Panic (PanicText ''assignment to entry in nil map'')"
proof -
  have "hashrate_rows rates rows = Panic (PanicText ''assignment to entry in nil map'')"
    if "\<exists>r \<in> set rows. mt_miner r \<noteq> ''''" "\<forall>m. m \<noteq> '''' \<longrightarrow> map_of rates m = None" for rates rows
    using that
  proof (induction rows arbitrary: rates)
    case (Cons r rows)
    let ?rates = "if map_of rates '''' = None then AList.update '''' [] rates else rates"
    have rates: "\<forall>m. m \<noteq> '''' \<longrightarrow> map_of ?rates m = None" using Cons.prems(2) by (simp add: update_conv')
    show ?case
    proof (cases "mt_miner r = ''''")
      case True
      obtain workers where workers: "map_of ?rates '''' = Some workers" by (cases "map_of rates []") (auto simp: update_conv')
      have "\<forall>m. m \<noteq> '''' \<longrightarrow> map_of (AList.update '''' (AList.update (mt_worker r) (mt_hashrate r) workers) ?rates) m = None"
        using rates by (simp add: update_conv')
      from Cons.IH [OF _ this] show ?thesis using Cons.prems(1) True workers by (simp add: Let_def)
    next
      case False
      then show ?thesis using rates by (simp add: Let_def)
    qed
  qed simp
  from this [OF assms(2), of "[]"] show ?thesis
    using assms(1) by (simp add: MinerWorkerHashrates_def bind_op_def sql_call_ok sql_query_ok)
qed


definition example_stat_row :: "string \<Rightarrow> int \<Rightarrow> minerstat_row" where
  "example_stat_row m t = \<lparr>mt_poolid = ''p'', mt_miner = m, mt_worker = ''rig'', mt_hashrate = Fin 7,
     mt_sharespersecond = Fin 1, mt_created = t\<rparr>"

theorem worker_hashrates_panic_witness:
  "snd (MinerWorkerHashrates ''p'' (example_stats [] [example_stat_row ''a'' 0]))
     = Panic (PanicText ''assignment to entry in nil map'')"
  by (rule worker_hashrates_panic) (simp_all add: latest_stats_def example_stat_row_def order_desc_def)

section \<open>A miner's report\<close>

lemma sql_query_calm:
  "no_faults d \<Longrightarrow> sql_query q d = (d\<lparr>db_faults := tl (db_faults d)\<rparr>, q (d\<lparr>db_faults := tl (db_faults d)\<rparr>))
    \<and> no_faults (d\<lparr>db_faults := tl (db_faults d)\<rparr>)"
  by (simp add: sql_query_ok)

lemma miner_accounts_value:
  assumes "no_faults d"
  shows "\<exists>accounts fs. miner_accounts poolID address d = (d\<lparr>db_faults := fs\<rparr>, Ok accounts) \<and> no_faults (d\<lparr>db_faults := fs\<rparr>)"
proof -
  have nf: "no_faults (d\<lparr>db_faults := tl (db_faults d)\<rparr>)" "no_faults (d\<lparr>db_faults := tl (tl (db_faults d))\<rparr>)"
    "no_faults (d\<lparr>db_faults := tl (tl (tl (db_faults d)))\<rparr>)" "no_faults (d\<lparr>db_faults := tl (tl (tl (tl (db_faults d))))\<rparr>)"
    using assms by (auto simp: no_faults_def dest!: in_set_tlD)
  show ?thesis using assms nf
    by (simp add: miner_accounts_def bind_op_def sql_query_ok MinerLastPayments_def try_op_def return_op_def)
      (intro exI [of _ "tl (tl (tl (tl (db_faults d))))"], simp)
qed

text \<open>
  C40. A miner's report lacks what its query found. A miner without a row of statistics, however
  many shares and coins it has, gets no report at all, only the error of an empty result; and
  one with fresh statistics gets a report whose pending shares are zero, because the part of
  the report that held them is made anew. They are reported only while the newest statistics
  are older than twenty minutes.
\<close>

theorem report_of_pending_shares:
  assumes "no_faults d"
    and "pg_sum (map sr_difficulty (filter (\<lambda>s. sr_poolid s = poolID \<and> sr_miner s = address) (db_shares d))) = Ok (Some pending)"
  shows "case order_desc mt_created (filter (\<lambda>r. mt_poolid r = poolID \<and> mt_miner r = address) (db_minerstats d)) of
      [] \<Rightarrow> snd (GetMinerStatsReport poolID address d) = Ok (None, Some sql_ErrNoRows)
    | newest # _ \<Rightarrow> \<exists>report. snd (GetMinerStatsReport poolID address d) = Ok (Some report, None)
        \<and> wr_PendingShares (mr_WorkersReport report)
          = (if mt_created newest < db_now d - 20 * minute then pending else 0)"
proof -
  let ?d = "d\<lparr>db_faults := tl (db_faults d)\<rparr>"
  have nf: "no_faults ?d" using assms(1) by simp
  obtain accounts fs where accounts: "miner_accounts poolID address ?d = (d\<lparr>db_faults := fs\<rparr>, Ok accounts)"
    "no_faults (d\<lparr>db_faults := fs\<rparr>)"
    using miner_accounts_value [OF nf, of poolID address] by auto
  let ?report = "zero_MinerReport\<lparr>mr_ChainAccounts := accounts,
      mr_WorkersReport := newWorkerReport\<lparr>wr_PendingShares := pending\<rparr>\<rparr>"
  have nf2: "no_faults (d\<lparr>db_faults := tl fs\<rparr>)" "no_faults (d\<lparr>db_faults := tl (tl fs)\<rparr>)" "no_faults (d\<lparr>db_faults := tl (tl (tl fs))\<rparr>)"
    using accounts(2) by (auto simp: no_faults_def dest!: in_set_tlD)
  have run: "snd (GetMinerStatsReport poolID address d)
      = (case snd (report_workers poolID address ?report (d\<lparr>db_faults := fs\<rparr>)) of
           Ok report \<Rightarrow> Ok (Some report, None) | Err e \<Rightarrow> Ok (None, Some e) | Panic p \<Rightarrow> Panic p)"
    using assms accounts(1)
    by (simp add: GetMinerStatsReport_def bind_op_def try_op_def sql_query_ok scan_not_null_def return_op_def
        split: prod.splits outcome.splits)
  show ?thesis
    unfolding run using accounts(2) nf2
    by (auto simp: report_workers_def LastStatUpdate_def GetMinerStatsByCreatedTime_def bind_op_def sql_call_ok sql_query_ok
        return_op_def minerStatWindow_def newWorkerReport_def split: list.splits)
qed

theorem report_of_pending_shares_witness:
  "snd (GetMinerStatsReport ''p'' ''a'' (example_stats [example_share_row ''a'' 0] [])) = Ok (None, Some sql_ErrNoRows)
   \<and> (\<exists>report. snd (GetMinerStatsReport ''p'' ''a'' (example_stats [example_share_row ''a'' 0] [example_stat_row ''a'' 0]))
        = Ok (Some report, None) \<and> wr_PendingShares (mr_WorkersReport report) = 0)"
proof -
  have sum: "pg_sum (map sr_difficulty (filter (\<lambda>s. sr_poolid s = ''p'' \<and> sr_miner s = ''a'')
      (db_shares (example_stats [example_share_row ''a'' 0] ms)))) = Ok (Some (Fin 2))" for ms
    by (simp add: pg_sum_def example_share_row_def)
  show ?thesis
    using report_of_pending_shares [OF _ sum [of "[]"]] report_of_pending_shares [OF _ sum [of "[example_stat_row ''a'' 0]"]]
    by (simp add: order_desc_def example_stat_row_def minute_def second_def)
qed

end
