(* ===== verification/ApiFacts.thy ===== *)
theory ApiFacts
  imports Api StatsFacts
begin

text \<open>
  What the API's pages show: the averages of the last 24 hours each in its hour, the workers of
  a miner with its balances on every chain.
\<close>

section \<open>Hours\<close>

lemma Hours_exact: "\<bar>i\<bar> \<le> 2 ^ 53 \<Longrightarrow> Hours (i * hour) = Fin (of_int i)"
proof -
  assume i: "\<bar>i\<bar> \<le> 2 ^ 53"
  have h: "0 < hour" by (simp add: hour_def minute_def second_def)
  have "go_quot (i * hour) hour = i"
    using h by (cases "0 \<le> i") (auto simp: go_quot_def mult_less_0_iff zero_le_mult_iff simp flip: mult_minus_left)
  then show ?thesis using i by (simp add: Hours_def flt_of_int_exact fl64_int)
qed

text \<open>The slot of an average of the hour \<open>i\<close> hours ago.\<close>

lemma fill_hour_slot:
  assumes "av_Created a = now - int i * hour" "int i \<le> 1000"
  shows "fill_hour now (rig, a) hs =
    (if 23 < i then Ok hs
     else bind_out (nth_out hs i) (\<lambda>stat.
       bind_out (floatToHashrate (av_AverageHashrate a)) (\<lambda>rate.
       Ok (hs[i := stat\<lparr>
         hs_HashRate := (hs_HashRate stat)\<lparr>hr_Raw := hr_Raw (hs_HashRate stat) + av_AverageHashrate a\<rparr>,
         hs_SharesPerSecond := hs_SharesPerSecond stat + av_AverageSharesPerSecond a,
         hs_Created := av_Created a,
         hs_Workers := AList.update rig \<lparr>rg_HashRate = rate, rg_SharesPerSecond = av_AverageSharesPerSecond a\<rparr>
           (hs_Workers stat)\<rparr>]))))"
proof -
  have h: "hour = 3600000000000" by (simp add: hour_def minute_def second_def)
  have "time_Sub now (av_Created a) = int i * hour"
    using assms by (simp add: time_Sub_def h)
  moreover have "truncate_flt (Hours (int i * hour)) = int i" using Hours_exact [of "int i"] assms(2) by simp
  ultimately show ?thesis by (simp add: fill_hour_def)
qed

text \<open>A rate the API can show.\<close>

definition shown :: "flt \<Rightarrow> bool" where "shown x \<longleftrightarrow> (\<exists>rate. floatToHashrate x = Ok rate)"

definition rate_of :: "flt \<Rightarrow> HashRate" where
  "rate_of x = (case floatToHashrate x of Ok rate \<Rightarrow> rate | _ \<Rightarrow> zero_HashRate)"

lemma shown_rate: "shown x \<Longrightarrow> floatToHashrate x = Ok (rate_of x)"
  by (auto simp: shown_def rate_of_def)

lemma floatToHashrate_raw: "floatToHashrate x = Ok rate \<Longrightarrow> hr_Raw rate = x \<or> (x = 0 \<and> hr_Raw rate = 0)"
  by (auto simp: floatToHashrate_def Let_def bind_out_eq_Ok zero_HashRate_def split: if_splits)

lemma rate_of_raw: "shown x \<Longrightarrow> hr_Raw (rate_of x) = x"
  using floatToHashrate_raw [OF shown_rate] by auto

definition rig_stat :: "MinerAverage \<Rightarrow> RigStat" where
  "rig_stat a = \<lparr>rg_HashRate = rate_of (av_AverageHashrate a), rg_SharesPerSecond = av_AverageSharesPerSecond a\<rparr>"

text \<open>The hour of an average, as the number of hours before \<open>now\<close>.\<close>

definition hours_ago :: "int \<Rightarrow> MinerAverage \<Rightarrow> nat" where
  "hours_ago now a = nat ((now - av_Created a) div hour)"

definition slotted :: "int \<Rightarrow> MinerAverage \<Rightarrow> bool" where
  "slotted now a \<longleftrightarrow> av_Created a = now - int (hours_ago now a) * hour \<and> hours_ago now a \<le> 1000"

lemma fill_hours_places:
  assumes "\<forall>p \<in> set ps. slotted now (snd p) \<and> (hours_ago now (snd p) < 24 \<longrightarrow> shown (av_AverageHashrate (snd p)))"
    and "length hs = 24" "\<forall>i < 24. hs_Created (hs ! i) = now - int i * hour"
    and "distinct (map (\<lambda>p. (fst p, hours_ago now (snd p))) ps)"
  shows "\<exists>hs'. fill_hours now ps hs = Ok hs' \<and> length hs' = 24 \<and> (\<forall>i < 24. hs_Created (hs' ! i) = now - int i * hour)
    \<and> (\<forall>i < 24. \<forall>rig. map_of (hs_Workers (hs' ! i)) rig
         = (case find (\<lambda>p. fst p = rig \<and> hours_ago now (snd p) = i) ps of
              Some p \<Rightarrow> Some (rig_stat (snd p)) | None \<Rightarrow> map_of (hs_Workers (hs ! i)) rig))"
  using assms
proof (induction ps arbitrary: hs)
  case (Cons p ps)
  obtain rig a where p: "p = (rig, a)" by fastforce
  define k where "k = hours_ago now a"
  have a: "av_Created a = now - int k * hour" "int k \<le> 1000"
    using Cons.prems(1) by (simp_all add: p slotted_def k_def)
  define hs1 where "hs1 = (if 23 < k then hs else hs[k := (hs ! k)\<lparr>
      hs_HashRate := (hs_HashRate (hs ! k))\<lparr>hr_Raw := hr_Raw (hs_HashRate (hs ! k)) + av_AverageHashrate a\<rparr>,
      hs_SharesPerSecond := hs_SharesPerSecond (hs ! k) + av_AverageSharesPerSecond a,
      hs_Created := av_Created a, hs_Workers := AList.update rig (rig_stat a) (hs_Workers (hs ! k))\<rparr>])"
  have "floatToHashrate (av_AverageHashrate a) = Ok (rate_of (av_AverageHashrate a))" if "\<not> 23 < k"
    using Cons.prems(1) that by (intro shown_rate) (simp add: p k_def)
  then have step: "fill_hour now (rig, a) hs = Ok hs1"
    using Cons.prems(2) unfolding fill_hour_slot [OF a] hs1_def by (simp add: nth_out_def rig_stat_def)
  have hs1: "length hs1 = 24" "\<forall>i < 24. hs_Created (hs1 ! i) = now - int i * hour"
    using Cons.prems(2,3) a(1) by (auto simp: hs1_def nth_list_update)
  have workers: "map_of (hs_Workers (hs1 ! i)) r
      = (if r = rig \<and> i = k then Some (rig_stat a) else map_of (hs_Workers (hs ! i)) r)" if "i < 24" for i r
    using Cons.prems(2) that by (auto simp: hs1_def nth_list_update update_conv')
  obtain hs' where hs': "fill_hours now ps hs1 = Ok hs'" "length hs' = 24" "\<forall>i < 24. hs_Created (hs' ! i) = now - int i * hour"
    "\<forall>i < 24. \<forall>rig. map_of (hs_Workers (hs' ! i)) rig
         = (case find (\<lambda>p. fst p = rig \<and> hours_ago now (snd p) = i) ps of
              Some p \<Rightarrow> Some (rig_stat (snd p)) | None \<Rightarrow> map_of (hs_Workers (hs1 ! i)) rig)"
    using Cons.IH [OF _ hs1] Cons.prems(1,4) by auto
  have none: "find (\<lambda>p. fst p = rig \<and> hours_ago now (snd p) = k) ps = None"
    using Cons.prems(4) by (force simp: find_None_iff p k_def image_iff)
  have "map_of (hs_Workers (hs' ! i)) r
      = (case find (\<lambda>p. fst p = r \<and> hours_ago now (snd p) = i) (p # ps) of
           Some p \<Rightarrow> Some (rig_stat (snd p)) | None \<Rightarrow> map_of (hs_Workers (hs ! i)) r)" if "i < 24" for i r
  proof (cases "rig = r \<and> k = i")
    case True
    then show ?thesis using hs'(4) that none workers [OF that] by (simp add: p k_def)
  next
    case False
    then show ?thesis using hs'(4) that workers [OF that] by (auto simp: p k_def split: option.split)
  qed
  then show ?case using hs' step by (auto simp: p)
qed simp

text \<open>An average in an hour that cannot be shown ends the handler.\<close>

lemma not_shown_panics: "\<not> shown x \<Longrightarrow> \<exists>p. floatToHashrate x = Panic p"
proof -
  have "size_at y \<noteq> Err e" for y e by (cases y) (auto simp: nth_out_def)
  then have "floatToHashrate x \<noteq> Err e" for e
    by (cases "size_at (floor_flt (math_Log x / math_Log (Fin 1000)))") (simp_all add: floatToHashrate_def Let_def)
  then show "\<not> shown x \<Longrightarrow> \<exists>p. floatToHashrate x = Panic p"
    unfolding shown_def by (cases "floatToHashrate x") auto
qed

lemma fill_hours_panics:
  assumes "\<forall>p \<in> set ps. slotted now (snd p)" "length hs = 24"
    and "\<exists>p \<in> set ps. hours_ago now (snd p) < 24 \<and> \<not> shown (av_AverageHashrate (snd p))"
  shows "\<exists>q. fill_hours now ps hs = Panic q"
  using assms
proof (induction ps arbitrary: hs)
  case (Cons p ps)
  obtain rig a where p: "p = (rig, a)" by fastforce
  have a: "av_Created a = now - int (hours_ago now a) * hour" "int (hours_ago now a) \<le> 1000"
    using Cons.prems(1) by (simp_all add: p slotted_def)
  show ?case
  proof (cases "hours_ago now a < 24 \<and> \<not> shown (av_AverageHashrate a)")
    case True
    then obtain q where "floatToHashrate (av_AverageHashrate a) = Panic q" using not_shown_panics by blast
    then show ?thesis using True Cons.prems(2) by (simp add: p fill_hour_slot [OF a] nth_out_def)
  next
    case False
    have "\<exists>hs1. fill_hour now (rig, a) hs = Ok hs1 \<and> length hs1 = 24"
      using False Cons.prems(2) shown_rate [of "av_AverageHashrate a"]
      by (auto simp: fill_hour_slot [OF a] nth_out_def)
    then obtain hs1 where hs1: "fill_hour now (rig, a) hs = Ok hs1" "length hs1 = 24" by blast
    have "\<exists>p \<in> set ps. hours_ago now (snd p) < 24 \<and> \<not> shown (av_AverageHashrate (snd p))"
      using Cons.prems(3) False by (auto simp: p)
    then have "\<exists>q. fill_hours now ps hs1 = Panic q" using Cons.IH [OF _ hs1(2)] Cons.prems(1) by simp
    then show ?thesis using hs1 by (simp add: p)
  qed
qed simp

section \<open>Hourly averages by worker\<close>

type_synonym average_row = "int \<times> string \<times> flt \<times> flt"

definition average_of :: "average_row \<Rightarrow> MinerAverage" where
  "average_of = (\<lambda>(created, worker, hashrate, shares). \<lparr>av_Worker = worker, av_Created = created,
     av_AverageHashrate = hashrate, av_AverageSharesPerSecond = shares\<rparr>)"

definition row_worker :: "average_row \<Rightarrow> string" where "row_worker = (\<lambda>(created, worker, hashrate, shares). worker)"

definition by_worker :: "average_row list \<Rightarrow> (string \<times> MinerAverage list) list" where
  "by_worker rows = fold (\<lambda>(created, worker, hashrate, shares) avgs.
     AList.update worker
       ((case map_of avgs worker of Some l \<Rightarrow> l | None \<Rightarrow> []) @
        [\<lparr>av_Worker = worker, av_Created = created, av_AverageHashrate = hashrate,
          av_AverageSharesPerSecond = shares\<rparr>]) avgs) rows []"

lemma by_worker_groups:
  "distinct (map fst (by_worker rows)) \<and> set (map fst (by_worker rows)) = row_worker ` set rows
    \<and> (\<forall>w. map_of (by_worker rows) w = (if w \<in> row_worker ` set rows
         then Some (map average_of (filter (\<lambda>r. row_worker r = w) rows)) else None))"
proof (induction rows rule: rev_induct)
  case (snoc r rows)
  obtain created worker hashrate shares where r: "r = (created, worker, hashrate, shares)" by (cases r)
  have step: "by_worker (rows @ [r]) = AList.update worker
      ((case map_of (by_worker rows) worker of Some l \<Rightarrow> l | None \<Rightarrow> []) @ [average_of r]) (by_worker rows)"
    by (simp add: by_worker_def r average_of_def)
  have w: "row_worker r = worker" by (simp add: row_worker_def r)
  have none: "filter (\<lambda>r. row_worker r = worker) rows = []" if "worker \<notin> row_worker ` set rows"
    using that by (auto simp: filter_empty_conv)
  show ?case
    using snoc by (auto simp: step w none distinct_update dom_update update_conv')
qed (simp add: by_worker_def)

text \<open>The pairs of a worker and an average in the order in which they are filled in.\<close>

definition history_pairs :: "(string list \<Rightarrow> string list) \<Rightarrow> average_row list \<Rightarrow> (string \<times> MinerAverage) list" where
  "history_pairs order rows =
     concat (map (\<lambda>(rigID, averages). map (Pair rigID) averages) (range_map order (by_worker rows)))"

lemma history_pairs_value:
  assumes "permutes_keys order"
  shows "\<exists>ws. distinct ws \<and> set ws = row_worker ` set rows
    \<and> history_pairs order rows = concat (map (\<lambda>w. map (\<lambda>r. (w, average_of r)) (filter (\<lambda>r. row_worker r = w) rows)) ws)"
proof -
  define ws where "ws = order (map fst (by_worker rows))"
  have ws: "distinct ws" "set ws = row_worker ` set rows"
    using assms by_worker_groups [of rows] unfolding ws_def permutes_keys_def by auto
  have "range_map order (by_worker rows) = map (\<lambda>w. (w, map average_of (filter (\<lambda>r. row_worker r = w) rows))) ws"
    using by_worker_groups [of rows] ws(2) unfolding range_map_def ws_def [symmetric] by auto
  then have "history_pairs order rows
      = concat (map (\<lambda>w. map (\<lambda>r. (w, average_of r)) (filter (\<lambda>r. row_worker r = w) rows)) ws)"
    by (simp add: history_pairs_def comp_def)
  then show ?thesis using ws by blast
qed

lemma image_by_key: "(\<Union>w \<in> f ` S. (\<lambda>r. (w, g r)) ` {r \<in> S. f r = w}) = (\<lambda>r. (f r, g r)) ` S"
proof (intro equalityI subsetI)
  fix x assume "x \<in> (\<Union>w \<in> f ` S. (\<lambda>r. (w, g r)) ` {r \<in> S. f r = w})"
  then obtain r where "r \<in> S" "x = (f r, g r)" by auto
  then show "x \<in> (\<lambda>r. (f r, g r)) ` S" by (rule image_eqI [rotated])
next
  fix x assume "x \<in> (\<lambda>r. (f r, g r)) ` S"
  then obtain r where "r \<in> S" "x = (f r, g r)" by auto
  then show "x \<in> (\<Union>w \<in> f ` S. (\<lambda>r. (w, g r)) ` {r \<in> S. f r = w})" by (intro UN_I [of "f r"]) auto
qed

lemma set_history_pairs:
  "permutes_keys order \<Longrightarrow> set (history_pairs order rows) = (\<lambda>r. (row_worker r, average_of r)) ` set rows"
proof -
  assume "permutes_keys order"
  then obtain ws where ws: "set ws = row_worker ` set rows"
    "history_pairs order rows = concat (map (\<lambda>w. map (\<lambda>r. (w, average_of r)) (filter (\<lambda>r. row_worker r = w) rows)) ws)"
    using history_pairs_value by blast
  have "set (history_pairs order rows) = (\<Union>w \<in> row_worker ` set rows. (\<lambda>r. (w, average_of r)) ` {r \<in> set rows. row_worker r = w})"
    unfolding ws(2) by (simp add: ws(1))
  also have "\<dots> = (\<lambda>r. (row_worker r, average_of r)) ` set rows" by (rule image_by_key)
  finally show ?thesis .
qed

lemma distinct_keyed_concat:
  assumes "distinct ws" "\<And>w. w \<in> set ws \<Longrightarrow> distinct (map f (g w)) \<and> (\<forall>x \<in> set (g w). fst (f x) = w)"
  shows "distinct (map f (concat (map g ws)))"
  using assms by (induction ws) (auto, metis)

lemma distinct_history_pairs:
  assumes "permutes_keys order" "distinct (map (\<lambda>r. (fst r, row_worker r)) rows)" "\<forall>r \<in> set rows. slotted now (average_of r)"
  shows "distinct (map (\<lambda>p. (fst p, hours_ago now (snd p))) (history_pairs order rows))"
proof -
  obtain ws where ws: "distinct ws"
    "history_pairs order rows = concat (map (\<lambda>w. map (\<lambda>r. (w, average_of r)) (filter (\<lambda>r. row_worker r = w) rows)) ws)"
    using history_pairs_value [OF assms(1)] by blast
  have created: "av_Created (average_of r) = fst r" for r by (cases r) (simp add: average_of_def)
  have "distinct (map (\<lambda>p. (fst p, hours_ago now (snd p))) (map (\<lambda>r. (w, average_of r)) (filter (\<lambda>r. row_worker r = w) rows)))" for w
  proof -
    have "inj_on (\<lambda>r. (w, hours_ago now (average_of r))) (set (filter (\<lambda>r. row_worker r = w) rows))"
    proof (rule inj_onI)
      fix r s assume rs: "r \<in> set (filter (\<lambda>r. row_worker r = w) rows)" "s \<in> set (filter (\<lambda>r. row_worker r = w) rows)"
        "(w, hours_ago now (average_of r)) = (w, hours_ago now (average_of s))"
      have "av_Created (average_of r) = av_Created (average_of s)"
        using rs assms(3) by (auto simp: slotted_def)
      then have "(fst r, row_worker r) = (fst s, row_worker s)" using rs(1,2) by (simp add: created)
      then show "r = s" using assms(2) rs(1,2) by (auto simp: distinct_map dest: inj_onD)
    qed
    then show ?thesis using assms(2) by (simp add: distinct_map comp_def)
  qed
  then show ?thesis unfolding ws(2) by (intro distinct_keyed_concat [OF ws(1)]) auto
qed

section \<open>A miner's history\<close>

lemma sql_query_value: "no_faults d \<Longrightarrow> q (d\<lparr>db_faults := tl (db_faults d)\<rparr>) = r
    \<Longrightarrow> sql_query q d = (d\<lparr>db_faults := tl (db_faults d)\<rparr>, r)"
  by (simp add: sql_query_ok)

lemma hourly_averages_value:
  assumes "no_faults d" "averages (\<lambda>r. hour_of (mt_created r)) (stats_between poolID miner start end d) = Ok avgs"
  shows "GetMinerHourlyAveragesBetween poolID miner start end d = (d\<lparr>db_faults := tl (db_faults d)\<rparr>, Ok (by_worker avgs))"
  unfolding GetMinerHourlyAveragesBetween_def
  by (rule sql_query_value [OF assms(1)])
    (use assms(2) in \<open>simp add: stats_between_def by_worker_def\<close>)

lemma traverse_length_map:
  assumes "traverse f xs = Ok ys" "\<And>x y. x \<in> set xs \<Longrightarrow> f x = Ok y \<Longrightarrow> g y = h x"
  shows "map g ys = map h xs"
  using assms by (induction xs arbitrary: ys) (auto simp: bind_out_eq_Ok)

lemma averages_keys:
  assumes "averages slot rows = Ok avgs"
  shows "distinct (map (\<lambda>r. (fst r, row_worker r)) avgs)"
    and "set (map fst avgs) = slot ` set rows"
proof -
  let ?ks = "sort_key fst (remdups (map (\<lambda>r. (slot r, mt_worker r)) rows))"
  have "map (\<lambda>r. (fst r, row_worker r)) avgs = map (\<lambda>k. k) ?ks"
    using assms unfolding averages_def
    by (rule traverse_length_map) (auto simp: bind_out_eq_Ok row_worker_def Let_def)
  then have keys: "map (\<lambda>r. (fst r, row_worker r)) avgs = ?ks" by simp
  then show "distinct (map (\<lambda>r. (fst r, row_worker r)) avgs)" by simp
  have "map fst avgs = map fst ?ks" unfolding keys [symmetric] by simp
  then show "set (map fst avgs) = slot ` set rows" by force
qed

lemma averages_slotted:
  assumes "averages (\<lambda>r. hour_of (mt_created r)) rows = Ok avgs"
    and "\<forall>r \<in> set rows. mt_created r \<le> now \<and> now - 24 * hour - 500 \<le> mt_created r"
  shows "\<forall>r \<in> set avgs. slotted (hour_of now) (average_of r)
    \<and> (\<forall>i. hours_ago (hour_of now) (average_of r) = i \<longleftrightarrow> fst r = hour_of now - int i * hour)"
proof
  fix r assume r: "r \<in> set avgs"
  have h: "0 < hour" "500 \<le> hour" by (simp_all add: hour_def minute_def second_def)
  have "fst r \<in> (\<lambda>r. hour_of (mt_created r)) ` set rows" using averages_keys(2) [OF assms(1)] r by auto
  then obtain t where t: "fst r = hour_of t" "t \<le> now" "now - 24 * hour - 500 \<le> t" using assms(2) by auto
  define n where "n = now div hour - t div hour"
  have "0 \<le> n" using t(2) h zdiv_mono1 by (simp add: n_def)
  have "now div hour - 26 \<le> t div hour"
  proof -
    have "now - 26 * hour \<le> t" using t(3) h by linarith
    then have "(now - 26 * hour) div hour \<le> t div hour" using h zdiv_mono1 by blast
    then show ?thesis using h by (simp add: diff_mult_distrib [symmetric] flip: uminus_add_conv_diff mult_minus_left)
  qed
  then have n: "0 \<le> n" "n \<le> 26" using \<open>0 \<le> n\<close> by (simp_all add: n_def)
  have diff: "hour_of now - fst r = n * hour" by (simp add: t(1) hour_of_def n_def algebra_simps)
  have created: "av_Created (average_of r) = fst r" by (cases r) (simp add: average_of_def)
  have ago: "hours_ago (hour_of now) (average_of r) = nat n"
    using h by (simp add: hours_ago_def created diff)
  have "fst r = hour_of now - int i * hour \<longleftrightarrow> nat n = i" for i
  proof -
    have "fst r = hour_of now - int i * hour \<longleftrightarrow> n * hour = int i * hour" using diff by linarith
    then show ?thesis using h n by auto
  qed
  then show "slotted (hour_of now) (average_of r)
      \<and> (\<forall>i. hours_ago (hour_of now) (average_of r) = i \<longleftrightarrow> fst r = hour_of now - int i * hour)"
    using n diff by (auto simp: slotted_def created ago)
qed

lemma pg_time_near: "\<bar>pg_time t - t\<bar> \<le> 500"
proof -
  have "\<bar>of_int (round_even (of_int t / 1000)) - of_int t / 1000\<bar> \<le> (1 / 2 :: rat)" by (rule round_even_nearest)
  then have "\<bar>(of_int (round_even (of_int t / 1000) * 1000 - t) :: rat)\<bar> \<le> of_int 500" by (simp add: abs_le_iff field_simps)
  then have "\<bar>round_even (of_int t / 1000) * 1000 - t\<bar> \<le> 500" by (simp only: of_int_abs [symmetric] of_int_le_iff)
  then show ?thesis by (simp add: pg_time_def)
qed

lemma find_transfer:
  assumes "(\<exists>x \<in> set xs. P x) \<longleftrightarrow> (\<exists>y \<in> set ys. Q y)"
    and "\<And>x y. x \<in> set xs \<Longrightarrow> P x \<Longrightarrow> y \<in> set ys \<Longrightarrow> Q y \<Longrightarrow> f x = g y"
  shows "map_option f (find P xs) = map_option g (find Q ys)"
proof (cases "find P xs")
  case None
  then have "find Q ys = None" using assms(1) by (auto simp: find_None_iff)
  then show ?thesis using None by simp
next
  case (Some x)
  then have x: "x \<in> set xs" "P x" by (auto simp: find_Some_iff)
  then have "find Q ys \<noteq> None" using assms(1) by (auto simp: find_None_iff)
  then obtain y where y: "find Q ys = Some y" by blast
  then have "y \<in> set ys" "Q y" by (auto simp: find_Some_iff)
  then show ?thesis using assms(2) [OF x] Some y by simp
qed

text \<open>The worker's entry of an hour is found among the averages by its hour and its name.\<close>

definition in_slots :: "int \<Rightarrow> average_row list \<Rightarrow> bool" where
  "in_slots now avgs \<longleftrightarrow> (\<forall>r \<in> set avgs. slotted now (average_of r)
     \<and> (\<forall>i. hours_ago now (average_of r) = i \<longleftrightarrow> fst r = now - int i * hour))"

lemma in_slots_recent:
  assumes "in_slots now avgs" "r \<in> set avgs"
  shows "hours_ago now (average_of r) < 24 \<longleftrightarrow> now - 24 * hour < fst r"
proof -
  have h: "0 < hour" by (simp add: hour_def minute_def second_def)
  define k where "k = hours_ago now (average_of r)"
  have "fst r = now - int k * hour" using bspec [OF assms(1) [unfolded in_slots_def] assms(2)] k_def by blast
  then show ?thesis using h by (simp add: k_def [symmetric])
qed

lemma in_slots_pairs:
  assumes "in_slots now avgs" "permutes_keys order"
  shows "(\<exists>p \<in> set (history_pairs order avgs). fst p = w \<and> hours_ago now (snd p) = i)
    \<longleftrightarrow> (\<exists>r \<in> set avgs. row_worker r = w \<and> fst r = now - int i * hour)"
proof -
  have "(\<exists>p \<in> set (history_pairs order avgs). fst p = w \<and> hours_ago now (snd p) = i)
      \<longleftrightarrow> (\<exists>r \<in> set avgs. row_worker r = w \<and> hours_ago now (average_of r) = i)"
    by (simp add: set_history_pairs [OF assms(2)])
  also have "\<dots> \<longleftrightarrow> (\<exists>r \<in> set avgs. row_worker r = w \<and> fst r = now - int i * hour)"
    using assms(1) by (intro bex_cong) (simp_all add: in_slots_def)
  finally show ?thesis .
qed

lemma history_found:
  assumes slot: "in_slots now avgs" and order: "permutes_keys order" and avgs: "averages slot rows = Ok avgs"
  shows "map_option (\<lambda>p. rig_stat (snd p)) (find (\<lambda>p. fst p = w \<and> hours_ago now (snd p) = i) (history_pairs order avgs))
    = map_option (\<lambda>(created, worker, rate, shares). \<lparr>rg_HashRate = rate_of rate, rg_SharesPerSecond = shares\<rparr>)
        (find (\<lambda>(created, worker, rate, shares). worker = w \<and> created = now - int i * hour) avgs)"
proof (rule find_transfer)
  have "(case r of (created, worker, rate, shares) \<Rightarrow> worker = w \<and> created = c) \<longleftrightarrow> row_worker r = w \<and> fst r = c"
    for r :: average_row and c by (cases r) (simp add: row_worker_def)
  then show "(\<exists>p \<in> set (history_pairs order avgs). fst p = w \<and> hours_ago now (snd p) = i)
      \<longleftrightarrow> (\<exists>r \<in> set avgs. case r of (created, worker, rate, shares) \<Rightarrow> worker = w \<and> created = now - int i * hour)"
    using in_slots_pairs [OF slot order] by simp
next
  fix p r
  assume p: "p \<in> set (history_pairs order avgs)" "fst p = w \<and> hours_ago now (snd p) = i"
    and r: "r \<in> set avgs" "case r of (created, worker, rate, shares) \<Rightarrow> worker = w \<and> created = now - int i * hour"
  obtain q where q: "q \<in> set avgs" "p = (row_worker q, average_of q)" using p(1) set_history_pairs [OF order] by auto
  have "(fst q, row_worker q) = (fst r, row_worker r)"
    using p(2) r(2) q bspec [OF slot [unfolded in_slots_def] q(1)] by (auto simp: row_worker_def split: prod.splits)
  then have "q = r" using averages_keys(1) [OF avgs] q(1) r(1) by (auto simp: distinct_map dest: inj_onD)
  then show "rig_stat (snd p) = (case r of (created, worker, rate, shares) \<Rightarrow> \<lparr>rg_HashRate = rate_of rate, rg_SharesPerSecond = shares\<rparr>)"
    by (simp add: q(2) rig_stat_def average_of_def split: prod.split)
qed

lemma stats_in_slots:
  fixes d :: "'z stats_db_scheme"
  assumes "stats_between poolID miner (db_now d - 24 * hour) (db_now d) d = rows" "\<forall>r \<in> set rows. mt_created r \<le> db_now d"
    and "averages (\<lambda>r. hour_of (mt_created r)) rows = Ok avgs"
  shows "in_slots (hour_of (db_now d)) avgs"
proof -
  have "\<forall>r \<in> set rows. mt_created r \<le> db_now d \<and> db_now d - 24 * hour - 500 \<le> mt_created r"
  proof
    fix r assume r: "r \<in> set rows"
    then have "pg_time (db_now d - 24 * hour) \<le> mt_created r" using assms(1) by (auto simp: stats_between_def)
    then show "mt_created r \<le> db_now d \<and> db_now d - 24 * hour - 500 \<le> mt_created r"
      using assms(2) r pg_time_near [of "db_now d - 24 * hour"] by auto
  qed
  from averages_slotted [OF assms(3) this] show ?thesis by (simp add: in_slots_def)
qed

lemma history_run:
  assumes "no_faults d" "averages (\<lambda>r. hour_of (mt_created r)) (stats_between poolID miner (db_now d - 24 * hour) (db_now d) d) = Ok avgs"
  shows "snd (getMinerHistory order poolID miner d)
    = bind_out (fill_hours (hour_of (db_now d)) (history_pairs order avgs) (empty_hours (hour_of (db_now d))))
        (\<lambda>hs. Ok (Some (rev hs)))"
  unfolding getMinerHistory_def Let_def bind_op_def try_op_def hourly_averages_value [OF assms] lift_op_def
  by (cases "fill_hours (hour_of (db_now d)) (history_pairs order avgs) (empty_hours (hour_of (db_now d)))")
    (simp_all add: return_op_def history_pairs_def)

text \<open>
  C25. A miner's history shows each hour of the last day in its place. It has one entry for each
  of the last 24 hours, oldest first, and in it, under the name of each worker with statistics
  in that hour, the average of its hashrates; older statistics are left out. If an average of
  these hours cannot be shown, as one between 0 and 1, the handler panics and nothing is.
\<close>

theorem miner_history_by_hour:
  fixes d :: "'z stats_db_scheme"
  defines "now \<equiv> hour_of (db_now d)"
  assumes "no_faults d" "permutes_keys order"
    and rows: "stats_between poolID miner (db_now d - 24 * hour) (db_now d) d = rows"
      "\<forall>r \<in> set rows. mt_created r \<le> db_now d"
    and avgs: "averages (\<lambda>r. hour_of (mt_created r)) rows = Ok avgs"
  shows "if \<forall>(created, worker, rate, shares) \<in> set avgs. now - 24 * hour < created \<longrightarrow> shown rate
    then \<exists>hs. snd (getMinerHistory order poolID miner d) = Ok (Some hs) \<and> length hs = 24
      \<and> (\<forall>i < 24. hs_Created (hs ! (23 - i)) = now - int i * hour
           \<and> (\<forall>w. map_of (hs_Workers (hs ! (23 - i))) w
                = map_option (\<lambda>(created, worker, rate, shares). \<lparr>rg_HashRate = rate_of rate, rg_SharesPerSecond = shares\<rparr>)
                    (find (\<lambda>(created, worker, rate, shares). worker = w \<and> created = now - int i * hour) avgs)))
    else is_panic (snd (getMinerHistory order poolID miner d))"
proof -
  note slots = stats_in_slots [OF rows avgs, folded now_def]
  have slot: "\<forall>r \<in> set avgs. slotted now (average_of r)" using slots by (simp add: in_slots_def)
  note recent = in_slots_recent [OF slots]
  let ?ps = "history_pairs order avgs"
  have ps: "set ?ps = (\<lambda>r. (row_worker r, average_of r)) ` set avgs" using set_history_pairs [OF assms(3)] .
  have run: "snd (getMinerHistory order poolID miner d) = bind_out (fill_hours now ?ps (empty_hours now)) (\<lambda>hs. Ok (Some (rev hs)))"
    using history_run [OF assms(2)] rows(1) avgs unfolding now_def by simp
  have rate: "av_AverageHashrate (average_of r) = fst (snd (snd r))" for r by (cases r) (simp add: average_of_def)
  have empty: "length (empty_hours now) = 24" "\<forall>i < 24. hs_Created (empty_hours now ! i) = now - int i * hour"
    "\<forall>i < 24. hs_Workers (empty_hours now ! i) = []"
    by (simp_all add: empty_hours_def mult.commute)
  show ?thesis
  proof (cases "\<forall>(created, worker, rate, shares) \<in> set avgs. now - 24 * hour < created \<longrightarrow> shown rate")
    case True
    then have "\<forall>p \<in> set ?ps. slotted now (snd p) \<and> (hours_ago now (snd p) < 24 \<longrightarrow> shown (av_AverageHashrate (snd p)))"
      using slot recent by (fastforce simp: ps rate)
    from fill_hours_places [OF this empty(1,2) distinct_history_pairs [OF assms(3) averages_keys(1) [OF avgs] slot]]
    obtain hs where hs: "fill_hours now ?ps (empty_hours now) = Ok hs" "length hs = 24"
      "\<forall>i < 24. hs_Created (hs ! i) = now - int i * hour"
      "\<forall>i < 24. \<forall>w. map_of (hs_Workers (hs ! i)) w
         = (case find (\<lambda>p. fst p = w \<and> hours_ago now (snd p) = i) ?ps of
              Some p \<Rightarrow> Some (rig_stat (snd p)) | None \<Rightarrow> map_of (hs_Workers (empty_hours now ! i)) w)"
      by blast
    have workers: "map_of (hs_Workers (hs ! i)) w
        = map_option (\<lambda>p. rig_stat (snd p)) (find (\<lambda>p. fst p = w \<and> hours_ago now (snd p) = i) ?ps)" if "i < 24" for i w
      using hs(4) empty(3) that
      by (cases "find (\<lambda>p. fst p = w \<and> hours_ago now (snd p) = i) ?ps") (simp_all add: map_option_case)
    have "rev hs ! (23 - i) = hs ! i" if "i < 24" for i
      using that hs(2) by (simp add: rev_nth)
    then have res: "length (rev hs) = 24 \<and> (\<forall>i < 24. hs_Created (rev hs ! (23 - i)) = now - int i * hour
        \<and> (\<forall>w. map_of (hs_Workers (rev hs ! (23 - i))) w
             = map_option (\<lambda>(created, worker, rate, shares). \<lparr>rg_HashRate = rate_of rate, rg_SharesPerSecond = shares\<rparr>)
                 (find (\<lambda>(created, worker, rate, shares). worker = w \<and> created = now - int i * hour) avgs)))"
      using hs(2,3) workers history_found [OF slots assms(3) avgs] by simp
    show ?thesis unfolding if_P [OF True] run hs(1) bind_out.simps by (rule exI) (rule conjI [OF refl res])
  next
    case False
    then have "\<exists>p \<in> set ?ps. hours_ago now (snd p) < 24 \<and> \<not> shown (av_AverageHashrate (snd p))"
      using recent by (fastforce simp: ps rate)
    moreover have "\<forall>p \<in> set ?ps. slotted now (snd p)" using slot by (auto simp: ps)
    ultimately obtain q where "fill_hours now ?ps (empty_hours now) = Panic q"
      using fill_hours_panics [OF _ empty(1)] by blast
    then show ?thesis unfolding if_not_P [OF False] run by simp
  qed
qed


theorem miner_history_by_hour_witness:
  "\<exists>hs. snd (getMinerHistory rev ''p'' ''a'' (example_stats [] [example_stat_row ''a'' 0])) = Ok (Some hs)
     \<and> hs_Created (hs ! 23) = 0
     \<and> map_of (hs_Workers (hs ! 23)) ''rig'' = Some \<lparr>rg_HashRate = rate_of (Fin 7), rg_SharesPerSecond = Fin 1\<rparr>"
proof -
  let ?d = "example_stats [] [example_stat_row ''a'' 0]"
  have rows: "stats_between ''p'' ''a'' (db_now ?d - 24 * hour) (db_now ?d) ?d = [example_stat_row ''a'' 0]"
    by code_simp
  have avgs: "averages (\<lambda>r. hour_of (mt_created r)) [example_stat_row ''a'' 0] = Ok [(0, ''rig'', Fin 7, Fin 1)]"
    by code_simp
  have "shown (Fin 7)"
    using floatToHashrate_shows [of 7] is64_dyadic [of 7 0] by (auto simp: shown_def)
  moreover have "hour_of (db_now ?d) = 0" by (simp add: hour_of_def hour_def minute_def second_def)
  ultimately show ?thesis
    using miner_history_by_hour [OF _ permutes_keys_examples(2) rows _ avgs] by (force simp: example_stat_row_def)
qed


section \<open>A miner's dashboard\<close>

lemma padZeros_value:
  "map_of (padZeros balances cs) c = (case map_of balances c of Some x \<Rightarrow> Some x | None \<Rightarrow> if c \<in> set cs then Some 0 else None)"
proof (induction cs arbitrary: balances)
  case (Cons k cs)
  have "padZeros balances (k # cs)
      = padZeros (if map_of balances k = None then AList.update k 0 balances else balances) cs" by (simp add: padZeros_def)
  then show ?case using Cons.IH by (auto simp: update_conv' split: option.split)
qed (simp add: padZeros_def split: option.split)

text \<open>The workers seen in the last week.\<close>

definition seen_rows :: "string \<Rightarrow> 'z db_scheme \<Rightarrow> (string \<times> int) list" where
  "seen_rows miner d =
     (let rows = filter (\<lambda>s. sr_miner s = miner) (db_shares d);
          newest = (\<lambda>worker. Max (set (map sr_created (filter (\<lambda>s. sr_worker s = worker) rows))))
      in filter (\<lambda>(_, seen). pg_time (db_now d) - 7 * 24 * hour \<le> seen)
           (map (\<lambda>worker. (worker, newest worker)) (remdups (map sr_worker rows))))"

definition seen_stat :: "int \<Rightarrow> int \<Rightarrow> WorkerStat" where
  "seen_stat now seen = zero_WorkerStat\<lparr>
     wk_Status := (if Fin 10 \<le> Minutes (time_Sub now seen) then ''Inactive'' else ''Active''), wk_LastSeen := seen\<rparr>"

definition seen_workers :: "string \<Rightarrow> 'z db_scheme \<Rightarrow> (string \<times> WorkerStat) list" where
  "seen_workers miner d = fold (\<lambda>(worker, seen). AList.update worker (seen_stat (db_now d) seen)) (seen_rows miner d) []"

lemma seen_workers_fold:
  "seen_workers miner d = fold (\<lambda>x. AList.update (fst x) (seen_stat (db_now d) (snd x))) (seen_rows miner d) []"
  by (simp add: seen_workers_def split_beta')

lemma seen_faults [simp]: "seen_rows miner (d\<lparr>db_faults := fs\<rparr>) = seen_rows miner d"
  "seen_workers miner (d\<lparr>db_faults := fs\<rparr>) = seen_workers miner d"
  by (simp_all add: seen_rows_def seen_workers_def)

lemma last_seen_value:
  assumes "no_faults d"
  shows "GetWorkersLastSeen poolID miner d
    = (d\<lparr>db_faults := tl (db_faults d)\<rparr>, Ok (newWorkerReport\<lparr>wr_Workers := seen_workers miner d\<rparr>))"
  using assms
  by (simp add: GetWorkersLastSeen_def bind_op_def try_op_def sql_query_ok return_op_def seen_rows_def seen_workers_def
      seen_stat_def Let_def)

lemma fold_update_keys:
  "distinct (map fst al) \<Longrightarrow> distinct (map fst (fold (\<lambda>x. AList.update (g x) (h x)) xs al))
    \<and> set (map fst (fold (\<lambda>x. AList.update (g x) (h x)) xs al)) = set (map fst al) \<union> g ` set xs"
proof (induction xs arbitrary: al)
  case (Cons x xs)
  then show ?case by (auto simp: distinct_update dom_update)
qed simp

lemma fold_update_values:
  assumes "\<forall>p \<in> set al. P (snd p)" "\<forall>x \<in> set xs. P (h x)"
  shows "\<forall>p \<in> set (fold (\<lambda>x. AList.update (g x) (h x)) xs al). P (snd p)"
  using assms
proof (induction xs arbitrary: al)
  case (Cons x xs)
  have "set (AList.update (g x) (h x) al) \<subseteq> insert (g x, h x) (set al)" by (induction al) auto
  then have "\<forall>p \<in> set (AList.update (g x) (h x) al). P (snd p)" using Cons.prems by auto
  then show ?case using Cons by simp
qed simp

lemma fold_update_length: "length (fold (\<lambda>x. AList.update (g x) (h x)) xs []) \<le> length xs"
proof -
  let ?m = "fold (\<lambda>x. AList.update (g x) (h x)) xs []"
  have "length ?m = card (g ` set xs)"
    using fold_update_keys [of "[]" g h xs] distinct_card [of "map fst ?m"] by simp
  also have "\<dots> \<le> length xs" using card_image_le [of "set xs" g] card_length [of xs] by simp
  finally show ?thesis .
qed

lemma seen_workers_facts:
  "distinct (map fst (seen_workers miner d)) \<and> set (map fst (seen_workers miner d)) = fst ` set (seen_rows miner d)
    \<and> (\<forall>p \<in> set (seen_workers miner d). wk_Status (snd p) = ''Active'' \<or> wk_Status (snd p) = ''Inactive'')"
proof -
  have "wk_Status (seen_stat now seen) = ''Active'' \<or> wk_Status (seen_stat now seen) = ''Inactive''" for now seen
    by (simp add: seen_stat_def)
  then have "\<forall>p \<in> set (seen_workers miner d). wk_Status (snd p) = ''Active'' \<or> wk_Status (snd p) = ''Inactive''"
    unfolding seen_workers_fold by (intro fold_update_values) simp_all
  then show ?thesis
    using fold_update_keys [of "[]" fst "\<lambda>x. seen_stat (db_now d) (snd x)" "seen_rows miner d"] by (simp add: seen_workers_fold)
qed


text \<open>Rates as the statistics service writes them: whole numbers, and not too large to add up exactly.\<close>

definition whole_rate :: "flt \<Rightarrow> bool" where "whole_rate x \<longleftrightarrow> (\<exists>n \<le> (2 :: nat) ^ 40. x = Fin (of_nat n))"

definition whole_stats :: "string \<Rightarrow> string \<Rightarrow> 'z stats_db_scheme \<Rightarrow> bool" where
  "whole_stats poolID miner d \<longleftrightarrow>
     (\<forall>r \<in> set (db_minerstats d). mt_poolid r = poolID \<and> mt_miner r = miner \<longrightarrow> whole_rate (mt_hashrate r))
     \<and> (\<forall>t. length (filter (\<lambda>r. mt_poolid r = poolID \<and> mt_miner r = miner \<and> mt_created r = t) (db_minerstats d)) \<le> 2 ^ 12)"

definition without_report :: "string \<Rightarrow> string \<Rightarrow> 'z stats_db_scheme \<Rightarrow> bool" where
  "without_report poolID miner d \<longleftrightarrow>
     (\<exists>pending. pg_sum (map sr_difficulty (filter (\<lambda>s. sr_poolid s = poolID \<and> sr_miner s = miner) (db_shares d))) = Ok (Some pending))
     \<and> filter (\<lambda>r. mt_poolid r = poolID \<and> mt_miner r = miner) (db_minerstats d) = []"

definition whole_report :: "MinerReport \<Rightarrow> bool" where
  "whole_report r \<longleftrightarrow> (let ws = wr_Workers (mr_WorkersReport r)
     in distinct (map fst ws) \<and> length ws \<le> 2 ^ 12 \<and> (\<forall>p \<in> set ws. whole_rate (wk_Hashrate (snd p))))"

lemma faults_irrelevant [simp]:
  "whole_stats poolID miner (d\<lparr>db_faults := fs\<rparr>) = whole_stats poolID miner d"
  "without_report poolID miner (d\<lparr>db_faults := fs\<rparr>) = without_report poolID miner d"
  by (simp_all add: whole_stats_def without_report_def)

lemma whole_empty: "whole_report (r\<lparr>mr_ChainAccounts := a, mr_WorkersReport := newWorkerReport\<lparr>wr_PendingShares := x\<rparr>\<rparr>)" "whole_report zero_MinerReport"
  by (simp_all add: whole_report_def newWorkerReport_def zero_MinerReport_def)

lemma order_desc_Nil: "order_desc f xs = [] \<longleftrightarrow> xs = []"
  unfolding order_desc_def by (metis length_0_conv length_sort)

lemma report_workers_value:
  fixes d :: "'z stats_db_scheme"
  assumes "no_faults d" "whole_stats poolID miner d" "whole_report report"
  shows "\<exists>fs r. report_workers poolID miner report d = (d\<lparr>db_faults := fs\<rparr>, r) \<and> no_faults (d\<lparr>db_faults := fs\<rparr>)
    \<and> (if filter (\<lambda>r. mt_poolid r = poolID \<and> mt_miner r = miner) (db_minerstats d) = [] then r = Err sql_ErrNoRows
       else \<exists>report. r = Ok report \<and> whole_report report)"
proof -
  have nf: "no_faults (d\<lparr>db_faults := tl (db_faults d)\<rparr>)" "no_faults (d\<lparr>db_faults := tl (tl (db_faults d))\<rparr>)"
    "no_faults (d\<lparr>db_faults := tl (tl (tl (db_faults d)))\<rparr>)" "no_faults (d\<lparr>db_faults := tl (tl (tl (tl (db_faults d))))\<rparr>)"
    using assms(1) by (auto simp: no_faults_def dest!: in_set_tlD)
  let ?rows = "filter (\<lambda>r. mt_poolid r = poolID \<and> mt_miner r = miner) (db_minerstats d)"
  show ?thesis
  proof (cases "order_desc mt_created ?rows")
    case Nil
    then have "?rows = []" by (simp only: order_desc_Nil)
    then show ?thesis using Nil assms(1) nf
      by (intro exI [of _ "tl (tl (db_faults d))"])
        (simp add: report_workers_def LastStatUpdate_def bind_op_def sql_call_ok sql_query_ok)
  next
    case (Cons newest rest)
    then have "?rows \<noteq> []" using order_desc_Nil [of mt_created ?rows] by auto
    let ?t = "mt_created newest"
    define stats where "stats = map scan_minerstat
      (filter (\<lambda>r. mt_poolid r = poolID \<and> mt_miner r = miner \<and> mt_created r = pg_time ?t) (db_minerstats d))"
    let ?stat = "\<lambda>stat. zero_WorkerStat\<lparr>wk_Worker := mn_Worker stat, wk_Hashrate := mn_Hashrate stat,
      wk_SharesPerSecond := mn_SharesPerSecond stat\<rparr>"
    let ?ws = "fold (\<lambda>stat. AList.update (mn_Worker stat) (?stat stat)) stats []"
    let ?new = "report\<lparr>mr_Created := ?t, mr_WorkersReport := newWorkerReport\<lparr>wr_Workers := ?ws\<rparr>\<rparr>"
    have "\<forall>s \<in> set stats. whole_rate (wk_Hashrate (?stat s))"
      using assms(2) by (auto simp: stats_def whole_stats_def scan_minerstat_def)
    then have "\<forall>p \<in> set ?ws. whole_rate (wk_Hashrate (snd p))" by (intro fold_update_values) simp_all
    moreover have "length ?ws \<le> 2 ^ 12"
      using fold_update_length [of mn_Worker ?stat stats] assms(2) unfolding whole_stats_def stats_def by (fastforce intro: order_trans)
    ultimately have new: "whole_report ?new"
      using fold_update_keys [of "[]" mn_Worker ?stat stats] by (simp add: whole_report_def newWorkerReport_def)
    have run: "report_workers poolID miner report d
      = (if ?t < db_now d - minerStatWindow * minute then (d\<lparr>db_faults := tl (tl (db_faults d))\<rparr>, Ok report)
         else (d\<lparr>db_faults := tl (tl (tl (tl (db_faults d))))\<rparr>, Ok ?new))"
      using Cons assms(1) nf
      by (simp add: report_workers_def LastStatUpdate_def GetMinerStatsByCreatedTime_def bind_op_def sql_call_ok sql_query_ok
        return_op_def stats_def)
    show ?thesis using run new nf assms(3) \<open>?rows \<noteq> []\<close> by auto
  qed
qed

lemma pg_sum_no_panic: "pg_sum xs \<noteq> Panic p"
proof -
  have add: "pg_add a x \<noteq> Panic q" for a x q by (simp add: pg_add_def pg_range_def)
  have "pg_sum_from acc xs \<noteq> Panic q" for acc xs q
  proof (induction xs arbitrary: acc)
    case (Cons x xs)
    then show ?case using add [of acc x] by (cases "pg_add acc x") simp_all
  qed simp
  then show ?thesis by (cases xs) (simp_all add: pg_sum_def, metis bind_out.simps outcome.distinct(3) outcome.exhaust outcome.distinct(5) outcome.inject)
qed


lemma report_value:
  fixes d :: "'z stats_db_scheme"
  assumes "no_faults d" "whole_stats poolID miner d"
  shows "\<exists>fs rep err. GetMinerStatsReport poolID miner d = (d\<lparr>db_faults := fs\<rparr>, Ok (rep, err)) \<and> no_faults (d\<lparr>db_faults := fs\<rparr>)
    \<and> (if without_report poolID miner d then rep = None else \<exists>report. rep = Some report \<and> whole_report report)"
proof -
  let ?d = "d\<lparr>db_faults := tl (db_faults d)\<rparr>"
  let ?sum = "pg_sum (map sr_difficulty (filter (\<lambda>s. sr_poolid s = poolID \<and> sr_miner s = miner) (db_shares d)))"
  have nf: "no_faults ?d" using assms(1) by simp
  show ?thesis
  proof (cases "\<exists>pending. ?sum = Ok (Some pending)")
    case True
    then obtain pending where pending: "?sum = Ok (Some pending)" by blast
    obtain accounts fs where accounts: "miner_accounts poolID miner ?d = (d\<lparr>db_faults := fs\<rparr>, Ok accounts)" "no_faults (d\<lparr>db_faults := fs\<rparr>)"
      using miner_accounts_value [OF nf, of poolID miner] by auto
    let ?report = "zero_MinerReport\<lparr>mr_ChainAccounts := accounts, mr_WorkersReport := newWorkerReport\<lparr>wr_PendingShares := pending\<rparr>\<rparr>"
    have whole: "whole_report ?report" by (rule whole_empty)
    have "whole_stats poolID miner (d\<lparr>db_faults := fs\<rparr>)" using assms(2) by simp
    from report_workers_value [OF accounts(2) this whole]
    obtain gs r where workers: "report_workers poolID miner ?report (d\<lparr>db_faults := fs\<rparr>) = (d\<lparr>db_faults := gs\<rparr>, r)"
      "no_faults (d\<lparr>db_faults := gs\<rparr>)"
      "if filter (\<lambda>r. mt_poolid r = poolID \<and> mt_miner r = miner) (db_minerstats d) = [] then r = Err sql_ErrNoRows
       else \<exists>report. r = Ok report \<and> whole_report report" by auto
    have run: "GetMinerStatsReport poolID miner d = (d\<lparr>db_faults := gs\<rparr>,
        case r of Ok report \<Rightarrow> Ok (Some report, None) | Err e \<Rightarrow> Ok (None, Some e) | Panic p \<Rightarrow> Panic p)"
      using assms(1) pending accounts(1) workers(1)
      by (simp add: GetMinerStatsReport_def bind_op_def try_op_def sql_query_ok scan_not_null_def return_op_def split: outcome.split)
    show ?thesis using run workers(2,3) pending by (auto simp: without_report_def split: if_splits)
  next
    case False
    then have "\<exists>e. bind_out ?sum (scan_not_null ''sum'') = Err e"
      using pg_sum_no_panic by (cases ?sum) (auto simp: scan_not_null_def split: option.split)
    then obtain e where "bind_out ?sum (scan_not_null ''sum'') = Err e" by blast
    then have "GetMinerStatsReport poolID miner d = (?d, Ok (Some zero_MinerReport, Some e))"
      using assms(1) by (simp add: GetMinerStatsReport_def bind_op_def try_op_def sql_query_ok return_op_def)
    then show ?thesis using False nf whole_empty(2) by (auto simp: without_report_def)
  qed
qed

text \<open>Whole rates add up exactly, and the API can show them and their sum.\<close>

lemma whole_sum:
  assumes "\<forall>x \<in> set xs. whole_rate (wk_Hashrate (snd x))" "length xs + k \<le> 2 ^ 12" "n \<le> k * 2 ^ 40"
  shows "\<exists>m \<le> (2 :: nat) ^ 52. fold (\<lambda>(_, stat) total. total + wk_Hashrate stat) xs (Fin (of_nat n)) = Fin (of_nat m)"
  using assms
proof (induction xs arbitrary: n k)
  case Nil
  have "k * 2 ^ 40 \<le> 2 ^ 12 * (2 :: nat) ^ 40" using Nil.prems(2) by (intro mult_right_mono) simp_all
  then show ?case using Nil.prems(3) by (intro exI [of _ n]) simp
next
  case (Cons x xs)
  obtain m where m: "m \<le> 2 ^ 40" "wk_Hashrate (snd x) = Fin (of_nat m)" using Cons.prems(1) by (auto simp: whole_rate_def)
  have "n + m \<le> (k + 1) * 2 ^ 40" using Cons.prems(3) m(1) by (simp add: algebra_simps)
  moreover have "(k + 1) * 2 ^ 40 \<le> 2 ^ 12 * (2 :: nat) ^ 40" using Cons.prems(2) by (intro mult_right_mono) simp_all
  ultimately have "int (n + m) \<le> 2 ^ 53" by simp
  then have "Fin (of_nat n) + wk_Hashrate (snd x) = Fin (of_nat (n + m))"
    using fl64_int [of "int (n + m)"] by (simp add: m(2))
  then show ?case using Cons.IH [of "k + 1" "n + m"] Cons.prems \<open>n + m \<le> (k + 1) * 2 ^ 40\<close> by (simp add: split_beta)
qed

lemma whole_shown: "n \<le> 2 ^ 53 \<Longrightarrow> shown (Fin (of_nat n))"
proof (cases "n = 0")
  case False
  assume n: "n \<le> 2 ^ 53"
  then have "is64 (of_nat n)" using fl64_int [of "int n"] by (simp add: is64_def)
  moreover have "(of_nat n :: rat) \<le> of_nat (2 ^ 53)" using n by (simp only: of_nat_le_iff)
  then have "(of_nat n :: rat) < 2 ^ 88" by simp
  ultimately show ?thesis using floatToHashrate_shows [of "of_nat n"] False by (auto simp: shown_def)
qed (simp add: shown_def floatToHashrate_def zero_flt_def)


lemma permutes_length: "permutes_keys order \<Longrightarrow> distinct ks \<Longrightarrow> length (order ks) = length ks"
  by (metis permutes_keys_def distinct_card)

lemma status_counts:
  "\<forall>p \<in> set ws. wk_Status (snd p) = ''Active'' \<or> wk_Status (snd p) = ''Inactive'' \<Longrightarrow>
    length (filter (\<lambda>(_, worker). wk_Status worker = ''Active'') ws)
    + length (filter (\<lambda>(_, worker). wk_Status worker = ''Inactive'') ws) = length ws"
  by (induction ws) auto

lemma minerWorkers_value:
  assumes "no_faults d" "whole_stats poolID miner d" "permutes_keys order" "\<not> without_report poolID miner d"
  shows "\<exists>fs ws. minerWorkers order poolID miner d = (d\<lparr>db_faults := fs\<rparr>, Ok ws)
    \<and> map aw_RigID ws = order (map fst (seen_workers miner d))"
proof -
  obtain fs rep err report where report: "GetMinerStatsReport poolID miner d = (d\<lparr>db_faults := fs\<rparr>, Ok (rep, err))"
    "no_faults (d\<lparr>db_faults := fs\<rparr>)" "rep = Some report" "whole_report report"
    using report_value [OF assms(1,2)] assms(4) by auto
  let ?rates = "wr_Workers (mr_WorkersReport report)"
  have rate: "shown (wk_Hashrate (case map_of ?rates rig of Some s \<Rightarrow> s | None \<Rightarrow> zero_WorkerStat))" for rig
  proof (cases "map_of ?rates rig")
    case None
    then show ?thesis using whole_shown [of 0] by (simp add: zero_WorkerStat_def zero_flt_def)
  next
    case (Some s)
    then have "whole_rate (wk_Hashrate s)" using report(4) map_of_SomeD [OF Some] by (auto simp: whole_report_def Let_def)
    then obtain n where "n \<le> 2 ^ 40" "wk_Hashrate s = Fin (of_nat n)" by (auto simp: whole_rate_def)
    then show ?thesis using whole_shown [of n] Some by simp
  qed
  define f where "f = (\<lambda>(rig, worker :: WorkerStat). \<lparr>aw_RigID = rig, aw_Status = wk_Status worker,
      aw_CurrentHashrate = rate_of (wk_Hashrate (case map_of ?rates rig of Some s \<Rightarrow> s | None \<Rightarrow> zero_WorkerStat)),
      aw_Rating = 0, aw_LastSeen = wk_LastSeen worker\<rparr>)"
  have "traverse (api_worker ?rates) xs = Ok (map f xs)" for xs
    using shown_rate [OF rate] by (intro traverse_map) (auto simp: api_worker_def f_def)
  then have "minerWorkers order poolID miner d
      = (d\<lparr>db_faults := tl fs\<rparr>, Ok (map f (range_map order (seen_workers miner d))))"
    using report last_seen_value [OF report(2), of poolID miner]
    by (simp add: minerWorkers_def bind_op_def lift_op_def)
  moreover have rigs: "map aw_RigID (map f xs) = map fst xs" for xs by (induction xs) (auto simp: f_def)
  have "map aw_RigID (map f (range_map order (seen_workers miner d))) = order (map fst (seen_workers miner d))"
    by (simp only: rigs range_map_keys)
  ultimately show ?thesis by blast
qed

text \<open>
  C26. The dashboard of a miner answers. While the statistics of a miner are whole hashrates, as
  the statistics service writes them, and no call fails, its page is made without a panic. It
  is empty exactly when the miner has shares but no statistics; otherwise it lists, once, every
  worker that sent a share in the last week, active and inactive ones add up to that list, and
  there is a balance for every chain.
\<close>

theorem dashboard_answers:
  fixes d :: "'z stats_db_scheme"
  assumes "no_faults d" "whole_stats poolID miner d" "permutes_keys order" "miner \<noteq> ''''"
  shows "\<exists>r. snd (getDashboardStats order poolID miner chain_names d) = Ok r
    \<and> (case r of None \<Rightarrow> without_report poolID miner d
       | Some page \<Rightarrow> \<not> without_report poolID miner d
           \<and> ds_ActiveWorkers page + ds_InactiveWorkers page = length (ds_WorkerList page)
           \<and> distinct (map aw_RigID (ds_WorkerList page))
           \<and> aw_RigID ` set (ds_WorkerList page) = fst ` set (seen_rows miner d)
           \<and> set chain_names \<subseteq> fst ` set (ds_Balances page))"
proof (cases "without_report poolID miner d")
  case True
  then obtain fs err where "GetMinerStatsReport poolID miner d = (d\<lparr>db_faults := fs\<rparr>, Ok (None, err))"
    using report_value [OF assms(1,2)] by auto
  then show ?thesis using assms(4) True by (simp add: getDashboardStats_def bind_op_def return_op_def)
next
  case False
  obtain fs rep err report where report: "GetMinerStatsReport poolID miner d = (d\<lparr>db_faults := fs\<rparr>, Ok (rep, err))"
    "no_faults (d\<lparr>db_faults := fs\<rparr>)" "rep = Some report" "whole_report report"
    using report_value [OF assms(1,2)] False by auto
  let ?rates = "wr_Workers (mr_WorkersReport report)" and ?seen = "seen_workers miner d"
  have "set (range_map order ?rates) = set ?rates" "length (range_map order ?rates) = length ?rates"
    using set_range_map [OF assms(3), of ?rates] permutes_length [OF assms(3), of "map fst ?rates"] report(4)
    by (simp_all add: whole_report_def Let_def range_map_def)
  then obtain m where m: "m \<le> 2 ^ 52"
    "fold (\<lambda>(_, stat) total. total + wk_Hashrate stat) (range_map order ?rates) 0 = Fin (of_nat m)"
    using whole_sum [of "range_map order ?rates" 0 0] report(4) by (auto simp: whole_report_def Let_def zero_flt_def)
  have nf: "no_faults (d\<lparr>db_faults := tl fs\<rparr>)" using report(2) by (auto simp: no_faults_def dest: in_set_tlD)
  obtain gs ws where ws: "minerWorkers order poolID miner (d\<lparr>db_faults := tl fs\<rparr>) = (d\<lparr>db_faults := gs\<rparr>, Ok ws)"
    "map aw_RigID ws = order (map fst ?seen)"
    using minerWorkers_value [OF nf _ assms(3), of poolID miner] assms(2) False by auto
  define balances where "balances = padZeros (GetPendingAmounts (mr_ChainAccounts report)) chain_names"
  define count where "count = (\<lambda>status. length (filter (\<lambda>(_, worker). wk_Status worker = status) ?seen))"
  have run: "snd (getDashboardStats order poolID miner chain_names d)
    = Ok (Some \<lparr>ds_Balances = balances, ds_CurrentHashrate = rate_of (Fin (of_nat m)), ds_ActiveWorkers = count ''Active'',
        ds_InactiveWorkers = count ''Inactive'', ds_WorkerList = ws\<rparr>)"
    using report m(2) ws(1) shown_rate [OF whole_shown, of m] m(1) last_seen_value [OF report(2), of poolID miner] assms(4)
    by (simp add: getDashboardStats_def getWorkerCounts_def bind_op_def lift_op_def return_op_def newWorkerReport_def
        balances_def count_def Let_def)
  have seen: "distinct (map fst ?seen)" "set (map fst ?seen) = fst ` set (seen_rows miner d)"
    using seen_workers_facts [of miner d] by blast+
  have "count ''Active'' + count ''Inactive'' = length ?seen"
    unfolding count_def using seen_workers_facts [of miner d] by (intro status_counts) blast
  moreover have "length ws = length ?seen"
    using ws(2) permutes_length [OF assms(3) seen(1)] by (metis length_map)
  moreover have "distinct (map aw_RigID ws)" "aw_RigID ` set ws = fst ` set (seen_rows miner d)"
    using assms(3) seen unfolding ws(2) set_map [symmetric] by (auto simp: permutes_keys_def)
  moreover have "c \<in> fst ` set balances" if c: "c \<in> set chain_names" for c
  proof -
    obtain x where "map_of balances c = Some x"
      using padZeros_value [of "GetPendingAmounts (mr_ChainAccounts report)" chain_names c] c
      by (auto simp: balances_def split: option.splits)
    then show ?thesis by (rule map_of_SomeD [THEN imageI, of _ _ _ fst, simplified])
  qed
  ultimately show ?thesis using False unfolding run by auto
qed


theorem dashboard_answers_witness:
  "\<exists>page. snd (getDashboardStats rev ''p'' ''a'' [''litecoin'', ''dogecoin'']
      (example_stats [example_share_row ''a'' 0] [example_stat_row ''a'' 0])) = Ok (Some page)
    \<and> aw_RigID ` set (ds_WorkerList page) = {''rig''}
    \<and> {''litecoin'', ''dogecoin''} \<subseteq> fst ` set (ds_Balances page)"
proof -
  let ?d = "example_stats [example_share_row ''a'' 0] [example_stat_row ''a'' 0]"
  have "whole_rate (Fin 7)" by (auto simp: whole_rate_def intro!: exI [of _ 7])
  then have whole: "whole_stats ''p'' ''a'' ?d" by (simp add: whole_stats_def example_stat_row_def)
  have "\<not> without_report ''p'' ''a'' ?d" by (simp add: without_report_def example_stat_row_def)
  moreover have "fst ` set (seen_rows ''a'' ?d) = {''rig''}" by code_simp
  moreover obtain r where "snd (getDashboardStats rev ''p'' ''a'' [''litecoin'', ''dogecoin''] ?d) = Ok r"
    "case r of None \<Rightarrow> without_report ''p'' ''a'' ?d
       | Some page \<Rightarrow> \<not> without_report ''p'' ''a'' ?d
           \<and> ds_ActiveWorkers page + ds_InactiveWorkers page = length (ds_WorkerList page)
           \<and> distinct (map aw_RigID (ds_WorkerList page))
           \<and> aw_RigID ` set (ds_WorkerList page) = fst ` set (seen_rows ''a'' ?d)
           \<and> set [''litecoin'', ''dogecoin''] \<subseteq> fst ` set (ds_Balances page)"
    using dashboard_answers [OF _ whole permutes_keys_examples(2), of "[''litecoin'', ''dogecoin'']"] by auto
  ultimately show ?thesis by (cases r) simp_all
qed

end
