(* ===== verification/Template.thy ===== *)
theory Template
  imports Encoding
begin

text \<open>
  The data the pool gets from its nodes: \<open>src/bitcoin/template.go\<close> and
  \<open>src/bitcoin/auxBlock.go\<close>. JSON tags are the wire names of the fields and have no
  counterpart here; a \<open>uint\<close> is a \<open>u64\<close> and an \<open>int\<close> a \<open>u64\<close> read as two's complement.
\<close>

record Transaction =
  tx_Data :: string
  tx_ID :: string
  tx_Fee :: u64

record AuxBlock =
  aux_Hash :: string
  aux_OtherHash :: string
  aux_ChainID :: u64
  aux_PreviousBlockHash :: string
  aux_CoinbaseHash :: string
  aux_CoinbaseValue :: u64
  aux_Bits :: string
  aux_Height :: u64
  aux_Target :: string
  aux_Target2 :: string

record Template =
  tpl_Version :: u64
  tpl_PrevBlockHash :: string
  tpl_Height :: u64
  tpl_CoinBaseValue :: u64
  tpl_DefaultWitnessCommitment :: string
  tpl_Bits :: string
  tpl_Target :: string
  tpl_Transactions :: "Transaction list"
  tpl_CurrentTime :: u64
  tpl_MimbleWimble :: string
  tpl_AuxBlocks :: "AuxBlock list"

definition mergedMiningHeader :: string where "mergedMiningHeader = ''fabe6d6d''"
definition mergedMiningTrailer :: string where "mergedMiningTrailer = ''010000000000000000002632''"

definition AuxBlock_GetWork :: "AuxBlock \<Rightarrow> string" where
  "AuxBlock_GetWork b = mergedMiningHeader @ aux_Hash b @ mergedMiningTrailer"

text \<open>A template the witnesses use.\<close>

definition example_transaction :: "string \<Rightarrow> Transaction" where
  "example_transaction i = \<lparr>tx_Data = ''00'', tx_ID = i, tx_Fee = 0\<rparr>"

definition example_template :: Template where
  "example_template =
     \<lparr>tpl_Version = 0x20000000, tpl_PrevBlockHash = ''0011223344556677'', tpl_Height = 2410822,
      tpl_CoinBaseValue = 5000000000, tpl_DefaultWitnessCommitment = '''',
      tpl_Bits = ''1a01d8a4'', tpl_Target = ''01d8a4'',
      tpl_Transactions = map example_transaction [''aa01'', ''BB02'', ''cc03''],
      tpl_CurrentTime = 1674673975, tpl_MimbleWimble = '''', tpl_AuxBlocks = []\<rparr>"

definition example_aux :: "string \<Rightarrow> u64 \<Rightarrow> AuxBlock" where
  "example_aux h i = \<lparr>aux_Hash = h, aux_OtherHash = '''', aux_ChainID = i, aux_PreviousBlockHash = '''',
     aux_CoinbaseHash = '''', aux_CoinbaseValue = 0, aux_Bits = '''', aux_Height = 7,
     aux_Target = '''', aux_Target2 = ''''\<rparr>"

end
