(* ===== verification/Merkle.thy ===== *)
theory Merkle
  imports Template
begin

text \<open>
  \<open>src/bitcoin/merkle.go\<close>: the branch from the coinbase to the Merkle root that a miner
  needs, and the root computed from a coinbase hash and the branch. The reference is the
  Merkle tree of the Bitcoin protocol over the list of all transaction hashes; the branch
  is proved to lead to its root.
\<close>

section \<open>Reference: the Merkle tree of a list of hashes\<close>

text \<open>One level: hash neighbours together, the last hash with itself when it has none.\<close>

fun pair_level :: "(bytes \<Rightarrow> bytes) \<Rightarrow> bytes list \<Rightarrow> bytes list" where
  "pair_level H (x # y # rest) = H (x @ y) # pair_level H rest"
| "pair_level H [x] = [H (x @ x)]"
| "pair_level H [] = []"

lemma length_pair_level: "length (pair_level H xs) = (length xs + 1) div 2"
  by (induction H xs rule: pair_level.induct) auto

function tree_root :: "(bytes \<Rightarrow> bytes) \<Rightarrow> bytes list \<Rightarrow> bytes" where
  "tree_root H [] = []"
| "tree_root H [x] = x"
| "tree_root H (x # y # rest) = tree_root H (pair_level H (x # y # rest))"
  by pat_completeness auto
termination
  by (relation "measure (length o snd)") (auto simp: length_pair_level)

text \<open>The siblings on the way from the first leaf to the root.\<close>

function first_path :: "(bytes \<Rightarrow> bytes) \<Rightarrow> bytes list \<Rightarrow> bytes list" where
  "first_path H [] = []"
| "first_path H (s # rest) = s # first_path H (pair_level H rest)"
  by pat_completeness auto
termination
  by (relation "measure (length o snd)") (auto simp: length_pair_level)

definition fold_path :: "(bytes \<Rightarrow> bytes) \<Rightarrow> bytes \<Rightarrow> bytes list \<Rightarrow> bytes" where
  "fold_path H leaf path = foldl (\<lambda>h s. H (h @ s)) leaf path"

text \<open>A hash with digests of 32 bytes: what the block format asks of it.\<close>

locale block_hash =
  fixes H :: "bytes \<Rightarrow> bytes"
  assumes digest_length: "length (H bs) = 32"
begin

lemma fold_first_path: "fold_path H leaf (first_path H xs) = tree_root H (leaf # xs)"
proof (induction H xs arbitrary: leaf rule: first_path.induct)
  case (1 H)
  then show ?case by (simp add: fold_path_def)
next
  case (2 H s rest)
  then show ?case by (simp add: fold_path_def)
qed

lemma pair_level_digests: "\<forall>x \<in> set (pair_level H xs). length x = 32"
  by (induction xs rule: induct_list012) (auto simp: digest_length)

lemma tree_root_digest: "\<forall>x \<in> set xs. length x = 32 \<Longrightarrow> xs \<noteq> [] \<Longrightarrow> length (tree_root H xs) = 32"
proof (induction xs rule: length_induct)
  case (1 xs)
  show ?case
  proof (cases "\<exists>x y rest. xs = x # y # rest")
    case True
    then obtain x y rest where xs: "xs = x # y # rest" by blast
    have "length (pair_level H xs) < length xs" "pair_level H xs \<noteq> []"
      by (auto simp: xs length_pair_level)
    then have "length (tree_root H (pair_level H xs)) = 32"
      using "1.IH" pair_level_digests by blast
    then show ?thesis by (simp add: xs)
  next
    case False
    then obtain x where "xs = [x]" using "1.prems"(2) by (metis neq_Nil_conv)
    then show ?thesis using "1.prems" by simp
  qed
qed

end

interpretation dsha: block_hash doubleSha256Bytes
  by unfold_locales simp

section \<open>The code\<close>

lemma bind_out_cong [fundef_cong]:
  "m = m' \<Longrightarrow> (\<And>x. m' = Ok x \<Longrightarrow> f x = g x) \<Longrightarrow> bind_out m f = bind_out m' g"
  by (cases m') auto

definition join_hex :: "string \<Rightarrow> string \<Rightarrow> string outcome" where
  "join_hex one two =
     bind_out (DecodeString one) (\<lambda>oneBytes.
     bind_out (DecodeString two) (\<lambda>twoBytes.
       Ok (EncodeToString (doubleSha256Bytes (oneBytes @ twoBytes)))))"

text \<open>The inner loop: \<open>for i := startJoinAt; i < levelLength; i += 2\<close>.\<close>

function join_loop :: "string list \<Rightarrow> nat \<Rightarrow> nat \<Rightarrow> string list outcome" where
  "join_loop level levelLength i =
     (if i < levelLength
      then bind_out (nth_out level i) (\<lambda>a.
           bind_out (nth_out level (i + 1)) (\<lambda>b.
           bind_out (join_hex a b) (\<lambda>joined.
           bind_out (join_loop level levelLength (i + 2)) (\<lambda>js. Ok (joined # js)))))
      else Ok [])"
  by pat_completeness auto
termination
  by (relation "measure (\<lambda>(level, n, i). n - i)") auto

declare join_loop.simps [simp del]

lemma length_join_loop: "join_loop level n i = Ok js \<Longrightarrow> length js = (n + 1 - i) div 2"
proof (induction level n i arbitrary: js rule: join_loop.induct)
  case (1 level n i)
  show ?case
  proof (cases "i < n")
    case True
    with "1.prems" obtain j js' where js: "js = j # js'" and r: "join_loop level n (i + 2) = Ok js'"
      by (subst (asm) join_loop.simps) (auto simp: bind_out_eq_Ok)
    have "\<exists>a b joined. nth_out level i = Ok a \<and> nth_out level (i + 1) = Ok b \<and> join_hex a b = Ok joined"
      using "1.prems" True by (subst (asm) join_loop.simps) (auto simp: bind_out_eq_Ok)
    then have "length js' = (n + 1 - (i + 2)) div 2"
      using "1.IH" True r by blast
    moreover have "n + 1 - i = (n + 1 - (i + 2)) + 2" using True by simp
    ultimately show ?thesis by (simp add: js)
  qed (use "1.prems" in \<open>subst (asm) join_loop.simps, simp\<close>)
qed

text \<open>The outer loop, from a level whose first entry is the coinbase's placeholder.\<close>

function merkle_loop :: "string list \<Rightarrow> string list \<Rightarrow> string list outcome" where
  "merkle_loop level steps =
     (let levelLength = length level
      in if levelLength = 1 then Ok steps
         else bind_out (nth_out level 1) (\<lambda>s.
              let level' = (if levelLength mod 2 = 1 then level @ [last level] else level)
              in bind_out (join_loop level' levelLength 2) (\<lambda>levelJoins.
                   merkle_loop ([''''] @ levelJoins) (steps @ [s]))))"
  by pat_completeness auto
termination
  by (relation "measure (length o fst)")
    (auto simp: nth_out_eq_Ok dest!: length_join_loop)

declare merkle_loop.simps [simp del]

definition templateMerkleBranchSteps :: "string list \<Rightarrow> string list outcome" where
  "templateMerkleBranchSteps transactionIDs =
     (let levelLength = length transactionIDs
      in if levelLength = 0 then Ok []
         else merkle_loop ([''''] @ transactionIDs) [])"

text \<open>The error of \<open>reverseHexBytes\<close> is dropped: the id becomes the empty string.\<close>

definition MerkleSteps :: "Template \<Rightarrow> string list outcome" where
  "MerkleSteps t =
     templateMerkleBranchSteps
       (map (\<lambda>transaction.
          case reverseHexBytes (tx_ID transaction) of Ok idReversed \<Rightarrow> idReversed | _ \<Rightarrow> [])
        (tpl_Transactions t))"

fun merkle_root_loop :: "bytes \<Rightarrow> string list \<Rightarrow> bytes outcome" where
  "merkle_root_loop block [] = Ok block"
| "merkle_root_loop block (branch # rest) =
     bind_out (DecodeString branch) (\<lambda>branchBytes.
       merkle_root_loop (doubleSha256Bytes (block @ branchBytes)) rest)"

definition makeHeaderMerkleRoot :: "string \<Rightarrow> string list \<Rightarrow> string outcome" where
  "makeHeaderMerkleRoot coinbase merkleBranchSteps =
     bind_out (DecodeString coinbase) (\<lambda>block.
     bind_out (merkle_root_loop block merkleBranchSteps) (\<lambda>root. Ok (EncodeToString root)))"

section \<open>The branch leads to the root\<close>

text \<open>Hex strings that denote given byte strings, in order.\<close>

definition decodes :: "string list \<Rightarrow> bytes list \<Rightarrow> bool" where
  "decodes ss bss \<longleftrightarrow> list_all2 (\<lambda>s bs. DecodeString s = Ok bs) ss bss"

lemma decodes_simps [simp]:
  "decodes [] bss \<longleftrightarrow> bss = []"
  "decodes ss [] \<longleftrightarrow> ss = []"
  "decodes (s # ss) (bs # bss) \<longleftrightarrow> DecodeString s = Ok bs \<and> decodes ss bss"
  by (auto simp: decodes_def)

lemma decodes_length: "decodes ss bss \<Longrightarrow> length ss = length bss"
  by (simp add: decodes_def list_all2_lengthD)

lemma decodes_Cons:
  "decodes (s # ss) bss \<longleftrightarrow> (\<exists>b bs. bss = b # bs \<and> DecodeString s = Ok b \<and> decodes ss bs)"
  by (cases bss) auto

lemma decodes_encode: "decodes (map EncodeToString bss) bss"
  by (induction bss) auto

lemma decodes_map:
  "decodes (map f xs) bss \<Longrightarrow> (\<And>x b. DecodeString (f x) = Ok b \<Longrightarrow> DecodeString (g x) = Ok (h b))
   \<Longrightarrow> decodes (map g xs) (map h bss)"
  by (induction xs arbitrary: bss) (auto simp: decodes_Cons)

lemma decodes_append: "decodes ss bss \<Longrightarrow> decodes ts cs \<Longrightarrow> decodes (ss @ ts) (bss @ cs)"
  by (simp add: decodes_def list_all2_appendI)

lemma merkle_root_loop_fold:
  "decodes ss bss \<Longrightarrow> merkle_root_loop block ss = Ok (fold_path doubleSha256Bytes block bss)"
  by (induction ss arbitrary: block bss) (auto simp: fold_path_def decodes_Cons)

text \<open>The inner loop pairs up an even number of strings.\<close>

lemma join_loop_pairs:
  "decodes (drop i level) bss \<Longrightarrow> i \<le> length level \<Longrightarrow> n \<le> length level \<Longrightarrow> length level \<le> n + 1
   \<Longrightarrow> even (length level - i)
   \<Longrightarrow> join_loop level n i = Ok (map EncodeToString (pair_level doubleSha256Bytes bss))"
proof (induction level n i arbitrary: bss rule: join_loop.induct)
  case (1 level n i)
  show ?case
  proof (cases "i < n")
    case True
    have "length level - i \<noteq> 1" using "1.prems"(5) by (metis odd_one)
    then have i2: "i + 1 < length level"
      using True "1.prems"(3) by linarith
    then have d: "drop i level = level ! i # level ! (i + 1) # drop (i + 2) level"
      by (simp add: Cons_nth_drop_Suc)
    then obtain a b rest where bss: "bss = a # b # rest" "DecodeString (level ! i) = Ok a"
      "DecodeString (level ! (i + 1)) = Ok b" "decodes (drop (i + 2) level) rest"
      using "1.prems"(1) by (auto simp: decodes_Cons)
    define j where "j = EncodeToString (doubleSha256Bytes (a @ b))"
    have j: "join_hex (level ! i) (level ! (i + 1)) = Ok j"
      using bss by (simp add: join_hex_def j_def)
    have "even (length level - (i + 2))"
      using "1.prems"(5) i2 by auto
    then have "join_loop level n (i + 2) = Ok (map EncodeToString (pair_level doubleSha256Bytes rest))"
      using "1.IH" [OF True, of "level ! i" "level ! (i + 1)" j] bss(4) "1.prems" j i2 by simp
    then show ?thesis
      using True j i2 bss by (subst join_loop.simps) (simp add: j_def)
  next
    case False
    moreover have "length level - i \<noteq> 1" using "1.prems"(5) by (metis odd_one)
    ultimately have "i = length level" using "1.prems"(2-4) by linarith
    then show ?thesis using False "1.prems"(1) by (subst join_loop.simps) simp
  qed
qed

lemma pair_level_dup: "odd (length xs) \<Longrightarrow> pair_level H (xs @ [last xs]) = pair_level H xs"
  by (induction H xs rule: pair_level.induct) auto

lemma merkle_level_joins:
  fixes s :: string
  assumes "decodes ss bs"
  defines "level \<equiv> '''' # s # ss"
  shows "join_loop (if length level mod 2 = 1 then level @ [last level] else level) (length level) 2
    = Ok (map EncodeToString (pair_level doubleSha256Bytes bs))"
proof (cases "odd (length ss)")
  case True
  then have ne: "ss \<noteq> []" by auto
  have "decodes [last ss] [last bs]"
    using assms(1) ne decodes_length [OF assms(1)]
    by (cases bs) (auto simp: decodes_def list_all2_conv_all_nth last_conv_nth)
  then have "decodes (ss @ [last ss]) (bs @ [last bs])"
    using assms(1) by (rule decodes_append [rotated])
  then have "join_loop (level @ [last level]) (length level) 2
      = Ok (map EncodeToString (pair_level doubleSha256Bytes (bs @ [last bs])))"
    using True ne by (intro join_loop_pairs) (auto simp: level_def)
  then show ?thesis
    using True decodes_length [OF assms(1)]
    by (simp add: pair_level_dup level_def odd_iff_mod_2_eq_one)
next
  case False
  then have "join_loop level (length level) 2
      = Ok (map EncodeToString (pair_level doubleSha256Bytes bs))"
    using assms(1) by (intro join_loop_pairs) (auto simp: level_def)
  then show ?thesis using False by (simp add: level_def odd_iff_mod_2_eq_one)
qed

lemma merkle_loop_path:
  "decodes ss bss \<Longrightarrow>
   \<exists>st. merkle_loop ('''' # ss) acc = Ok (acc @ st) \<and> decodes st (first_path doubleSha256Bytes bss)"
proof (induction bss arbitrary: ss acc rule: length_induct)
  case (1 bss)
  show ?case
  proof (cases ss)
    case Nil
    then show ?thesis using "1.prems" by (subst merkle_loop.simps) simp
  next
    case (Cons s ss')
    then obtain b bs where bss: "bss = b # bs" and s: "DecodeString s = Ok b" and ss': "decodes ss' bs"
      using "1.prems" by (auto simp: decodes_Cons)
    define pb where "pb = pair_level doubleSha256Bytes bs"
    have "length pb < length bss" by (simp add: pb_def bss length_pair_level)
    then obtain st where st: "merkle_loop ('''' # map EncodeToString pb) (acc @ [s]) = Ok ((acc @ [s]) @ st)"
      "decodes st (first_path doubleSha256Bytes pb)"
      using "1.IH" decodes_encode by blast
    have "merkle_loop ('''' # ss) acc = Ok (acc @ (s # st))"
      using merkle_level_joins [OF ss', of s] st(1)
      by (subst merkle_loop.simps) (auto simp: Let_def Cons pb_def split: if_splits)
    then show ?thesis
      using s st(2) by (auto simp: bss pb_def intro!: exI [of _ "s # st"])
  qed
qed

lemma templateMerkleBranchSteps_path:
  assumes "decodes ids bss"
  shows "\<exists>st. templateMerkleBranchSteps ids = Ok st \<and> decodes st (first_path doubleSha256Bytes bss)"
proof (cases ids)
  case Nil
  then show ?thesis using assms by (simp add: templateMerkleBranchSteps_def)
next
  case (Cons i rest)
  then show ?thesis
    using merkle_loop_path [OF assms, of "[]"] by (simp add: templateMerkleBranchSteps_def)
qed

lemma MerkleSteps_path:
  assumes "decodes (map tx_ID (tpl_Transactions t)) ids"
  shows "\<exists>st. MerkleSteps t = Ok st \<and> decodes st (first_path doubleSha256Bytes (map rev ids))"
proof -
  have rev_ok: "\<exists>r. reverseHexBytes s = Ok r \<and> DecodeString r = Ok (rev bs)"
    if "DecodeString s = Ok bs" for s bs
  proof -
    have "even (length s)" using DecodeString_length [OF that] by simp
    moreover have "DecodeString (rev_pairs s) = Ok (rev bs)"
      using that
      by (rule DecodeString_rev_pairs)
    ultimately show ?thesis by (simp add: reverseHexBytes_eq)
  qed
  have "decodes (map (\<lambda>transaction.
          case reverseHexBytes (tx_ID transaction) of Ok idReversed \<Rightarrow> idReversed | _ \<Rightarrow> [])
        (tpl_Transactions t)) (map rev ids)"
    using assms
  proof (rule decodes_map)
    fix x b
    assume "DecodeString (tx_ID x) = Ok b"
    from rev_ok [OF this] obtain r where "reverseHexBytes (tx_ID x) = Ok r" "DecodeString r = Ok (rev b)"
      by blast
    then show "DecodeString (case reverseHexBytes (tx_ID x) of Ok idReversed \<Rightarrow> idReversed | _ \<Rightarrow> [])
        = Ok (rev b)" by simp
  qed
  then show ?thesis
    unfolding MerkleSteps_def by (rule templateMerkleBranchSteps_path)
qed

section \<open>Properties\<close>

text \<open>
  C5. The branch sent to miners is right: if the coinbase hash and every transaction id of the
  template are hex, folding the branch over the coinbase hash gives the Merkle root of the
  block whose transactions are the coinbase followed by the template's transactions (ids in
  internal byte order), for any number of transactions.
\<close>

theorem merkle_branch_gives_root:
  assumes "DecodeString coinbase = Ok cb"
    and "decodes (map tx_ID (tpl_Transactions t)) ids"
  shows "bind_out (MerkleSteps t) (makeHeaderMerkleRoot coinbase)
     = Ok (EncodeToString (tree_root doubleSha256Bytes (cb # map rev ids)))"
proof -
  obtain st where "MerkleSteps t = Ok st"
    and "decodes st (first_path doubleSha256Bytes (map rev ids))"
    using MerkleSteps_path [OF assms(2)] by blast
  then show ?thesis
    using assms(1)
    by (simp add: makeHeaderMerkleRoot_def merkle_root_loop_fold dsha.fold_first_path)
qed

theorem merkle_branch_gives_root_witness:
  "bind_out (MerkleSteps example_template) (makeHeaderMerkleRoot ''beef'')
     = Ok (EncodeToString (tree_root doubleSha256Bytes
         ([0xbe, 0xef] # map rev [[0xaa, 0x01], [0xbb, 0x02], [0xcc, 0x03]])))"
  by (rule merkle_branch_gives_root)
    (simp_all add: DecodeString_def hex_val_def example_template_def example_transaction_def)

end
