(* ===== verification/Coinbase.thy ===== *)
theory Coinbase
  imports Template
begin

text \<open>
  \<open>src/bitcoin/coinbase.go\<close> and \<open>src/bitcoin/transaction.go\<close>: the coinbase
  transaction as three hex strings, the part before the extranonce, the extranonce and the
  part after it. The references are the script-number encoding of the block height and a
  reader of transaction outputs.
\<close>

section \<open>The block height in the script\<close>

text \<open>The loop over a 9-byte buffer; a write past its end panics.\<close>

function encode_number_loop :: "u64 \<Rightarrow> bytes \<Rightarrow> nat \<Rightarrow> (u64 \<times> bytes \<times> nat) outcome" where
  "encode_number_loop n buff l =
     (if n > 0x7f
      then bind_out (put_out buff l (ucast (n AND 0xff))) (\<lambda>buff.
             encode_number_loop (drop_bit 8 n) buff (l + 1))
      else Ok (n, buff, l))"
  by pat_completeness auto
termination
proof (relation "measure (\<lambda>(n, buff, l). unat n)")
  fix n :: u64 and buff buff' :: bytes and l :: nat
  assume "0x7f < n"
  then have "unat n div 256 < unat n" by (simp add: word_less_nat_alt)
  then show "((drop_bit 8 n, buff', l + 1), n, buff, l) \<in> measure (\<lambda>(n, buff, l). unat n)"
    by (simp only: in_measure split_conv unat_drop_bit_8)
qed simp

declare encode_number_loop.simps [simp del]

definition encodeNumber :: "u64 \<Rightarrow> bytes outcome" where
  "encodeNumber n =
     (if n \<ge> 1 \<and> n \<le> 16 then Ok [0x50 + ucast n]
      else bind_out (encode_number_loop n (replicate 9 0) 1) (\<lambda>(n, buff, l).
           bind_out (put_out buff 0 (of_nat l)) (\<lambda>buff.
           bind_out (put_out buff l (ucast n)) (\<lambda>buff. Ok (take (l + 1) buff)))))"

text \<open>Little-endian digits of a positive script number: the last byte keeps its top bit clear.\<close>

fun num_bytes :: "nat \<Rightarrow> bytes" where
  "num_bytes n = (if n \<le> 127 then [of_nat n] else of_nat n # num_bytes (n div 256))"

declare num_bytes.simps [simp del]

lemma num_bytes_nonempty [simp]: "num_bytes n \<noteq> []"
  by (subst num_bytes.simps) simp

lemma le_value_num_bytes: "le_value (num_bytes n) = n"
proof (induction n rule: num_bytes.induct)
  case (1 n)
  show ?case
  proof (cases "n \<le> 127")
    case True
    then have "unat (of_nat n :: byte) = n" by (simp add: unat_of_nat)
    then show ?thesis using True by (subst num_bytes.simps) simp
  next
    case False
    have "unat (of_nat n :: byte) = n mod 256" by (simp add: unat_of_nat)
    then show ?thesis using False 1 by (subst num_bytes.simps) simp
  qed
qed

lemma last_num_bytes: "last (num_bytes n) < 0x80"
proof (induction n rule: num_bytes.induct)
  case (1 n)
  show ?case
  proof (cases "n \<le> 127")
    case True
    then have "unat (of_nat n :: byte) = n" by (simp add: unat_of_nat)
    then show ?thesis using True by (subst num_bytes.simps) (simp add: word_less_nat_alt)
  qed (use 1 in \<open>subst num_bytes.simps, simp\<close>)
qed

lemma length_num_bytes: "length (num_bytes n) \<le> Suc k \<longleftrightarrow> n < 128 * 256 ^ k"
proof (induction n arbitrary: k rule: num_bytes.induct)
  case (1 n)
  show ?case
  proof (cases "n \<le> 127")
    case True
    have "(128 :: nat) * 1 \<le> 128 * 256 ^ k" by (intro mult_le_mono) auto
    then have "n < 128 * 256 ^ k" using True by linarith
    then show ?thesis using True by (subst num_bytes.simps) simp
  next
    case False
    show ?thesis
    proof (cases k)
      case 0
      then show ?thesis using False by (subst num_bytes.simps) (simp add: Suc_le_eq)
    next
      case (Suc j)
      have "length (num_bytes n) \<le> Suc k \<longleftrightarrow> length (num_bytes (n div 256)) \<le> Suc j"
        using False Suc by (subst num_bytes.simps) simp
      also have "\<dots> \<longleftrightarrow> n div 256 < 128 * 256 ^ j" using 1 False by simp
      also have "\<dots> \<longleftrightarrow> n < 128 * 256 ^ k"
        using Suc by (simp add: div_less_iff_less_mult mult_ac)
      finally show ?thesis .
    qed
  qed
qed

lemma num_bytes_Suc:
  "127 < n \<Longrightarrow> num_bytes n = of_nat n # num_bytes (n div 256)"
  by (subst num_bytes.simps) simp

lemma ucast_and_255: "ucast ((n :: u64) AND 0xff) = (of_nat (unat n) :: byte)"
proof (rule word_unat_eq_iff [THEN iffD2])
  have "(255 :: nat) = mask 8" by (simp add: mask_eq_exp_minus_1)
  then have "unat n mod 256 AND 255 = take_bit 8 (unat n mod 256)"
    by (simp only: take_bit_eq_mask)
  then show "unat (ucast (n AND 0xff) :: byte) = unat (of_nat (unat n) :: byte)"
    by (simp add: unat_ucast_byte unsigned_and_eq unat_of_nat take_bit_eq_mod)
qed

text \<open>What the loop leaves in the buffer, and where it stops.\<close>

lemma encode_number_loop_digits:
  "length buff = 9 \<Longrightarrow> 0 < l \<Longrightarrow> l + length (num_bytes (unat n)) \<le> 10 \<Longrightarrow>
   \<exists>n' buff'. encode_number_loop n buff l = Ok (n', buff', l + length (num_bytes (unat n)) - 1)
     \<and> length buff' = 9 \<and> ucast n' = last (num_bytes (unat n))
     \<and> take (l + length (num_bytes (unat n)) - 1) buff' = take l buff @ butlast (num_bytes (unat n))"
proof (induction n buff l rule: encode_number_loop.induct)
  case (1 n buff l)
  show ?case
  proof (cases "n > 0x7f")
    case True
    then have nb: "num_bytes (unat n) = of_nat (unat n) # num_bytes (unat (drop_bit 8 n))"
      by (simp only: unat_drop_bit_8) (simp add: num_bytes_Suc word_less_nat_alt)
    define d where "d = num_bytes (unat (drop_bit 8 n))"
    define buff1 where "buff1 = buff[l := of_nat (unat n)]"
    have d: "0 < length d" by (simp add: d_def)
    have "length (num_bytes (unat n)) = Suc (length d)" by (simp add: nb d_def)
    then have l: "l < length buff" using "1.prems" d by linarith
    have step: "encode_number_loop n buff l = encode_number_loop (drop_bit 8 n) buff1 (l + 1)"
      using True l by (subst encode_number_loop.simps) (simp add: ucast_and_255 buff1_def del: of_nat_unat)
    have "put_out buff l (ucast (n AND 0xff)) = Ok buff1"
      using l by (simp add: ucast_and_255 buff1_def del: of_nat_unat)
    moreover have "length buff1 = 9" using "1.prems" by (simp add: buff1_def)
    moreover have "l + 1 + length d \<le> 10" using "1.prems" by (simp add: nb d_def)
    ultimately obtain n' buff' where r:
      "encode_number_loop (drop_bit 8 n) buff1 (l + 1) = Ok (n', buff', l + 1 + length d - 1)"
      "length buff' = 9" "ucast n' = last d"
      "take (l + 1 + length d - 1) buff' = take (l + 1) buff1 @ butlast d"
      using "1.IH" [OF True, of buff1] by (auto simp: d_def)
    have "take (l + 1) buff1 = take l buff @ [of_nat (unat n)]"
      using l by (simp add: buff1_def take_Suc_conv_app_nth del: of_nat_unat)
    then show ?thesis
      using r d by (simp add: step nb del: of_nat_unat flip: d_def)
  next
    case False
    then have "num_bytes (unat n) = [of_nat (unat n)]"
      by (subst num_bytes.simps) (simp add: word_less_nat_alt)
    then show ?thesis
      using False "1.prems" by (subst encode_number_loop.simps) simp
  qed
qed

lemma length_num_bytes_u64: "length (num_bytes (unat (n :: u64))) \<le> 9"
proof -
  have "unat n < 2 ^ 64" using unsigned_less [of n] by simp
  also have "\<dots> \<le> 128 * 256 ^ 8" by simp
  finally show ?thesis using length_num_bytes [of "unat n" 8] by simp
qed

lemma encodeNumber_large:
  assumes "\<not> (n \<ge> 1 \<and> n \<le> 16)"
  defines "d \<equiv> num_bytes (unat n)"
  shows "encodeNumber n =
    (if unat n < 2 ^ 63 then Ok (of_nat (length d) # d) else Panic (PanicIndex 9 9))"
proof -
  have len: "length d \<le> 9" "0 < length d" using length_num_bytes_u64 by (simp_all add: d_def)
  have d9: "length d \<le> 8 \<longleftrightarrow> unat n < 2 ^ 63" using length_num_bytes [of "unat n" 7] by (simp add: d_def)
  obtain n' buff' where r: "encode_number_loop n (replicate 9 0) 1 = Ok (n', buff', length d)"
    "length buff' = 9" "ucast n' = last d" "take (length d) buff' = [0] @ butlast d"
    using encode_number_loop_digits [of "replicate 9 0" 1 n] len by (auto simp: d_def)
  show ?thesis
  proof (cases "length d \<le> 8")
    case True
    have "take (length d + 1) (buff'[0 := of_nat (length d), length d := last d])
        = (take (length d) buff')[0 := of_nat (length d)] @ [last d]"
      using True r(2) len by (simp add: take_Suc_conv_app_nth take_update_swap list_update_append)
    also have "\<dots> = of_nat (length d) # butlast d @ [last d]" by (simp add: r(4))
    also have "\<dots> = of_nat (length d) # d" using len by simp
    finally have "take (Suc (length d)) (buff'[0 := of_nat (length d), length d := last d])
        = of_nat (length d) # d" by simp
    moreover have "unat n < 2 ^ 63" using True d9 by simp
    ultimately show ?thesis
      using True assms(1) r unfolding encodeNumber_def by (subst if_not_P) auto
  next
    case False
    then have "length d = 9" using len by simp
    then show ?thesis
      using d9 assms(1) r by (simp add: encodeNumber_def)
  qed
qed

section \<open>The parts of the coinbase transaction\<close>

record CoinbaseInital =
  cbi_Version :: string
  cbi_NumberOfInputs :: string
  cbi_PreviousOutputTransactionID :: string
  cbi_PreviousOutputIndex :: string
  cbi_BytesInArbitrary :: u64
  cbi_BytesInHeight :: u64
  cbi_HeightHex :: string

definition Template_CoinbaseInitial :: "Template \<Rightarrow> u64 \<Rightarrow> CoinbaseInital outcome" where
  "Template_CoinbaseInitial t arbitraryByteLength =
     bind_out (encodeNumber (tpl_Height t)) (\<lambda>heightBytes.
       let heightHex = EncodeToString heightBytes;
           heightByteLen = of_nat (length heightBytes);
           arbitraryByteLength = arbitraryByteLength + heightByteLen
       in Ok \<lparr>cbi_Version = ''01000000'',
              cbi_NumberOfInputs = ''01'',
              cbi_PreviousOutputTransactionID =
                ''0000000000000000000000000000000000000000000000000000000000000000'',
              cbi_PreviousOutputIndex = ''ffffffff'',
              cbi_BytesInArbitrary = arbitraryByteLength,
              cbi_BytesInHeight = heightByteLen,
              cbi_HeightHex = heightHex\<rparr>)"

definition CoinbaseInital_Serialize :: "CoinbaseInital \<Rightarrow> string outcome" where
  "CoinbaseInital_Serialize i =
     bind_out (varUint (cbi_BytesInArbitrary i)) (\<lambda>scriptLength.
       Ok (cbi_Version i @ cbi_NumberOfInputs i @ cbi_PreviousOutputTransactionID i
           @ cbi_PreviousOutputIndex i @ scriptLength @ cbi_HeightHex i))"

definition TransactionOut :: "string \<Rightarrow> string \<Rightarrow> string outcome" where
  "TransactionOut amount pubScriptKey =
     (let lengthBytes = of_nat (length pubScriptKey div 2)
      in bind_out (varUint lengthBytes) (\<lambda>l. Ok (amount @ l @ pubScriptKey)))"

text \<open>\<open>ripemd160\<close> (golang.org/x/crypto) is a parameter: message to digest.\<close>

definition GeneratePubKeyScript :: "(bytes \<Rightarrow> bytes) \<Rightarrow> string \<Rightarrow> string outcome" where
  "GeneratePubKeyScript ripemd pubKey =
     bind_out (DecodeString pubKey) (\<lambda>pubKeyBytes.
       let shaHash = Sum256 pubKeyBytes; pubKeyHash = ripemd shaHash
       in Ok (''76a914'' @ EncodeToString pubKeyHash @ ''88ac''))"

text \<open>The panic message holds an accented letter twice, two bytes each in UTF-8.\<close>

definition script_panic_text :: string where
  "script_panic_text =
     ''Erreur lors de la g'' @ [CHR 0xC3, CHR 0xA9] @ ''n'' @ [CHR 0xC3, CHR 0xA9]
       @ ''ration du script de cl'' @ [CHR 0xC3, CHR 0xA9] @ '' publique : ''"

fun panic_on :: "string \<Rightarrow> 'a outcome \<Rightarrow> 'a outcome" where
  "panic_on m (Err e) = Panic (PanicError m e)"
| "panic_on m r = r"

lemma panic_on_eq_Ok [outcome_simps]: "panic_on m r = Ok x \<longleftrightarrow> r = Ok x"
  by (cases r) auto

definition coinbaseTransactionOutputs ::
    "(bytes \<Rightarrow> bytes) \<Rightarrow> Template \<Rightarrow> string \<Rightarrow> (u64 \<times> string) outcome" where
  "coinbaseTransactionOutputs ripemd t poolPubScriptKey =
     bind_out
       (if tpl_DefaultWitnessCommitment t \<noteq> ''''
        then let outAmount = ''0000000000000000''
             in bind_out (TransactionOut outAmount (tpl_DefaultWitnessCommitment t))
                  (\<lambda>o1. Ok (1, o1))
        else Ok (0, ''''))
       (\<lambda>(outputsCount, outputs).
         let rewardAmount = show_hex_pad 16 (unat (tpl_CoinBaseValue t));
             rewardAmount = (case reverseHexBytes rewardAmount of Ok r \<Rightarrow> r | _ \<Rightarrow> '''')
         in bind_out (panic_on script_panic_text (GeneratePubKeyScript ripemd poolPubScriptKey))
              (\<lambda>pubScriptKey.
            bind_out (TransactionOut rewardAmount pubScriptKey) (\<lambda>o2.
            bind_out (TransactionOut rewardAmount poolPubScriptKey) (\<lambda>o3.
            bind_out (TransactionOut rewardAmount ''AAAA'') (\<lambda>o4.
              Ok (outputsCount + 1 + 1 + 1, outputs @ o2 @ o3 @ o4))))))"

record CoinbaseFinal =
  cbf_TransactionInSequence :: string
  cbf_OutputCount :: u64
  cbf_TxOuts :: string
  cbf_TransactionLockTime :: string

definition Template_CoinbaseFinal ::
    "(bytes \<Rightarrow> bytes) \<Rightarrow> Template \<Rightarrow> string \<Rightarrow> CoinbaseFinal outcome" where
  "Template_CoinbaseFinal ripemd t poolPayoutPubScriptKey =
     bind_out (coinbaseTransactionOutputs ripemd t poolPayoutPubScriptKey)
       (\<lambda>(txOutputLen, txOutput).
         Ok \<lparr>cbf_TransactionInSequence = ''00000000'',
             cbf_OutputCount = txOutputLen,
             cbf_TxOuts = txOutput,
             cbf_TransactionLockTime = ''00000000''\<rparr>)"

definition CoinbaseFinal_Serialize :: "CoinbaseFinal \<Rightarrow> string outcome" where
  "CoinbaseFinal_Serialize f =
     bind_out (varUint (cbf_OutputCount f)) (\<lambda>count.
       Ok (cbf_TransactionInSequence f @ count @ cbf_TxOuts f @ cbf_TransactionLockTime f))"

record Coinbase =
  cb_CoinbaseInital :: string
  cb_Arbitrary :: string
  cb_CoinbaseFinal :: string

definition Coinbase_Serialize :: "Coinbase \<Rightarrow> string" where
  "Coinbase_Serialize cb = cb_CoinbaseInital cb @ cb_Arbitrary cb @ cb_CoinbaseFinal cb"

section \<open>Readers\<close>

text \<open>A node's reader of the script's first push: small integers have an opcode of their own.\<close>

fun read_script_int :: "bytes \<Rightarrow> (nat \<times> bytes) option" where
  "read_script_int [] = None"
| "read_script_int (b # bs) =
     (if 0x51 \<le> b \<and> b \<le> 0x60 then Some (unat b - 0x50, bs)
      else if b \<le> 75 \<and> unat b \<le> length bs \<and> (0 < b \<longrightarrow> bs ! (unat b - 1) < 0x80)
      then Some (le_value (take (unat b) bs), drop (unat b) bs)
      else None)"

lemma read_script_int_small:
  assumes "1 \<le> n" "n \<le> (16 :: u64)"
  shows "read_script_int ((0x50 + ucast n) # rest) = Some (unat n, rest)"
proof -
  have n: "1 \<le> unat n" "unat n \<le> 16" using assms by (simp_all add: word_le_nat_alt)
  then have "unat (0x50 + ucast n :: byte) = 0x50 + unat n"
    by (subst unat_word_ariths) (simp add: unat_ucast_byte)
  then show ?thesis using n by (simp add: word_le_nat_alt)
qed

lemma read_script_int_digits:
  assumes "length (num_bytes n) \<le> 9"
  shows "read_script_int (of_nat (length (num_bytes n)) # num_bytes n @ rest) = Some (n, rest)"
proof -
  define d where "d = num_bytes n"
  have u: "unat (of_nat (length d) :: byte) = length d"
    using assms by (simp add: d_def unat_of_nat)
  have "d \<noteq> []" by (simp add: d_def)
  then have "(d @ rest) ! (length d - 1) < 0x80"
    using last_num_bytes [of n] by (simp add: nth_append last_conv_nth d_def)
  then show ?thesis
    using u assms le_value_num_bytes [of n] by (simp add: word_le_nat_alt flip: d_def)
qed

text \<open>A reader of transaction outputs: an 8-byte amount and a counted script each.\<close>

definition read_output :: "bytes \<Rightarrow> ((nat \<times> bytes) \<times> bytes) option" where
  "read_output bs =
     (case read_le 8 bs of None \<Rightarrow> None | Some (v, bs) \<Rightarrow>
      (case read_compact bs of None \<Rightarrow> None | Some (l, bs) \<Rightarrow>
       if l \<le> length bs then Some ((v, take l bs), drop l bs) else None))"

fun read_outputs :: "nat \<Rightarrow> bytes \<Rightarrow> ((nat \<times> bytes) list \<times> bytes) option" where
  "read_outputs 0 bs = Some ([], bs)"
| "read_outputs (Suc n) bs =
     (case read_output bs of None \<Rightarrow> None | Some (out, bs) \<Rightarrow>
      (case read_outputs n bs of None \<Rightarrow> None | Some (outs, bs) \<Rightarrow> Some (out # outs, bs)))"

definition output_bytes :: "u64 \<Rightarrow> bytes \<Rightarrow> bytes" where
  "output_bytes v script = le_bytes 8 v @ compact_bytes (of_nat (length script)) @ script"

lemma read_output_bytes:
  "length script < 2 ^ 64 \<Longrightarrow>
   read_output (output_bytes v script @ rest) = Some ((unat v, script), rest)"
  using unat_u64_bound [of v]
  by (simp add: read_output_def output_bytes_def read_le_bytes read_compact_bytes unat_of_nat)

lemma TransactionOut_bytes:
  assumes "DecodeString amount = Ok (le_bytes 8 v)" "DecodeString script = Ok bs" "length bs < 253"
  obtains s where "TransactionOut amount script = Ok s" "DecodeString s = Ok (output_bytes v bs)"
proof -
  have "length script = 2 * length bs" using assms(2) by (rule DecodeString_length)
  moreover have "(of_nat (length bs) :: u64) \<noteq> 253"
    using assms(3) by (simp add: unat_of_nat word_unat_eq_iff)
  ultimately have "TransactionOut amount script
      = Ok (amount @ EncodeToString (compact_bytes (of_nat (length bs))) @ script)"
    by (simp add: TransactionOut_def varUint_eq)
  moreover have "DecodeString (amount @ EncodeToString (compact_bytes (of_nat (length bs))) @ script)
      = Ok (output_bytes v bs)"
    using assms(1,2) by (simp add: DecodeString_append output_bytes_def)
  ultimately show thesis using that by blast
qed

lemma reward_amount_bytes:
  "\<exists>r. reverseHexBytes (show_hex_pad 16 (unat (v :: u64))) = Ok r \<and> DecodeString r = Ok (le_bytes 8 v)"
  using show_hex_pad_encode [of v 7] unat_u64_bound [of v] by simp

definition p2pkh :: "bytes \<Rightarrow> bytes" where
  "p2pkh keyhash = [0x76, 0xa9, 0x14] @ keyhash @ [0x88, 0xac]"

lemma GeneratePubKeyScript_bytes:
  assumes "DecodeString key = Ok kb"
  obtains s where "GeneratePubKeyScript ripemd key = Ok s"
    "DecodeString s = Ok (p2pkh (ripemd (Sum256 kb)))"
proof -
  have "DecodeString ''76a914'' = Ok [0x76, 0xa9, 0x14]" "DecodeString ''88ac'' = Ok [0x88, 0xac]"
    by code_simp+
  then have "DecodeString (''76a914'' @ EncodeToString (ripemd (Sum256 kb)) @ ''88ac'')
      = Ok (p2pkh (ripemd (Sum256 kb)))"
    by (simp only: DecodeString_append bind_out.simps DecodeString_encode p2pkh_def)
  then show thesis using that assms by (simp add: GeneratePubKeyScript_def Let_def)
qed

lemma read_outputs_append:
  "read_output bs = Some (out, bs') \<Longrightarrow> read_outputs n bs' = Some (outs, bs'') \<Longrightarrow>
   read_outputs (Suc n) bs = Some (out # outs, bs'')"
  by simp

definition coinbase_outs :: "bytes \<Rightarrow> bytes \<Rightarrow> bytes \<Rightarrow> u64 \<Rightarrow> (u64 \<times> bytes) list" where
  "coinbase_outs keyhash key commitment v =
     (if commitment = [] then [] else [(0, commitment)])
     @ [(v, p2pkh keyhash), (v, key), (v, [0xaa, 0xaa])]"

lemma read_outputs_concat:
  "\<forall>(v, s) \<in> set outs. length s < 2 ^ 64 \<Longrightarrow>
   read_outputs (length outs) (concat (map (\<lambda>(v, s). output_bytes v s) outs) @ rest)
     = Some (map (\<lambda>(v, s). (unat v, s)) outs, rest)"
  by (induction outs) (auto simp: read_output_bytes)

lemma coinbaseTransactionOutputs_bytes:
  assumes key: "DecodeString key = Ok kb" "length kb < 253"
    and wit: "DecodeString (tpl_DefaultWitnessCommitment t) = Ok wb" "length wb < 253"
    and rip: "length (ripemd (Sum256 kb)) = 20"
  defines "outs \<equiv> coinbase_outs (ripemd (Sum256 kb)) kb wb (tpl_CoinBaseValue t)"
  shows "\<exists>s. coinbaseTransactionOutputs ripemd t key = Ok (of_nat (length outs), s)
    \<and> DecodeString s = Ok (concat (map (\<lambda>(v, s). output_bytes v s) outs))"
proof -
  let ?v = "tpl_CoinBaseValue t"
  obtain r where r: "reverseHexBytes (show_hex_pad 16 (unat ?v)) = Ok r"
    "DecodeString r = Ok (le_bytes 8 ?v)" using reward_amount_bytes by blast
  obtain ps where ps: "GeneratePubKeyScript ripemd key = Ok ps"
    "DecodeString ps = Ok (p2pkh (ripemd (Sum256 kb)))"
    using key(1) by (rule GeneratePubKeyScript_bytes)
  have z: "DecodeString ''0000000000000000'' = Ok (le_bytes 8 (0 :: u64))" by code_simp
  have aa: "DecodeString ''AAAA'' = Ok [0xaa, 0xaa]" by code_simp
  obtain o1 where o1: "TransactionOut ''0000000000000000'' (tpl_DefaultWitnessCommitment t) = Ok o1"
    "DecodeString o1 = Ok (output_bytes 0 wb)" using z wit by (rule TransactionOut_bytes)
  obtain o2 where o2: "TransactionOut r ps = Ok o2"
    "DecodeString o2 = Ok (output_bytes ?v (p2pkh (ripemd (Sum256 kb))))"
    using r(2) ps(2) by (rule TransactionOut_bytes) (simp add: p2pkh_def rip)
  obtain o3 where o3: "TransactionOut r key = Ok o3" "DecodeString o3 = Ok (output_bytes ?v kb)"
    using r(2) key by (rule TransactionOut_bytes)
  obtain o4 where o4: "TransactionOut r ''AAAA'' = Ok o4"
    "DecodeString o4 = Ok (output_bytes ?v [0xaa, 0xaa])"
    using r(2) aa by (rule TransactionOut_bytes) simp
  have "tpl_DefaultWitnessCommitment t = [] \<longleftrightarrow> wb = []"
    using DecodeString_length [OF wit(1)] by auto
  then show ?thesis
    using r(1) ps(1) o1 o2 o3 o4 DecodeString_append
    by (auto simp: coinbaseTransactionOutputs_def outs_def coinbase_outs_def)
qed

section \<open>Properties\<close>

text \<open>
  The height push of the coinbase script: for every height below 2^63 a node's reader
  gets the height back from \<open>encodeNumber\<close>'s bytes, which are at most nine; from 2^63 on the
  call panics by writing past its nine-byte buffer.
\<close>

theorem encodeNumber_read:
  "if unat n < 2 ^ 63
   then \<exists>bs. encodeNumber n = Ok bs \<and> length bs \<le> 9 \<and>
     (\<forall>rest. read_script_int (bs @ rest) = Some (unat n, rest))
   else encodeNumber n = Panic (PanicIndex 9 9)"
proof (cases "n \<ge> 1 \<and> n \<le> 16")
  case True
  then have "unat n \<le> 16" by (simp add: word_le_nat_alt)
  then show ?thesis using True read_script_int_small [of n] by (simp add: encodeNumber_def)
next
  case False
  have "length (num_bytes (unat n)) \<le> 8" if "unat n < 2 ^ 63"
    using that length_num_bytes [of "unat n" 7] by simp
  then show ?thesis
    using encodeNumber_large [OF False] read_script_int_digits [OF length_num_bytes_u64]
    by auto
qed

text \<open>
  C27. What the coinbase pays: a reader of the serialized outputs finds, after the witness
  commitment with amount zero where the template has one, the block's full value three
  times, to the hash of the pool's key, to the key's own bytes as a script and to the
  two-byte script \<open>AAAA\<close>.
\<close>

theorem coinbase_outputs_read:
  assumes "DecodeString key = Ok kb" "length kb < 253"
    and "DecodeString (tpl_DefaultWitnessCommitment t) = Ok wb" "length wb < 253"
    and "length (ripemd (Sum256 kb)) = 20"
  shows "\<exists>count s bs. coinbaseTransactionOutputs ripemd t key = Ok (count, s)
    \<and> DecodeString s = Ok bs
    \<and> (\<forall>rest. read_outputs (unat count) (bs @ rest) = Some
        ((if wb = [] then [] else [(0, wb)])
         @ [(unat (tpl_CoinBaseValue t), p2pkh (ripemd (Sum256 kb))),
            (unat (tpl_CoinBaseValue t), kb), (unat (tpl_CoinBaseValue t), [0xaa, 0xaa])], rest))"
proof -
  define outs where "outs = coinbase_outs (ripemd (Sum256 kb)) kb wb (tpl_CoinBaseValue t)"
  obtain s where s: "coinbaseTransactionOutputs ripemd t key = Ok (of_nat (length outs), s)"
    "DecodeString s = Ok (concat (map (\<lambda>(v, s). output_bytes v s) outs))"
    using coinbaseTransactionOutputs_bytes [of key kb t wb ripemd] assms by (auto simp: outs_def)
  have "unat (of_nat (length outs) :: u64) = length outs"
    by (simp add: outs_def coinbase_outs_def unat_of_nat)
  moreover have "\<forall>(v, s) \<in> set outs. length s < 2 ^ 64"
    using assms(2,4,5) by (auto simp: outs_def coinbase_outs_def p2pkh_def)
  ultimately have "\<forall>rest. read_outputs (unat (of_nat (length outs) :: u64))
      (concat (map (\<lambda>(v, s). output_bytes v s) outs) @ rest)
      = Some (map (\<lambda>(v, s). (unat v, s)) outs, rest)"
    using read_outputs_concat by simp
  moreover have "map (\<lambda>(v, s). (unat v, s)) outs = (if wb = [] then [] else [(0, wb)])
     @ [(unat (tpl_CoinBaseValue t), p2pkh (ripemd (Sum256 kb))),
        (unat (tpl_CoinBaseValue t), kb), (unat (tpl_CoinBaseValue t), [0xaa, 0xaa])]"
    by (simp add: outs_def coinbase_outs_def)
  ultimately show ?thesis using s by metis
qed

definition example_key :: string where "example_key = ''03ab''"

theorem coinbase_outputs_read_witness:
  "\<exists>count s bs. coinbaseTransactionOutputs (\<lambda>_. replicate 20 7) example_template example_key = Ok (count, s)
    \<and> DecodeString s = Ok bs
    \<and> read_outputs (unat count) (bs @ [9]) = Some
        ([(5000000000, p2pkh (replicate 20 7)), (5000000000, [3, 0xab]), (5000000000, [0xaa, 0xaa])], [9])"
proof -
  have k: "DecodeString example_key = Ok [3, 0xab]" by code_simp
  have "\<exists>count s bs. coinbaseTransactionOutputs (\<lambda>_. replicate 20 7) example_template example_key = Ok (count, s)
    \<and> DecodeString s = Ok bs
    \<and> (\<forall>rest. read_outputs (unat count) (bs @ rest) = Some
        ((if ([] :: bytes) = [] then [] else [(0, [])])
         @ [(unat (tpl_CoinBaseValue example_template), p2pkh (replicate 20 7)),
            (unat (tpl_CoinBaseValue example_template), [3, 0xab]),
            (unat (tpl_CoinBaseValue example_template), [0xaa, 0xaa])], rest))"
    by (rule coinbase_outputs_read [OF k]) (simp_all add: example_template_def DecodeString_def)
  then show ?thesis by (fastforce simp: example_template_def)
qed

end
