(* ===== verification/Chains.thy ===== *)
theory Chains
  imports Encoding GoFloat
begin

text \<open>
  The blockchains the pool knows: \<open>src/bitcoin/chain.go\<close> and the six coin files. The Go
  interface \<open>Blockchain\<close> is a record of its methods and a coin a value of it. The scrypt key
  derivation (golang.org/x/crypto/scrypt) is the parameter \<open>scryptKey\<close>, password and salt to
  32 bytes. The locale \<open>blockchain\<close> is the contract the block generator relies on; every
  coin is an instance of it.
\<close>

section \<open>Address patterns\<close>

text \<open>The character classes of the regular expressions, and the two ways they are matched:
  the whole rest of the text, or a run anywhere in it.\<close>

definition char_between :: "char \<Rightarrow> char \<Rightarrow> char \<Rightarrow> bool" where
  "char_between lo hi c \<longleftrightarrow>
     (of_char lo :: nat) \<le> of_char c \<and> (of_char c :: nat) \<le> of_char hi"

definition alnum :: "char \<Rightarrow> bool" where
  "alnum c \<longleftrightarrow> char_between CHR ''A'' CHR ''Z'' c \<or> char_between CHR ''a'' CHR ''z'' c
     \<or> char_between CHR ''0'' CHR ''9'' c"

definition lower_alnum :: "char \<Rightarrow> bool" where
  "lower_alnum c \<longleftrightarrow> char_between CHR ''a'' CHR ''z'' c \<or> char_between CHR ''0'' CHR ''9'' c"

definition base58 :: "char \<Rightarrow> bool" where
  "base58 c \<longleftrightarrow> char_between CHR ''a'' CHR ''k'' c \<or> char_between CHR ''m'' CHR ''z'' c
     \<or> char_between CHR ''A'' CHR ''H'' c \<or> char_between CHR ''J'' CHR ''N'' c
     \<or> char_between CHR ''P'' CHR ''Z'' c \<or> char_between CHR ''1'' CHR ''9'' c"

definition starts_then :: "string list \<Rightarrow> (char \<Rightarrow> bool) \<Rightarrow> nat set \<Rightarrow> string \<Rightarrow> bool" where
  "starts_then prefixes p lengths s \<longleftrightarrow>
     list_ex (\<lambda>pre. take (length pre) s = pre \<and> length s - length pre \<in> lengths
       \<and> length pre \<le> length s \<and> list_all p (drop (length pre) s)) prefixes"

fun contains_run :: "nat \<Rightarrow> (char \<Rightarrow> bool) \<Rightarrow> string \<Rightarrow> bool" where
  "contains_run n p [] \<longleftrightarrow> n = 0"
| "contains_run n p (c # s) \<longleftrightarrow>
     (n \<le> length (c # s) \<and> list_all p (take n (c # s))) \<or> contains_run n p s"

section \<open>The interface and the coins\<close>

definition BitcoinMinConfirmations :: u64 where "BitcoinMinConfirmations = 102"

record Blockchain =
  ChainName :: string
  CoinbaseDigest :: "string \<Rightarrow> string outcome"
  HeaderDigest :: "string \<Rightarrow> string outcome"
  ShareMultiplier :: flt
  MinimumConfirmations :: u64
  ValidMainnetAddress :: "string \<Rightarrow> bool"
  ValidTestnetAddress :: "string \<Rightarrow> bool"

definition Bellscoin :: "(bytes \<Rightarrow> bytes \<Rightarrow> bytes) \<Rightarrow> Blockchain" where
  "Bellscoin scryptKey =
     \<lparr>ChainName = ''bellscoin'',
      CoinbaseDigest = DoubleSha256,
      HeaderDigest = ScryptDigest scryptKey,
      ShareMultiplier = Fin 65536,
      MinimumConfirmations = BitcoinMinConfirmations,
      ValidMainnetAddress = (\<lambda>address. starts_then [''L'', ''M''] alnum {33} address
        \<or> starts_then [''ltc1''] alnum {39} address),
      ValidTestnetAddress = contains_run 34 alnum\<rparr>"

definition Dogecoin :: "(bytes \<Rightarrow> bytes \<Rightarrow> bytes) \<Rightarrow> Blockchain" where
  "Dogecoin scryptKey =
     \<lparr>ChainName = ''dogecoin'',
      CoinbaseDigest = DoubleSha256,
      HeaderDigest = ScryptDigest scryptKey,
      ShareMultiplier = Fin 65536,
      MinimumConfirmations = 251,
      ValidMainnetAddress = starts_then [''D'', ''A'', ''9''] base58 {33, 34},
      ValidTestnetAddress = starts_then [''n'', ''2''] base58 {33}\<rparr>"

definition Litecoin :: "(bytes \<Rightarrow> bytes \<Rightarrow> bytes) \<Rightarrow> Blockchain" where
  "Litecoin scryptKey =
     \<lparr>ChainName = ''litecoin'',
      CoinbaseDigest = DoubleSha256,
      HeaderDigest = ScryptDigest scryptKey,
      ShareMultiplier = Fin 65536,
      MinimumConfirmations = BitcoinMinConfirmations,
      ValidMainnetAddress = (\<lambda>address. starts_then [''L'', ''M''] alnum {33} address
        \<or> starts_then [''ltc1''] alnum {39} address),
      ValidTestnetAddress = contains_run 44 lower_alnum\<rparr>"

definition Luckycoin :: "(bytes \<Rightarrow> bytes \<Rightarrow> bytes) \<Rightarrow> Blockchain" where
  "Luckycoin scryptKey =
     \<lparr>ChainName = ''dogecoin'',
      CoinbaseDigest = DoubleSha256,
      HeaderDigest = ScryptDigest scryptKey,
      ShareMultiplier = Fin 65536,
      MinimumConfirmations = 251,
      ValidMainnetAddress = starts_then [''D'', ''A'', ''9''] base58 {33, 34},
      ValidTestnetAddress = starts_then [''K'', ''2''] base58 {33}\<rparr>"

definition Pepecoin :: "(bytes \<Rightarrow> bytes \<Rightarrow> bytes) \<Rightarrow> Blockchain" where
  "Pepecoin scryptKey =
     \<lparr>ChainName = ''dogecoin'',
      CoinbaseDigest = DoubleSha256,
      HeaderDigest = ScryptDigest scryptKey,
      ShareMultiplier = Fin 65536,
      MinimumConfirmations = 251,
      ValidMainnetAddress = starts_then [''D'', ''A'', ''9''] base58 {33, 34},
      ValidTestnetAddress = starts_then [''K'', ''2''] base58 {33}\<rparr>"

definition Vergecoin :: "(bytes \<Rightarrow> bytes \<Rightarrow> bytes) \<Rightarrow> Blockchain" where
  "Vergecoin scryptKey =
     \<lparr>ChainName = ''vergecoin'',
      CoinbaseDigest = DoubleSha256,
      HeaderDigest = ScryptDigest scryptKey,
      ShareMultiplier = Fin 65536,
      MinimumConfirmations = 251,
      ValidMainnetAddress = starts_then [''D'', ''A'', ''9''] base58 {33, 34},
      ValidTestnetAddress = starts_then [''o'', ''2''] base58 {33}\<rparr>"

definition GetChain :: "(bytes \<Rightarrow> bytes \<Rightarrow> bytes) \<Rightarrow> string \<Rightarrow> Blockchain outcome" where
  "GetChain scryptKey chainName =
     (if chainName = ''dogecoin'' then Ok (Dogecoin scryptKey)
      else if chainName = ''litecoin'' then Ok (Litecoin scryptKey)
      else if chainName = ''bellscoin'' then Ok (Bellscoin scryptKey)
      else if chainName = ''luckycoin'' then Ok (Luckycoin scryptKey)
      else if chainName = ''pepecoin'' then Ok (Pepecoin scryptKey)
      else if chainName = ''vergecoin'' then Ok (Vergecoin scryptKey)
      else Panic (PanicText (''Unknown blockchain: '' @ chainName)))"

lemmas coin_defs = Bellscoin_def Dogecoin_def Litecoin_def Luckycoin_def Pepecoin_def Vergecoin_def

section \<open>The contract of a chain\<close>

text \<open>A chain's digests are functions of the bytes a hex string stands for, and fail only on
  what is not hex; the transaction digest is the double SHA-256 the Merkle tree is made of.\<close>

locale blockchain =
  fixes chain :: Blockchain and work_hash :: "bytes \<Rightarrow> bytes"
  assumes coinbase_digest: "CoinbaseDigest chain s =
      bind_out (DecodeString s) (\<lambda>bs. Ok (EncodeToString (doubleSha256Bytes bs)))"
    and header_digest: "HeaderDigest chain s =
      bind_out (DecodeString s) (\<lambda>bs. Ok (EncodeToString (work_hash bs)))"
    and share_multiplier: "ShareMultiplier chain = Fin 65536"
begin

lemma coinbase_digest_Ok: "DecodeString s = Ok bs \<Longrightarrow>
    CoinbaseDigest chain s = Ok (EncodeToString (doubleSha256Bytes bs))"
  by (simp add: coinbase_digest)

lemma header_digest_Ok: "DecodeString s = Ok bs \<Longrightarrow>
    HeaderDigest chain s = Ok (EncodeToString (work_hash bs))"
  by (simp add: header_digest)

lemma digest_no_panic: "CoinbaseDigest chain s \<noteq> Panic p" "HeaderDigest chain s \<noteq> Panic p"
  using DecodeString_no_panic by (auto simp: coinbase_digest header_digest outcome_simps)

text \<open>The spelling of the digits does not matter.\<close>

lemma digest_of_bytes: "DecodeString s = DecodeString s' \<Longrightarrow>
    CoinbaseDigest chain s = CoinbaseDigest chain s' \<and> HeaderDigest chain s = HeaderDigest chain s'"
  by (simp add: coinbase_digest header_digest)

lemma coinbase_digest_length: "CoinbaseDigest chain s = Ok d \<Longrightarrow> length d = 64"
  by (auto simp: coinbase_digest outcome_simps)

end

lemma ScryptDigest_eq:
  "ScryptDigest scryptKey s =
     bind_out (DecodeString s) (\<lambda>bs. Ok (EncodeToString (scryptKey bs bs)))"
  by (simp add: ScryptDigest_def Let_def)

interpretation bellscoin: blockchain "Bellscoin scryptKey" "\<lambda>bs. scryptKey bs bs" for scryptKey
  by unfold_locales (simp_all add: coin_defs DoubleSha256_eq ScryptDigest_eq)

interpretation dogecoin: blockchain "Dogecoin scryptKey" "\<lambda>bs. scryptKey bs bs" for scryptKey
  by unfold_locales (simp_all add: coin_defs DoubleSha256_eq ScryptDigest_eq)

interpretation litecoin: blockchain "Litecoin scryptKey" "\<lambda>bs. scryptKey bs bs" for scryptKey
  by unfold_locales (simp_all add: coin_defs DoubleSha256_eq ScryptDigest_eq)

interpretation luckycoin: blockchain "Luckycoin scryptKey" "\<lambda>bs. scryptKey bs bs" for scryptKey
  by unfold_locales (simp_all add: coin_defs DoubleSha256_eq ScryptDigest_eq)

interpretation pepecoin: blockchain "Pepecoin scryptKey" "\<lambda>bs. scryptKey bs bs" for scryptKey
  by unfold_locales (simp_all add: coin_defs DoubleSha256_eq ScryptDigest_eq)

interpretation vergecoin: blockchain "Vergecoin scryptKey" "\<lambda>bs. scryptKey bs bs" for scryptKey
  by unfold_locales (simp_all add: coin_defs DoubleSha256_eq ScryptDigest_eq)

text \<open>Whatever chain a name selects, it satisfies the contract.\<close>

lemma GetChain_blockchain:
  "GetChain scryptKey name = Ok c \<Longrightarrow> blockchain c (\<lambda>bs. scryptKey bs bs)"
  using bellscoin.blockchain_axioms dogecoin.blockchain_axioms litecoin.blockchain_axioms
    luckycoin.blockchain_axioms pepecoin.blockchain_axioms vergecoin.blockchain_axioms
  by (auto simp: GetChain_def split: if_splits)

section \<open>Properties\<close>

text \<open>
  Which names the pool's chain table accepts, and what the chain it gives says of itself:
  the name is kept for every chain except Luckycoin and Pepecoin, which call themselves
  dogecoin; an unknown name panics.
\<close>

theorem GetChain_names:
  "case GetChain scryptKey name of
     Ok c \<Rightarrow> name \<in> {''dogecoin'', ''litecoin'', ''bellscoin'', ''luckycoin'', ''pepecoin'', ''vergecoin''}
       \<and> ChainName c = (if name \<in> {''luckycoin'', ''pepecoin''} then ''dogecoin'' else name)
       \<and> MinimumConfirmations c = (if name \<in> {''litecoin'', ''bellscoin''} then 102 else 251)
       \<and> GetChain scryptKey (ChainName c)
           = Ok (if name \<in> {''luckycoin'', ''pepecoin''} then Dogecoin scryptKey else c)
   | Err e \<Rightarrow> False
   | Panic p \<Rightarrow> name \<notin> {''dogecoin'', ''litecoin'', ''bellscoin'', ''luckycoin'', ''pepecoin'', ''vergecoin''}
       \<and> p = PanicText (''Unknown blockchain: '' @ name)"
  by (simp add: GetChain_def coin_defs BitcoinMinConfirmations_def)

end
