(* ===== verification/Generator.thy ===== *)
theory Generator
  imports Merkle Coinbase Chains
begin

text \<open>
  The block generator: \<open>src/bitcoin/bitcoin.go\<close>, \<open>generator.go\<close>, \<open>header.go\<close>,
  \<open>submission.go\<close>, \<open>work.go\<close>, \<open>validators.go\<close>. A block is the record the pool keeps between
  the template it fetched and the shares it checks; a method with a pointer receiver returns
  the block it leaves behind beside its result, on its error paths too.
\<close>

section \<open>The block\<close>

record BitcoinBlock =
  bb_Template :: "Template option"
  bb_reversePrevBlockHash :: string
  bb_coinbaseInitial :: string
  bb_coinbaseFinal :: string
  bb_merkleSteps :: "string list"
  bb_coinbase :: string
  bb_header :: string
  bb_hash :: string
  bb_chain :: "Blockchain option"

definition empty_block :: BitcoinBlock where
  "empty_block = \<lparr>bb_Template = None, bb_reversePrevBlockHash = '''', bb_coinbaseInitial = '''',
     bb_coinbaseFinal = '''', bb_merkleSteps = [], bb_coinbase = '''', bb_header = '''',
     bb_hash = '''', bb_chain = None\<rparr>"

text \<open>A method call through a nil interface, or a field read through a nil pointer.\<close>

definition deref :: "'a option \<Rightarrow> 'a outcome" where
  "deref p = (case p of None \<Rightarrow> Panic PanicNil | Some x \<Rightarrow> Ok x)"

lemma deref_Some [simp]: "deref (Some x) = Ok x" and deref_None [simp]: "deref None = Panic PanicNil"
  by (simp_all add: deref_def)

lemma deref_eq_Ok [outcome_simps]: "deref p = Ok x \<longleftrightarrow> p = Some x"
  by (cases p) auto

definition BitcoinBlock_ChainName :: "BitcoinBlock \<Rightarrow> string outcome" where
  "BitcoinBlock_ChainName b =
     (case bb_chain b of None \<Rightarrow> Panic (PanicText ''Chain needs to be set'')
      | Some chain \<Rightarrow> Ok (ChainName chain))"

definition BitcoinBlock_init :: "BitcoinBlock \<Rightarrow> Blockchain option \<Rightarrow> BitcoinBlock outcome" where
  "BitcoinBlock_init b chain =
     (case chain of None \<Rightarrow> Panic (PanicText ''Chain cannot be null'')
      | Some _ \<Rightarrow> Ok (b\<lparr>bb_chain := chain\<rparr>))"

definition BitcoinBlock_MakeCoinbase :: "BitcoinBlock \<Rightarrow> AuxBlock \<Rightarrow> string" where
  "BitcoinBlock_MakeCoinbase b auxBlock = ''''"

text \<open>The dynamic types of a work packet's entries; \<open>WOther\<close> is any other JSON value.\<close>

datatype work_item = WString string | WStrings "string list" | WBool bool | WOther
type_synonym Work = "work_item list"

definition NonceSubmissionSlot :: nat where "NonceSubmissionSlot = 4"
definition NonceTimeSubmissionSlot :: nat where "NonceTimeSubmissionSlot = 3"
definition Extranonce2SubmissionSlot :: "nat \<times> bool" where
  "Extranonce2SubmissionSlot = (2, True)"

definition BitcoinBlock_ShareMultiplier :: "BitcoinBlock \<Rightarrow> flt outcome" where
  "BitcoinBlock_ShareMultiplier b = bind_out (deref (bb_chain b)) (\<lambda>c. Ok (ShareMultiplier c))"

definition BitcoinBlock_ValidMainnetAddress :: "BitcoinBlock \<Rightarrow> string \<Rightarrow> bool outcome" where
  "BitcoinBlock_ValidMainnetAddress b address =
     bind_out (deref (bb_chain b)) (\<lambda>c. Ok (ValidMainnetAddress c address))"

definition BitcoinBlock_ValidTestnetAddress :: "BitcoinBlock \<Rightarrow> string \<Rightarrow> bool outcome" where
  "BitcoinBlock_ValidTestnetAddress b address =
     bind_out (deref (bb_chain b)) (\<lambda>c. Ok (ValidTestnetAddress c address))"

section \<open>Work generation\<close>

text \<open>\<open>jobCounter\<close> is the package's counter, an argument and a result.\<close>

definition GenerateWork ::
    "(bytes \<Rightarrow> bytes \<Rightarrow> bytes) \<Rightarrow> (bytes \<Rightarrow> bytes) \<Rightarrow> u64 \<Rightarrow> Template option \<Rightarrow> string \<Rightarrow> string
     \<Rightarrow> string \<Rightarrow> u64 \<Rightarrow> (u64 \<times> BitcoinBlock \<times> Work) outcome" where
  "GenerateWork scryptKey ripemd jobCounter template chainName arbitrary poolPayoutPubScriptKey
       reservedArbitraryByteLength =
     (case template of
        None \<Rightarrow> Err (ErrText ''Template cannot be null'')
      | Some t \<Rightarrow>
        bind_out (GetChain scryptKey chainName) (\<lambda>chain.
        bind_out (BitcoinBlock_init empty_block (Some chain)) (\<lambda>block.
        let block = block\<lparr>bb_Template := Some t\<rparr> in
        bind_out (map_err (\<lambda>e. ErrWrap ''invalid previous block hash hex: '' e)
                    (reverseHex4Bytes (tpl_PrevBlockHash t))) (\<lambda>prev.
        let block = block\<lparr>bb_reversePrevBlockHash := prev\<rparr>;
            arbitraryBytes = bytesWithLengthHeader (string_bytes arbitrary);
            arbitraryByteLength = of_nat (length arbitraryBytes) + reservedArbitraryByteLength;
            arbitraryHex = EncodeToString arbitraryBytes in
        bind_out (bind_out (Template_CoinbaseInitial t arbitraryByteLength) CoinbaseInital_Serialize)
          (\<lambda>initial.
        let block = block\<lparr>bb_coinbaseInitial := initial\<rparr> in
        bind_out (bind_out (Template_CoinbaseFinal ripemd t poolPayoutPubScriptKey)
                    CoinbaseFinal_Serialize) (\<lambda>final.
        let block = block\<lparr>bb_coinbaseFinal := arbitraryHex @ final\<rparr> in
        bind_out (MerkleSteps t) (\<lambda>steps.
        let block = block\<lparr>bb_merkleSteps := steps\<rparr>;
            work = [WString (show_hex_pad_int 8 (sint jobCounter)),
                    WString (bb_reversePrevBlockHash block),
                    WString (bb_coinbaseInitial block),
                    WString (bb_coinbaseFinal block),
                    WStrings (bb_merkleSteps block),
                    WString (show_hex_pad 8 (unat (tpl_Version t))),
                    WString (tpl_Bits t),
                    WString (show_hex (unat (tpl_CurrentTime t)))]
        in Ok (jobCounter + 1, block, work))))))))"

section \<open>The header\<close>

definition blockHeader ::
    "u64 \<Rightarrow> string \<Rightarrow> string \<Rightarrow> string \<Rightarrow> string \<Rightarrow> string \<Rightarrow> string outcome" where
  "blockHeader version previousBlockHash merkleRootHex nTime bits nonce =
     bind_out (fourLittleEndianBytes (VUint version)) (\<lambda>versionBytes.
     bind_out (DecodeString previousBlockHash) (\<lambda>prevBlockHash.
     bind_out (DecodeString merkleRootHex) (\<lambda>merkleRoot.
     bind_out (DecodeString nTime) (\<lambda>nonceTime.
     bind_out (DecodeString bits) (\<lambda>bitsHex.
     bind_out (DecodeString nonce) (\<lambda>nonceHex.
       Ok (EncodeToString (versionBytes @ reverse_bytes prevBlockHash @ merkleRoot
         @ reverse_bytes nonceTime @ reverse_bytes bitsHex @ reverse_bytes nonceHex))))))))"

definition CoinbaseHashed :: "BitcoinBlock \<Rightarrow> string outcome" where
  "CoinbaseHashed b = bind_out (deref (bb_chain b)) (\<lambda>chain. CoinbaseDigest chain (bb_coinbase b))"

text \<open>\<open>MakeHeader\<close> assigns \<open>blockHeader\<close>'s string result to the block even when its error is
  not nil; that string is empty then.\<close>

definition MakeHeader ::
    "BitcoinBlock \<Rightarrow> string \<Rightarrow> string \<Rightarrow> string \<Rightarrow> BitcoinBlock \<times> string outcome" where
  "MakeHeader b extranonce nonce nonceTime =
     (case bb_Template b of
        None \<Rightarrow> (b, Err (ErrText ''generate work first''))
      | Some t \<Rightarrow>
        let coinbase = \<lparr>cb_CoinbaseInital = bb_coinbaseInitial b, cb_Arbitrary = extranonce,
                        cb_CoinbaseFinal = bb_coinbaseFinal b\<rparr>;
            b = b\<lparr>bb_coinbase := Coinbase_Serialize coinbase\<rparr>
        in case bind_out (CoinbaseHashed b) (\<lambda>coinbaseHashed.
                  makeHeaderMerkleRoot coinbaseHashed (bb_merkleSteps b)) of
             Ok merkleRoot \<Rightarrow>
               (case blockHeader (tpl_Version t) (tpl_PrevBlockHash t) merkleRoot nonceTime
                       (tpl_Bits t) nonce of
                  Ok header \<Rightarrow> (b\<lparr>bb_header := header\<rparr>, Ok header)
                | Err e \<Rightarrow> (b\<lparr>bb_header := ''''\<rparr>, Err e)
                | Panic p \<Rightarrow> (b, Panic p))
           | Err e \<Rightarrow> (b, Err e)
           | Panic p \<Rightarrow> (b, Panic p))"

definition HeaderHashed :: "BitcoinBlock \<Rightarrow> string outcome" where
  "HeaderHashed b =
     bind_out (deref (bb_chain b)) (\<lambda>chain.
     bind_out (CoinbaseDigest chain (bb_header b)) reverseHexBytes)"

text \<open>\<open>big.Int.SetBytes\<close> reads big-endian bytes.\<close>

definition SetBytes :: "bytes \<Rightarrow> nat" where
  "SetBytes bs = le_value (rev bs)"

definition Sum :: "BitcoinBlock \<Rightarrow> BitcoinBlock \<times> nat outcome" where
  "Sum b =
     (case bb_chain b of
        None \<Rightarrow> (b, Err (ErrText ''calculateSum: Missing blockchain interface''))
      | Some chain \<Rightarrow>
        if bb_header b = '''' then (b, Err (ErrText ''generate header first''))
        else case bind_out (HeaderDigest chain (bb_header b)) reverseHexBytes of
               Ok digest \<Rightarrow>
                 let b = b\<lparr>bb_hash := digest\<rparr>
                 in (b, bind_out (DecodeString digest) (\<lambda>digestBytes. Ok (SetBytes digestBytes)))
             | Err e \<Rightarrow> (b, Err e)
             | Panic p \<Rightarrow> (b, Panic p))"

section \<open>Submission\<close>

record Submission =
  sub_Header :: string
  sub_TransactionCount :: string
  sub_Coinbase :: string
  sub_TransactionBuffer :: string

definition Submission_Serialize :: "Submission \<Rightarrow> string" where
  "Submission_Serialize s =
     sub_Header s @ sub_TransactionCount s @ sub_Coinbase s @ sub_TransactionBuffer s"

definition buildTransactionBuffer :: "Template \<Rightarrow> string" where
  "buildTransactionBuffer t =
     fold (\<lambda>transaction buffer. buffer @ tx_Data transaction) (tpl_Transactions t) ''''"

definition createSubmissionHex :: "BitcoinBlock \<Rightarrow> string outcome" where
  "createSubmissionHex b =
     bind_out (deref (bb_Template b)) (\<lambda>t.
       let transactionCount = of_nat (length (tpl_Transactions t) + 1)
       in bind_out (varUint transactionCount) (\<lambda>count.
            Ok (Submission_Serialize
              \<lparr>sub_Header = bb_header b, sub_TransactionCount = count,
               sub_Coinbase = bb_coinbase b, sub_TransactionBuffer = buildTransactionBuffer t\<rparr>)))"

definition Submit :: "BitcoinBlock \<Rightarrow> string outcome" where
  "Submit b =
     (if bb_header b = '''' then Err (ErrText ''generate header first'')
      else bind_out (deref (bb_Template b)) (\<lambda>t.
           bind_out (createSubmissionHex b) (\<lambda>submission.
             Ok (if tpl_MimbleWimble t \<noteq> '''' then submission @ ''01'' @ tpl_MimbleWimble t
                 else submission))))"

section \<open>Reading a coinbase transaction\<close>

definition take_bytes :: "nat \<Rightarrow> bytes \<Rightarrow> (bytes \<times> bytes) option" where
  "take_bytes n bs = (if n \<le> length bs then Some (take n bs, drop n bs) else None)"

record parsed_coinbase =
  pc_version :: nat
  pc_prev :: bytes
  pc_index :: nat
  pc_script :: bytes
  pc_sequence :: nat
  pc_outputs :: "(nat \<times> bytes) list"
  pc_locktime :: nat

text \<open>A node's reader of a transaction with one input.\<close>

definition read_coinbase :: "bytes \<Rightarrow> (parsed_coinbase \<times> bytes) option" where
  "read_coinbase bs =
     Option.bind (read_le 4 bs) (\<lambda>(version, bs).
     Option.bind (read_compact bs) (\<lambda>(inputs, bs).
     if inputs \<noteq> 1 then None else
     Option.bind (take_bytes 32 bs) (\<lambda>(prev, bs).
     Option.bind (read_le 4 bs) (\<lambda>(index, bs).
     Option.bind (read_compact bs) (\<lambda>(scriptLength, bs).
     Option.bind (take_bytes scriptLength bs) (\<lambda>(script, bs).
     Option.bind (read_le 4 bs) (\<lambda>(sequence, bs).
     Option.bind (read_compact bs) (\<lambda>(outputs, bs).
     Option.bind (read_outputs outputs bs) (\<lambda>(outs, bs).
     Option.bind (read_le 4 bs) (\<lambda>(locktime, bs).
       Some (\<lparr>pc_version = version, pc_prev = prev, pc_index = index, pc_script = script,
              pc_sequence = sequence, pc_outputs = outs, pc_locktime = locktime\<rparr>, bs)))))))))))"

lemma take_bytes_append: "length xs = n \<Longrightarrow> take_bytes n (xs @ ys) = Some (xs, ys)"
  by (simp add: take_bytes_def)

lemma read_coinbase_bytes:
  assumes "unat slen = length script" "unat n = length outs"
    and "\<forall>(v, s) \<in> set outs. length s < 2 ^ 64"
  shows "read_coinbase ([1, 0, 0, 0] @ [1] @ replicate 32 0 @ [0xff, 0xff, 0xff, 0xff]
      @ compact_bytes slen @ script @ [0, 0, 0, 0] @ compact_bytes n
      @ concat (map (\<lambda>(v, s). output_bytes v s) outs) @ [0, 0, 0, 0] @ rest)
    = Some (\<lparr>pc_version = 1, pc_prev = replicate 32 0, pc_index = 2 ^ 32 - 1, pc_script = script,
             pc_sequence = 0, pc_outputs = map (\<lambda>(v, s). (unat v, s)) outs, pc_locktime = 0\<rparr>, rest)"
proof -
  have h: "read_le 4 ([1, 0, 0, 0] @ bs) = Some (1, bs)" "read_le 4 ([0, 0, 0, 0] @ bs) = Some (0, bs)"
    "read_le 4 ([0xff, 0xff, 0xff, 0xff] @ bs) = Some (2 ^ 32 - 1, bs)"
    "read_compact ([1] @ bs) = Some (1, bs)" for bs
    by (simp_all add: read_le_def)
  show ?thesis
    using assms
    by (simp only: read_coinbase_def h Option.bind.simps split_conv take_bytes_append length_replicate
        read_compact_bytes read_outputs_concat if_False simp_thms)
qed

lemma coinbase_constants:
  "DecodeString ''01000000'' = Ok [1, 0, 0, 0]" "DecodeString ''01'' = Ok [1]"
  "DecodeString ''0000000000000000000000000000000000000000000000000000000000000000''
     = Ok (replicate 32 0)"
  "DecodeString ''ffffffff'' = Ok [0xff, 0xff, 0xff, 0xff]"
  "DecodeString ''00000000'' = Ok [0, 0, 0, 0]"
  by code_simp+

lemma CoinbaseInitial_bytes:
  assumes "encodeNumber (tpl_Height t) = Ok h" "l + of_nat (length h) \<noteq> 253"
  obtains s where "bind_out (Template_CoinbaseInitial t l) CoinbaseInital_Serialize = Ok s"
    "DecodeString s = Ok ([1, 0, 0, 0] @ [1] @ replicate 32 0 @ [0xff, 0xff, 0xff, 0xff]
       @ compact_bytes (l + of_nat (length h)) @ h)"
proof -
  have "DecodeString (''01000000'' @ ''01''
      @ ''0000000000000000000000000000000000000000000000000000000000000000'' @ ''ffffffff''
      @ EncodeToString (compact_bytes (l + of_nat (length h))) @ EncodeToString h)
      = Ok ([1, 0, 0, 0] @ [1] @ replicate 32 0 @ [0xff, 0xff, 0xff, 0xff]
       @ compact_bytes (l + of_nat (length h)) @ h)"
    by (intro DecodeString_append coinbase_constants DecodeString_encode)
  then show thesis
    using that assms by (simp add: Template_CoinbaseInitial_def CoinbaseInital_Serialize_def varUint_eq Let_def)
qed

lemma CoinbaseFinal_bytes:
  assumes key: "DecodeString key = Ok kb" "length kb < 253"
    and wit: "DecodeString (tpl_DefaultWitnessCommitment t) = Ok wb" "length wb < 253"
    and rip: "length (ripemd (Sum256 kb)) = 20"
  defines "outs \<equiv> coinbase_outs (ripemd (Sum256 kb)) kb wb (tpl_CoinBaseValue t)"
  obtains s where "bind_out (Template_CoinbaseFinal ripemd t key) CoinbaseFinal_Serialize = Ok s"
    "DecodeString s = Ok ([0, 0, 0, 0] @ compact_bytes (of_nat (length outs))
       @ concat (map (\<lambda>(v, s). output_bytes v s) outs) @ [0, 0, 0, 0])"
proof -
  obtain o' where o': "coinbaseTransactionOutputs ripemd t key = Ok (of_nat (length outs), o')"
    "DecodeString o' = Ok (concat (map (\<lambda>(v, s). output_bytes v s) outs))"
    using coinbaseTransactionOutputs_bytes [of key kb t wb ripemd] assms by (auto simp: outs_def)
  have "DecodeString (''00000000'' @ EncodeToString (compact_bytes (of_nat (length outs))) @ o'
       @ ''00000000'') = Ok ([0, 0, 0, 0] @ compact_bytes (of_nat (length outs))
       @ concat (map (\<lambda>(v, s). output_bytes v s) outs) @ [0, 0, 0, 0])"
    by (intro DecodeString_append coinbase_constants DecodeString_encode o')
  moreover have "(of_nat (length outs) :: u64) \<noteq> 253"
    by (simp add: outs_def coinbase_outs_def)
  ultimately show thesis
    using that o'(1) by (simp add: Template_CoinbaseFinal_def CoinbaseFinal_Serialize_def varUint_eq)
qed

text \<open>What a template and a pool configuration must satisfy for work to be generated.\<close>

definition workable ::
    "(bytes \<Rightarrow> bytes) \<Rightarrow> Template \<Rightarrow> string \<Rightarrow> string \<Rightarrow> bytes \<Rightarrow> bytes \<Rightarrow> bool" where
  "workable ripemd t arbitrary key kb wb \<longleftrightarrow>
     8 dvd length (tpl_PrevBlockHash t) \<and> unat (tpl_Height t) < 2 ^ 63
     \<and> length arbitrary < 235
     \<and> DecodeString key = Ok kb \<and> length kb < 253
     \<and> DecodeString (tpl_DefaultWitnessCommitment t) = Ok wb \<and> length wb < 253
     \<and> length (ripemd (Sum256 kb)) = 20
     \<and> (\<forall>tx \<in> set (tpl_Transactions t). valid_hex (tx_ID tx))"

lemma decodes_valid: "\<forall>s \<in> set ss. valid_hex s \<Longrightarrow> \<exists>bss. decodes ss bss"
proof (induction ss)
  case (Cons s ss)
  then obtain b bs where "DecodeString s = Ok b" "decodes ss bs"
    using valid_hex_encode_iff [of s] by auto
  then have "decodes (s # ss) (b # bs)" by simp
  then show ?case by blast
qed (auto intro: exI [of _ "[]"])

lemma encodeNumber_small:
  assumes "unat n < 2 ^ 63"
  obtains h where "encodeNumber n = Ok h" "length h \<le> 9"
proof (cases "n \<ge> 1 \<and> n \<le> 16")
  case False
  have "length (num_bytes (unat n)) \<le> 8"
    using assms length_num_bytes [of "unat n" 7] by simp
  then show thesis using that encodeNumber_large [OF False] assms by auto
qed (use that in \<open>simp add: encodeNumber_def\<close>)

lemma GenerateWork_block:
  assumes w: "workable ripemd t arbitrary key kb wb" and c: "GetChain scryptKey name = Ok chain"
  defines "outs \<equiv> coinbase_outs (ripemd (Sum256 kb)) kb wb (tpl_CoinBaseValue t)"
  obtains b work h ib fb where
    "GenerateWork scryptKey ripemd jobs (Some t) name arbitrary key 8 = Ok (jobs + 1, b, work)"
    "bb_Template b = Some t" "bb_chain b = Some chain" "Ok (bb_merkleSteps b) = MerkleSteps t"
    "encodeNumber (tpl_Height t) = Ok h" "length h \<le> 9"
    "DecodeString (bb_coinbaseInitial b) = Ok ib" "DecodeString (bb_coinbaseFinal b) = Ok fb"
    "ib = [1, 0, 0, 0] @ [1] @ replicate 32 0 @ [0xff, 0xff, 0xff, 0xff]
       @ compact_bytes (of_nat (length h + 8 + 1 + length arbitrary)) @ h"
    "fb = (of_nat (length arbitrary) # string_bytes arbitrary) @ [0, 0, 0, 0]
       @ compact_bytes (of_nat (length outs))
       @ concat (map (\<lambda>(v, s). output_bytes v s) outs) @ [0, 0, 0, 0]"
proof -
  obtain h where h: "encodeNumber (tpl_Height t) = Ok h" "length h \<le> 9"
    using w encodeNumber_small by (metis workable_def)
  let ?al = "of_nat (length (bytesWithLengthHeader (string_bytes arbitrary))) + 8 :: u64"
  have al: "?al + of_nat (length h) = of_nat (length h + 8 + 1 + length arbitrary)"
    by (simp add: bytesWithLengthHeader_def)
  have "unat (of_nat (length h + 8 + 1 + length arbitrary) :: u64) < 253"
    using w h(2) by (simp only: unat_of_nat) (simp add: workable_def)
  moreover have "x \<noteq> 253" if "unat x < 253" for x :: u64 using that by auto
  ultimately have "?al + of_nat (length h) \<noteq> 253" unfolding al by blast
  with h(1) obtain i where i: "bind_out (Template_CoinbaseInitial t ?al) CoinbaseInital_Serialize = Ok i"
    "DecodeString i = Ok ([1, 0, 0, 0] @ [1] @ replicate 32 0 @ [0xff, 0xff, 0xff, 0xff]
       @ compact_bytes (?al + of_nat (length h)) @ h)" by (rule CoinbaseInitial_bytes)
  obtain f where f: "bind_out (Template_CoinbaseFinal ripemd t key) CoinbaseFinal_Serialize = Ok f"
    "DecodeString f = Ok ([0, 0, 0, 0] @ compact_bytes (of_nat (length outs))
       @ concat (map (\<lambda>(v, s). output_bytes v s) outs) @ [0, 0, 0, 0])"
    using w unfolding workable_def outs_def by (elim conjE) (rule CoinbaseFinal_bytes)
  obtain ids where "decodes (map tx_ID (tpl_Transactions t)) ids"
    using w decodes_valid [of "map tx_ID (tpl_Transactions t)"] by (auto simp: workable_def)
  then obtain st where st: "MerkleSteps t = Ok st" using MerkleSteps_path by blast
  obtain p where p: "reverseHex4Bytes (tpl_PrevBlockHash t) = Ok p"
    using w by (auto simp: workable_def reverseHex4Bytes_def Let_def mod_eq_0_iff_dvd)
  have af: "DecodeString (EncodeToString (bytesWithLengthHeader (string_bytes arbitrary)) @ f)
      = Ok (bytesWithLengthHeader (string_bytes arbitrary) @ [0, 0, 0, 0]
       @ compact_bytes (of_nat (length outs))
       @ concat (map (\<lambda>(v, s). output_bytes v s) outs) @ [0, 0, 0, 0])"
    by (intro DecodeString_append DecodeString_encode f(2))
  show thesis
    by (rule that [of "empty_block\<lparr>bb_chain := Some chain, bb_Template := Some t,
          bb_reversePrevBlockHash := p, bb_coinbaseInitial := i,
          bb_coinbaseFinal := EncodeToString (bytesWithLengthHeader (string_bytes arbitrary)) @ f,
          bb_merkleSteps := st\<rparr>"])
      (use i f st p c h al af in \<open>simp_all add: GenerateWork_def BitcoinBlock_init_def empty_block_def
          bytesWithLengthHeader_def ac_simps\<close>)
qed

text \<open>The mined coinbase of generated work, read back.\<close>

definition pool_coinbase :: "bytes \<Rightarrow> bytes \<Rightarrow> string \<Rightarrow> (u64 \<times> bytes) list \<Rightarrow> parsed_coinbase" where
  "pool_coinbase height extranonce arbitrary outs =
     \<lparr>pc_version = 1, pc_prev = replicate 32 0, pc_index = 2 ^ 32 - 1,
      pc_script = height @ extranonce @ [of_nat (length arbitrary)] @ string_bytes arbitrary,
      pc_sequence = 0, pc_outputs = map (\<lambda>(v, s). (unat v, s)) outs, pc_locktime = 0\<rparr>"

lemma generated_coinbase_bytes:
  assumes w: "workable ripemd t arbitrary key kb wb" and c: "GetChain scryptKey name = Ok chain"
    and e: "DecodeString extranonce = Ok eb" "length eb = 8"
  obtains b work h bs where
    "GenerateWork scryptKey ripemd jobs (Some t) name arbitrary key 8 = Ok (jobs + 1, b, work)"
    "bb_Template b = Some t" "bb_chain b = Some chain" "Ok (bb_merkleSteps b) = MerkleSteps t"
    "encodeNumber (tpl_Height t) = Ok h"
    "DecodeString (bb_coinbaseInitial b @ extranonce @ bb_coinbaseFinal b) = Ok bs"
    "\<forall>rest. read_coinbase (bs @ rest) = Some (pool_coinbase h eb arbitrary
        (coinbase_outs (ripemd (Sum256 kb)) kb wb (tpl_CoinBaseValue t)), rest)"
proof -
  define outs where "outs = coinbase_outs (ripemd (Sum256 kb)) kb wb (tpl_CoinBaseValue t)"
  obtain b work h ib fb where g:
    "GenerateWork scryptKey ripemd jobs (Some t) name arbitrary key 8 = Ok (jobs + 1, b, work)"
    "bb_Template b = Some t" "bb_chain b = Some chain" "Ok (bb_merkleSteps b) = MerkleSteps t"
    "encodeNumber (tpl_Height t) = Ok h" "length h \<le> 9"
    "DecodeString (bb_coinbaseInitial b) = Ok ib" "DecodeString (bb_coinbaseFinal b) = Ok fb"
    "ib = [1, 0, 0, 0] @ [1] @ replicate 32 0 @ [0xff, 0xff, 0xff, 0xff]
       @ compact_bytes (of_nat (length h + 8 + 1 + length arbitrary)) @ h"
    "fb = (of_nat (length arbitrary) # string_bytes arbitrary) @ [0, 0, 0, 0]
       @ compact_bytes (of_nat (length outs))
       @ concat (map (\<lambda>(v, s). output_bytes v s) outs) @ [0, 0, 0, 0]"
    using w c unfolding outs_def by (rule GenerateWork_block)
  define script where "script = h @ eb @ [of_nat (length arbitrary)] @ string_bytes arbitrary"
  have "unat (of_nat (length h + 8 + 1 + length arbitrary) :: u64) = length h + 8 + 1 + length arbitrary"
    using g(6) w by (simp only: unat_of_nat) (simp add: workable_def)
  then have 1: "unat (of_nat (length h + 8 + 1 + length arbitrary) :: u64) = length script"
    using e(2) by (simp only: script_def) simp
  have 2: "unat (of_nat (length outs) :: u64) = length outs"
    by (simp add: outs_def coinbase_outs_def unat_of_nat)
  have 3: "\<forall>(v, s) \<in> set outs. length s < 2 ^ 64"
    using w by (auto simp: outs_def coinbase_outs_def workable_def p2pkh_def)
  have "DecodeString (bb_coinbaseInitial b @ extranonce @ bb_coinbaseFinal b) = Ok (ib @ eb @ fb)"
    by (intro DecodeString_append g e)
  moreover have "read_coinbase ((ib @ eb @ fb) @ rest) = Some (pool_coinbase h eb arbitrary outs, rest)"
    for rest
    using read_coinbase_bytes [OF 1 2 3, of rest]
    by (simp add: g(9,10) pool_coinbase_def script_def)
  ultimately show thesis using g(1-5) that unfolding outs_def by blast
qed

lemma blockHeader_bytes:
  assumes "DecodeString prev = Ok pb" "DecodeString mroot = Ok rb" "DecodeString nTime = Ok tb"
    "DecodeString bits = Ok bb" "DecodeString nonce = Ok nb"
  shows "blockHeader v prev mroot nTime bits nonce
    = Ok (EncodeToString (le_bytes 4 (ucast v :: u32) @ rev pb @ rb @ rev tb @ rev bb @ rev nb))"
  using assms by (simp add: blockHeader_def)

text \<open>A chain that keeps the contract makes the header of its block.\<close>

context blockchain
begin

lemma CoinbaseHashed_bytes:
  "bb_chain b = Some chain \<Longrightarrow> DecodeString (bb_coinbase b) = Ok bs \<Longrightarrow>
   CoinbaseHashed b = Ok (EncodeToString (doubleSha256Bytes bs))"
  by (simp add: CoinbaseHashed_def coinbase_digest_Ok)

lemma MakeHeader_bytes:
  assumes "bb_Template b = Some t" "bb_chain b = Some chain" "Ok (bb_merkleSteps b) = MerkleSteps t"
    and "DecodeString (bb_coinbaseInitial b @ extranonce @ bb_coinbaseFinal b) = Ok cb"
    and "decodes (map tx_ID (tpl_Transactions t)) ids"
    and "DecodeString (tpl_PrevBlockHash t) = Ok pb" "DecodeString nTime = Ok tb"
    and "DecodeString (tpl_Bits t) = Ok bits" "DecodeString nonce = Ok nb"
  defines "header \<equiv> le_bytes 4 (ucast (tpl_Version t) :: u32) @ rev pb
     @ tree_root doubleSha256Bytes (doubleSha256Bytes cb # map rev ids) @ rev tb @ rev bits @ rev nb"
  shows "MakeHeader b extranonce nonce nTime =
    (b\<lparr>bb_coinbase := bb_coinbaseInitial b @ extranonce @ bb_coinbaseFinal b,
       bb_header := EncodeToString header\<rparr>, Ok (EncodeToString header))"
proof -
  obtain st where st: "MerkleSteps t = Ok st" "decodes st (first_path doubleSha256Bytes (map rev ids))"
    using MerkleSteps_path [OF assms(5)] by blast
  have "makeHeaderMerkleRoot (EncodeToString (doubleSha256Bytes cb)) st
      = Ok (EncodeToString (tree_root doubleSha256Bytes (doubleSha256Bytes cb # map rev ids)))"
    by (simp add: makeHeaderMerkleRoot_def merkle_root_loop_fold [OF st(2)] dsha.fold_first_path)
  then show ?thesis
    using assms(1-4) st(1) assms(6-)
    by (simp add: MakeHeader_def Coinbase_Serialize_def CoinbaseHashed_bytes blockHeader_bytes)
qed

lemma Sum_bytes:
  assumes "bb_chain b = Some chain" "DecodeString (bb_header b) = Ok hb" "hb \<noteq> []"
  shows "Sum b = (b\<lparr>bb_hash := EncodeToString (rev (work_hash hb))\<rparr>, Ok (le_value (work_hash hb)))"
proof -
  have "bb_header b \<noteq> ''''" using assms(2,3) by (auto simp: DecodeString_def)
  then show ?thesis
    using assms by (simp add: Generator.Sum_def header_digest_Ok SetBytes_def)
qed

end

lemma Submit_bytes:
  assumes "bb_Template b = Some t" "bb_header b \<noteq> []"
    and "DecodeString (bb_header b) = Ok hb" "DecodeString (bb_coinbase b) = Ok cb"
    and "decodes (map tx_Data (tpl_Transactions t)) txs"
    and "DecodeString (tpl_MimbleWimble t) = Ok mw"
    and "length txs + 1 < 2 ^ 64" "length txs \<noteq> 252"
  shows "\<exists>s. Submit b = Ok s \<and> DecodeString s = Ok (hb @ compact_bytes (of_nat (length txs + 1)) @ cb
    @ concat txs @ (if mw = [] then [] else 1 # mw))"
proof -
  have buffer: "fold (\<lambda>transaction buffer. buffer @ tx_Data transaction) ts acc
      = acc @ concat (map tx_Data ts)" for ts acc
    by (induction ts arbitrary: acc) auto
  have "DecodeString (concat ss) = Ok (concat bss)" if "decodes ss bss" for ss bss
    using that
  proof (induction ss arbitrary: bss)
    case Nil
    then show ?case by (simp add: DecodeString_def)
  qed (auto simp: decodes_Cons DecodeString_append)
  then have txs: "DecodeString (buildTransactionBuffer t) = Ok (concat txs)"
    using assms(5) by (simp add: buildTransactionBuffer_def buffer)
  have len: "length (tpl_Transactions t) = length txs" using decodes_length [OF assms(5)] by simp
  have "unat (of_nat (length txs + 1) :: u64) = length txs + 1"
    using assms(7) by (subst unat_of_nat) simp
  then have "(of_nat (length txs + 1) :: u64) \<noteq> 253"
    using assms(8) by auto
  then have s: "createSubmissionHex b = Ok (bb_header b
      @ EncodeToString (compact_bytes (of_nat (length txs + 1))) @ bb_coinbase b @ buildTransactionBuffer t)"
    using assms(1) by (simp add: createSubmissionHex_def Submission_Serialize_def varUint_eq len)
  have mw: "tpl_MimbleWimble t = [] \<longleftrightarrow> mw = []" using DecodeString_length [OF assms(6)] by auto
  have d: "DecodeString (bb_header b
      @ EncodeToString (compact_bytes (of_nat (length txs + 1))) @ bb_coinbase b @ buildTransactionBuffer t)
      = Ok (hb @ compact_bytes (of_nat (length txs + 1)) @ cb @ concat txs)"
    by (intro DecodeString_append DecodeString_encode assms txs)
  have "DecodeString (''01'' @ tpl_MimbleWimble t) = Ok ([1] @ mw)"
    by (intro DecodeString_append coinbase_constants assms)
  with d show ?thesis
    using assms(1,2) s mw DecodeString_append [OF d] by (auto simp: Submit_def)
qed

lemma Submit_too_many:
  "bb_Template b = Some t \<Longrightarrow> bb_header b \<noteq> [] \<Longrightarrow> length (tpl_Transactions t) = 252 \<Longrightarrow>
   Submit b = Panic (PanicText ''Too large to stream'')"
  by (simp add: Submit_def createSubmissionHex_def varUint_eq)

section \<open>Properties\<close>

text \<open>
  C6. The coinbase a miner completes is a well-formed transaction: for a workable template
  and configuration, whatever eight extranonce bytes the miner puts between the two halves
  of the work packet, a node's reader takes the bytes as one transaction and stops at its
  end, and finds the null input, the script made of the height push, the extranonce and the
  pool's counted signature, and the outputs of the pool. The job counter goes up by one.
\<close>

theorem generated_coinbase_reads:
  assumes "workable ripemd t arbitrary key kb wb" and "GetChain scryptKey name = Ok chain"
    and "DecodeString extranonce = Ok eb" "length eb = 8"
  shows "\<exists>b work h bs.
    GenerateWork scryptKey ripemd jobs (Some t) name arbitrary key 8 = Ok (jobs + 1, b, work)
    \<and> encodeNumber (tpl_Height t) = Ok h
    \<and> work ! 2 = WString (bb_coinbaseInitial b) \<and> work ! 3 = WString (bb_coinbaseFinal b)
    \<and> DecodeString (bb_coinbaseInitial b @ extranonce @ bb_coinbaseFinal b) = Ok bs
    \<and> (\<forall>rest. read_coinbase (bs @ rest) = Some (pool_coinbase h eb arbitrary
         (coinbase_outs (ripemd (Sum256 kb)) kb wb (tpl_CoinBaseValue t)), rest))"
proof -
  obtain b work h bs where g:
    "GenerateWork scryptKey ripemd jobs (Some t) name arbitrary key 8 = Ok (jobs + 1, b, work)"
    "encodeNumber (tpl_Height t) = Ok h"
    "DecodeString (bb_coinbaseInitial b @ extranonce @ bb_coinbaseFinal b) = Ok bs"
    "\<forall>rest. read_coinbase (bs @ rest) = Some (pool_coinbase h eb arbitrary
        (coinbase_outs (ripemd (Sum256 kb)) kb wb (tpl_CoinBaseValue t)), rest)"
    using assms by (rule generated_coinbase_bytes)
  then have "work ! 2 = WString (bb_coinbaseInitial b)" "work ! 3 = WString (bb_coinbaseFinal b)"
    by (auto simp: GenerateWork_def outcome_simps Let_def BitcoinBlock_init_def)
  with g show ?thesis by blast
qed

text \<open>The header of the fields' bytes, each in internal byte order, and its size.\<close>

definition header_bytes :: "u64 \<Rightarrow> bytes \<Rightarrow> bytes \<Rightarrow> bytes list \<Rightarrow> bytes \<Rightarrow> bytes \<Rightarrow> bytes \<Rightarrow> bytes" where
  "header_bytes version pb cb ids tb bits nb =
     le_bytes 4 (ucast version :: u32) @ rev pb
       @ tree_root doubleSha256Bytes (doubleSha256Bytes cb # map rev ids) @ rev tb @ rev bits @ rev nb"

lemma coinbase_tree_root_length: "length (tree_root doubleSha256Bytes (doubleSha256Bytes cb # ids)) = 32"
proof (cases ids)
  case (Cons i rest)
  then show ?thesis using dsha.tree_root_digest [OF dsha.pair_level_digests, of "doubleSha256Bytes cb # ids"] by simp
qed simp

lemma header_bytes_length:
  "length pb = 32 \<Longrightarrow> length tb = 4 \<Longrightarrow> length bits = 4 \<Longrightarrow> length nb = 4 \<Longrightarrow>
   length (header_bytes version pb cb ids tb bits nb) = 80"
  by (simp add: header_bytes_def coinbase_tree_root_length le_bytes_def)

lemma mined_header:
  assumes "workable ripemd t arbitrary key kb wb" and "GetChain scryptKey name = Ok chain"
    and "DecodeString extranonce = Ok eb" "length eb = 8"
    and "decodes (map tx_ID (tpl_Transactions t)) ids"
    and "DecodeString (tpl_PrevBlockHash t) = Ok pb" "DecodeString nTime = Ok tb"
    and "DecodeString (tpl_Bits t) = Ok bits" "DecodeString nonce = Ok nb"
  obtains b work b' h cb header where
    "GenerateWork scryptKey ripemd jobs (Some t) name arbitrary key 8 = Ok (jobs + 1, b, work)"
    "work ! 2 = WString (bb_coinbaseInitial b)" "work ! 3 = WString (bb_coinbaseFinal b)"
    "bb_Template b = Some t" "bb_Template b' = Some t" "bb_chain b' = Some chain"
    "encodeNumber (tpl_Height t) = Ok h"
    "DecodeString (bb_coinbaseInitial b @ extranonce @ bb_coinbaseFinal b) = Ok cb"
    "read_coinbase cb = Some (pool_coinbase h eb arbitrary
        (coinbase_outs (ripemd (Sum256 kb)) kb wb (tpl_CoinBaseValue t)), [])"
    "header = header_bytes (tpl_Version t) pb cb ids tb bits nb"
    "MakeHeader b extranonce nonce nTime = (b', Ok (EncodeToString header))"
    "bb_coinbase b' = bb_coinbaseInitial b @ extranonce @ bb_coinbaseFinal b"
    "snd (Sum b') = Ok (le_value (scryptKey header header))"
proof -
  obtain b work h cb where g:
    "GenerateWork scryptKey ripemd jobs (Some t) name arbitrary key 8 = Ok (jobs + 1, b, work)"
    "bb_Template b = Some t" "bb_chain b = Some chain" "Ok (bb_merkleSteps b) = MerkleSteps t"
    "encodeNumber (tpl_Height t) = Ok h"
    "DecodeString (bb_coinbaseInitial b @ extranonce @ bb_coinbaseFinal b) = Ok cb"
    "\<forall>rest. read_coinbase (cb @ rest) = Some (pool_coinbase h eb arbitrary
        (coinbase_outs (ripemd (Sum256 kb)) kb wb (tpl_CoinBaseValue t)), rest)"
    using assms(1-4) by (rule generated_coinbase_bytes)
  have work: "work ! 2 = WString (bb_coinbaseInitial b)" "work ! 3 = WString (bb_coinbaseFinal b)"
    using g(1) by (auto simp: GenerateWork_def outcome_simps Let_def BitcoinBlock_init_def)
  have reads: "read_coinbase cb = Some (pool_coinbase h eb arbitrary
      (coinbase_outs (ripemd (Sum256 kb)) kb wb (tpl_CoinBaseValue t)), [])"
    using g(7) [rule_format, of "[]"] by simp
  define header where "header = header_bytes (tpl_Version t) pb cb ids tb bits nb"
  define b' where "b' = b\<lparr>bb_coinbase := bb_coinbaseInitial b @ extranonce @ bb_coinbaseFinal b,
    bb_header := EncodeToString header\<rparr>"
  have make: "MakeHeader b extranonce nonce nTime = (b', Ok (EncodeToString header))"
    using blockchain.MakeHeader_bytes [OF GetChain_blockchain [OF assms(2)] g(2-4,6) assms(5-9)]
    by (simp add: b'_def header_def header_bytes_def)
  have "header \<noteq> []" by (auto simp: header_def header_bytes_def le_bytes_def)
  then have sum: "snd (Sum b') = Ok (le_value (scryptKey header header))"
    using blockchain.Sum_bytes [OF GetChain_blockchain [OF assms(2)], of b' header] g(3)
    by (simp add: b'_def)
  have b': "bb_Template b' = Some t" "bb_chain b' = Some chain"
    "bb_coinbase b' = bb_coinbaseInitial b @ extranonce @ bb_coinbaseFinal b" using g(2,3) by (simp_all add: b'_def)
  show thesis
    by (rule that [OF g(1) work g(2) b'(1,2) g(5,6) reads header_def make b'(3) sum])
qed

text \<open>
  C2. What the mined header commits to: for a workable template whose remaining fields are
  hex, \<open>MakeHeader\<close> on the generated block gives the version, the previous block hash, the
  Merkle root of the completed coinbase and every transaction of the template, the time, the
  bits and the nonce, each in internal byte order. The completed coinbase is the one the miner
  hashed: the work's two halves around the miner's extranonce, and a reader of transactions
  finds the height, that extranonce, the signature and the outputs in it. With fields of
  the sizes of the protocol (32 bytes of hash, four bytes each of time, bits and nonce) the
  header has 80 bytes. \<open>Sum\<close> then gives the little-endian value of the chain's work hash of
  exactly those bytes.
\<close>

theorem mined_header_commits:
  assumes "workable ripemd t arbitrary key kb wb" and "GetChain scryptKey name = Ok chain"
    and "DecodeString extranonce = Ok eb" "length eb = 8"
    and "decodes (map tx_ID (tpl_Transactions t)) ids"
    and "DecodeString (tpl_PrevBlockHash t) = Ok pb" "DecodeString nTime = Ok tb"
    and "DecodeString (tpl_Bits t) = Ok bits" "DecodeString nonce = Ok nb"
  shows "\<exists>b work b' coinbase1 coinbase2 h cb header.
    GenerateWork scryptKey ripemd jobs (Some t) name arbitrary key 8 = Ok (jobs + 1, b, work)
    \<and> work ! 2 = WString coinbase1 \<and> work ! 3 = WString coinbase2
    \<and> DecodeString (coinbase1 @ extranonce @ coinbase2) = Ok cb
    \<and> encodeNumber (tpl_Height t) = Ok h
    \<and> read_coinbase cb = Some (pool_coinbase h eb arbitrary
        (coinbase_outs (ripemd (Sum256 kb)) kb wb (tpl_CoinBaseValue t)), [])
    \<and> MakeHeader b extranonce nonce nTime = (b', Ok (EncodeToString header))
    \<and> bb_coinbase b' = coinbase1 @ extranonce @ coinbase2
    \<and> header = le_bytes 4 (ucast (tpl_Version t) :: u32) @ rev pb
       @ tree_root doubleSha256Bytes (doubleSha256Bytes cb # map rev ids)
       @ rev tb @ rev bits @ rev nb
    \<and> (length pb = 32 \<and> length tb = 4 \<and> length bits = 4 \<and> length nb = 4 \<longrightarrow> length header = 80)
    \<and> snd (Sum b') = Ok (le_value (scryptKey header header))"
proof -
  obtain b work b' h cb header where g:
    "GenerateWork scryptKey ripemd jobs (Some t) name arbitrary key 8 = Ok (jobs + 1, b, work)"
    "work ! 2 = WString (bb_coinbaseInitial b)" "work ! 3 = WString (bb_coinbaseFinal b)"
    "encodeNumber (tpl_Height t) = Ok h"
    "DecodeString (bb_coinbaseInitial b @ extranonce @ bb_coinbaseFinal b) = Ok cb"
    "read_coinbase cb = Some (pool_coinbase h eb arbitrary
        (coinbase_outs (ripemd (Sum256 kb)) kb wb (tpl_CoinBaseValue t)), [])"
    "header = header_bytes (tpl_Version t) pb cb ids tb bits nb"
    "MakeHeader b extranonce nonce nTime = (b', Ok (EncodeToString header))"
    "bb_coinbase b' = bb_coinbaseInitial b @ extranonce @ bb_coinbaseFinal b"
    "snd (Sum b') = Ok (le_value (scryptKey header header))"
    using assms by (rule mined_header)
  have "length pb = 32 \<and> length tb = 4 \<and> length bits = 4 \<and> length nb = 4 \<longrightarrow> length header = 80"
    unfolding g(7) by (simp add: header_bytes_length)
  then show ?thesis
    using g unfolding header_bytes_def by blast
qed

text \<open>
  C7. The submitted block: if the header, the coinbase and the transactions' data are hex, the
  hex \<open>Submit\<close> returns stands for the header, the CompactSize count of transactions, the
  coinbase, the transactions in order and, on a chain with extension blocks, the marker byte
  and the extension; a template of exactly 252 transactions makes \<open>Submit\<close> panic.
\<close>

theorem submitted_block_layout:
  assumes "bb_Template b = Some t" "bb_header b \<noteq> []"
    and "DecodeString (bb_header b) = Ok hb" "DecodeString (bb_coinbase b) = Ok cb"
    and "decodes (map tx_Data (tpl_Transactions t)) txs"
    and "DecodeString (tpl_MimbleWimble t) = Ok mw" "length txs + 1 < 2 ^ 64"
  shows "if length txs = 252 then Submit b = Panic (PanicText ''Too large to stream'')
    else \<exists>s count. Submit b = Ok s
      \<and> DecodeString s = Ok (hb @ count @ cb @ concat txs @ (if mw = [] then [] else 1 # mw))
      \<and> (\<forall>rest. read_compact (count @ rest) = Some (length txs + 1, rest))"
proof (cases "length txs = 252")
  case True
  then show ?thesis
    using Submit_too_many [OF assms(1,2)] decodes_length [OF assms(5)] by simp
next
  case False
  have "unat (of_nat (length txs + 1) :: u64) = length txs + 1"
    using assms(7) by (subst unat_of_nat) simp
  then have "\<forall>rest. read_compact (compact_bytes (of_nat (length txs + 1)) @ rest) = Some (length txs + 1, rest)"
    using read_compact_bytes by metis
  then show ?thesis
    using False Submit_bytes [OF assms False] by metis
qed

section \<open>Witnesses\<close>

lemma example_workable:
  "workable (\<lambda>_. replicate 20 7) example_template ''pool'' example_key [3, 0xab] []"
proof -
  have "DecodeString example_key = Ok [3, 0xab]" by code_simp
  moreover have "valid_hex ''aa01'' \<and> valid_hex ''BB02'' \<and> valid_hex ''cc03''" by code_simp
  moreover have "8 dvd length (tpl_PrevBlockHash example_template)" by code_simp
  ultimately show ?thesis
    by (simp add: workable_def example_template_def example_transaction_def DecodeString_def del: length_Cons)
qed

theorem generated_coinbase_reads_witness:
  "\<exists>b work h bs.
    GenerateWork (\<lambda>p s. take 32 (p @ replicate 32 0)) (\<lambda>_. replicate 20 7) 7 (Some example_template)
      ''litecoin'' ''pool'' example_key 8 = Ok (8, b, work)
    \<and> encodeNumber 2410822 = Ok h
    \<and> DecodeString (bb_coinbaseInitial b @ ''0102030405060708'' @ bb_coinbaseFinal b) = Ok bs
    \<and> read_coinbase bs = Some (pool_coinbase h [1, 2, 3, 4, 5, 6, 7, 8] ''pool''
         (coinbase_outs (replicate 20 7) [3, 0xab] [] 5000000000), [])"
proof -
  have c: "GetChain (\<lambda>p s. take 32 (p @ replicate 32 0)) ''litecoin''
      = Ok (Litecoin (\<lambda>p s. take 32 (p @ replicate 32 0)))" by (simp add: GetChain_def)
  have e: "DecodeString ''0102030405060708'' = Ok [1, 2, 3, 4, 5, 6, 7, 8]" by code_simp
  have "length [1, 2, 3, 4, 5, 6, 7, 8 :: byte] = 8" by simp
  from generated_coinbase_reads [OF example_workable c e this, of 7]
  obtain b work h bs where r:
    "GenerateWork (\<lambda>p s. take 32 (p @ replicate 32 0)) (\<lambda>_. replicate 20 7) 7 (Some example_template)
      ''litecoin'' ''pool'' example_key 8 = Ok (7 + 1, b, work)"
    "encodeNumber (tpl_Height example_template) = Ok h"
    "DecodeString (bb_coinbaseInitial b @ ''0102030405060708'' @ bb_coinbaseFinal b) = Ok bs"
    "\<forall>rest. read_coinbase (bs @ rest) = Some (pool_coinbase h [1, 2, 3, 4, 5, 6, 7, 8] ''pool''
         (coinbase_outs (replicate 20 7) [3, 0xab] [] (tpl_CoinBaseValue example_template)), rest)"
    by blast
  have "read_coinbase bs = Some (pool_coinbase h [1, 2, 3, 4, 5, 6, 7, 8] ''pool''
         (coinbase_outs (replicate 20 7) [3, 0xab] [] (tpl_CoinBaseValue example_template)), [])"
    using r(4) [rule_format, of "[]"] by simp
  moreover have "tpl_CoinBaseValue example_template = 5000000000" "tpl_Height example_template = 2410822"
    by (simp_all add: example_template_def)
  moreover have "(7 :: u64) + 1 = 8" by simp
  ultimately show ?thesis using r(1-3) by metis
qed

definition long_hash :: string where
  "long_hash = ''0011223344556677'' @ concat (replicate 6 ''01234567'')"

lemma long_hash_bytes: "\<exists>pb. DecodeString long_hash = Ok pb \<and> length pb = 32"
proof -
  have "(case DecodeString long_hash of Ok pb \<Rightarrow> length pb = 32 | _ \<Rightarrow> False)" by code_simp
  then show ?thesis by (auto split: outcome.splits)
qed

lemma example_long_workable:
  "workable (\<lambda>_. replicate 20 7) (example_template\<lparr>tpl_PrevBlockHash := long_hash\<rparr>) ''pool'' example_key [3, 0xab] []"
proof -
  have "valid_hex long_hash \<and> 8 dvd length long_hash" by code_simp
  then show ?thesis using example_workable by (simp add: workable_def)
qed

theorem mined_header_commits_witness:
  "\<exists>b work b' coinbase1 coinbase2 cb header.
    GenerateWork (\<lambda>p s. take 32 (p @ replicate 32 0)) (\<lambda>_. replicate 20 7) 7
      (Some (example_template\<lparr>tpl_PrevBlockHash := long_hash\<rparr>)) ''litecoin'' ''pool'' example_key 8 = Ok (8, b, work)
    \<and> work ! 2 = WString coinbase1 \<and> work ! 3 = WString coinbase2
    \<and> DecodeString (coinbase1 @ ''0102030405060708'' @ coinbase2) = Ok cb
    \<and> MakeHeader b ''0102030405060708'' ''00000009'' ''5f000000'' = (b', Ok (EncodeToString header))
    \<and> length header = 80 \<and> take 4 header = [0, 0, 0, 0x20] \<and> drop 76 header = [9, 0, 0, 0]
    \<and> snd (Sum b') = Ok (le_value (take 32 header))"
proof -
  let ?t = "example_template\<lparr>tpl_PrevBlockHash := long_hash\<rparr>"
  have c: "GetChain (\<lambda>p s. take 32 (p @ replicate 32 0)) ''litecoin''
      = Ok (Litecoin (\<lambda>p s. take 32 (p @ replicate 32 0)))" by (simp add: GetChain_def)
  have e: "DecodeString ''0102030405060708'' = Ok [1, 2, 3, 4, 5, 6, 7, 8]" by code_simp
  have l: "length [1, 2, 3, 4, 5, 6, 7, 8 :: byte] = 8" by simp
  have ids: "decodes (map tx_ID (tpl_Transactions ?t)) [[0xaa, 0x01], [0xbb, 0x02], [0xcc, 0x03]]"
    by (simp add: example_template_def example_transaction_def DecodeString_def hex_val_def)
  obtain pb where pb: "DecodeString (tpl_PrevBlockHash ?t) = Ok pb" "length pb = 32" using long_hash_bytes by auto
  have tb: "DecodeString ''5f000000'' = Ok [0x5f, 0, 0, 0]" by code_simp
  have bits: "DecodeString (tpl_Bits ?t) = Ok [0x1a, 0x01, 0xd8, 0xa4]" by code_simp
  have nb: "DecodeString ''00000009'' = Ok [0, 0, 0, 9]" by code_simp
  have v: "le_bytes 4 (ucast (tpl_Version ?t) :: u32) = [0, 0, 0, 0x20]" by code_simp
  have j: "(7 :: u64) + 1 = 8" by simp
  obtain b work b' coinbase1 coinbase2 cb header where r:
    "GenerateWork (\<lambda>p s. take 32 (p @ replicate 32 0)) (\<lambda>_. replicate 20 7) 7 (Some ?t)
      ''litecoin'' ''pool'' example_key 8 = Ok (7 + 1, b, work)"
    "work ! 2 = WString coinbase1" "work ! 3 = WString coinbase2"
    "DecodeString (coinbase1 @ ''0102030405060708'' @ coinbase2) = Ok cb"
    "MakeHeader b ''0102030405060708'' ''00000009'' ''5f000000'' = (b', Ok (EncodeToString header))"
    "header = [0, 0, 0, 0x20] @ rev pb
       @ tree_root doubleSha256Bytes (doubleSha256Bytes cb # map rev [[0xaa, 0x01], [0xbb, 0x02], [0xcc, 0x03]])
       @ rev [0x5f, 0, 0, 0] @ rev [0x1a, 0x01, 0xd8, 0xa4] @ rev [0, 0, 0, 9]"
    "length pb = 32 \<and> length [0x5f, 0, 0, 0 :: byte] = 4 \<and> length [0x1a, 0x01, 0xd8, 0xa4 :: byte] = 4
       \<and> length [0, 0, 0, 9 :: byte] = 4 \<longrightarrow> length header = 80"
    "snd (Sum b') = Ok (le_value (take 32 (header @ replicate 32 0)))"
    using mined_header_commits [OF example_long_workable c e l ids pb(1) tb bits nb, of 7] unfolding v
    by (elim exE conjE) (rule that; assumption)
  have size: "length header = 80" using r(7) pb(2) by simp
  have "take 4 header = [0, 0, 0, 0x20]" unfolding r(6) by simp
  moreover have "drop 76 header = [9, 0, 0, 0]"
    unfolding r(6) using pb(2) coinbase_tree_root_length [of cb "map rev [[0xaa, 0x01], [0xbb, 0x02], [0xcc, 0x03]]"] by simp
  moreover have "take 32 (header @ replicate 32 0) = take 32 header" using size by simp
  ultimately show ?thesis using r(1-5,8) size unfolding j by metis
qed

theorem submitted_block_layout_witness:
  "Submit (empty_block\<lparr>bb_Template := Some (example_template\<lparr>tpl_Transactions := []\<rparr>),
     bb_header := ''aabb'', bb_coinbase := ''cc''\<rparr>) \<noteq> Panic (PanicText ''Too large to stream'')
   \<and> (\<exists>s count. Submit (empty_block\<lparr>bb_Template := Some (example_template\<lparr>tpl_Transactions := []\<rparr>),
        bb_header := ''aabb'', bb_coinbase := ''cc''\<rparr>) = Ok s
      \<and> DecodeString s = Ok ([0xaa, 0xbb] @ count @ [0xcc])
      \<and> read_compact count = Some (1, []))"
proof -
  let ?b = "empty_block\<lparr>bb_Template := Some (example_template\<lparr>tpl_Transactions := []\<rparr>),
     bb_header := ''aabb'', bb_coinbase := ''cc''\<rparr>"
  have h: "DecodeString (bb_header ?b) = Ok [0xaa, 0xbb]" and cb: "DecodeString (bb_coinbase ?b) = Ok [0xcc]"
    by code_simp+
  have m: "DecodeString (tpl_MimbleWimble (example_template\<lparr>tpl_Transactions := []\<rparr>)) = Ok []"
    by code_simp
  have "\<exists>s count. Submit ?b = Ok s
      \<and> DecodeString s = Ok ([0xaa, 0xbb] @ count @ [0xcc] @ concat [] @ (if ([] :: bytes) = [] then [] else 1 # []))
      \<and> (\<forall>rest. read_compact (count @ rest) = Some (length ([] :: bytes list) + 1, rest))"
    using submitted_block_layout [OF _ _ h cb _ m, of "[]"] by simp
  then obtain s count where r: "Submit ?b = Ok s" "DecodeString s = Ok ([0xaa, 0xbb] @ count @ [0xcc])"
    "\<forall>rest. read_compact (count @ rest) = Some (1, rest)" by auto
  have "read_compact count = Some (1, [])" using r(3) [rule_format, of "[]"] by simp
  then show ?thesis using r(1,2) by auto
qed

end
