(* ===== verification/AuxPow.thy ===== *)
theory AuxPow
  imports Generator
begin

text \<open>
  Merged mining: the auxiliary chains' Merkle tree whose root goes into the parent's coinbase
  (first part of \<open>src/pool/work.go\<close>), the branch that proves an auxiliary block is in that
  tree (\<open>src/bitcoin/auxMerkelBranch.go\<close>) and the proof of work submitted to the auxiliary
  chain (\<open>src/bitcoin/auxpow.go\<close>). The reference is folding a branch by the bits of the
  leaf's index.
\<close>

section \<open>Reference: the branch of a leaf at an index\<close>

fun fold_index :: "(bytes \<Rightarrow> bytes) \<Rightarrow> bytes \<Rightarrow> bytes list \<Rightarrow> nat \<Rightarrow> bytes" where
  "fold_index H x [] i = x"
| "fold_index H x (s # ss) i = fold_index H (if even i then H (x @ s) else H (s @ x)) ss (i div 2)"

fun index_path :: "(bytes \<Rightarrow> bytes) \<Rightarrow> nat \<Rightarrow> bytes list \<Rightarrow> nat \<Rightarrow> bytes list" where
  "index_path H 0 level i = []"
| "index_path H (Suc k) level i = level ! (i XOR 1) # index_path H k (pair_level H level) (i div 2)"

lemma length_index_path [simp]: "length (index_path H k level i) = k"
  by (induction H k level i rule: index_path.induct) auto

lemma nth_pair_level:
  "2 * j + 1 < length xs \<Longrightarrow> pair_level H xs ! j = H (xs ! (2 * j) @ xs ! (2 * j + 1))"
proof (induction H xs arbitrary: j rule: pair_level.induct)
  case (1 H x y rest)
  show ?case
  proof (cases j)
    case (Suc n)
    then have e: "2 * j = Suc (Suc (2 * n))" "2 * j + 1 = Suc (Suc (2 * n + 1))" by simp_all
    have "2 * n + 1 < length rest" using "1.prems" Suc by simp
    then have "pair_level H rest ! n = H (rest ! (2 * n) @ rest ! (2 * n + 1))" by (rule "1.IH")
    then show ?thesis unfolding e(2) nth_Cons_Suc unfolding e(1) nth_Cons_Suc unfolding Suc pair_level.simps nth_Cons_Suc .
  qed simp
qed simp_all

context block_hash
begin

lemma fold_index_path:
  "length level = 2 ^ k \<Longrightarrow> i < 2 ^ k \<Longrightarrow>
   fold_index H (level ! i) (index_path H k level i) i = tree_root H level"
proof (induction k arbitrary: level i)
  case 0
  then have "length level = Suc 0" by simp
  then obtain x where "level = [x]" by (cases level) auto
  then show ?case using 0 by simp
next
  case (Suc k)
  define j where "j = i div 2"
  have len: "length (pair_level H level) = 2 ^ k" using Suc.prems by (simp add: length_pair_level)
  have j: "j < 2 ^ k" using Suc.prems by (simp add: j_def less_mult_imp_div_less)
  have "2 * j + 1 < length level" using j Suc.prems by simp
  then have n: "pair_level H level ! j = H (level ! (2 * j) @ level ! (2 * j + 1))"
    by (rule nth_pair_level)
  obtain x y rest where "level = x # y # rest"
    using Suc.prems(1) by (cases level; cases "tl level") auto
  then have r: "tree_root H level = tree_root H (pair_level H level)" by simp
  have "(if even i then H (level ! i @ level ! (i XOR 1)) else H (level ! (i XOR 1) @ level ! i))
      = pair_level H level ! j"
  proof (cases "even i")
    case True
    then have "2 * j = i" "i XOR 1 = 2 * j + 1" by (simp_all add: j_def xor_one_eq del: One_nat_def)
    then show ?thesis using True by (simp add: n)
  next
    case False
    then have "2 * j + 1 = i" unfolding j_def by presburger
    moreover from this have "i XOR 1 = 2 * j" using False by (simp add: xor_one_eq del: One_nat_def)
    ultimately show ?thesis using False by (simp add: n)
  qed
  then show ?case using Suc.IH [OF len j]
    by (simp only: r j_def index_path.simps fold_index.simps)
qed

end

section \<open>src/bitcoin/auxMerkelBranch.go\<close>

record AuxMerkleBranch =
  amb_numberOfBranches :: string
  amb_branchHashes :: bytes
  amb_mask :: string

text \<open>In \<open>1 << h\<close> the 1 is a \<open>uint32\<close>: from 32 on the shift gives 0, and the remainder panics.\<close>

definition getExpectedIndex :: "u64 \<Rightarrow> nat \<Rightarrow> u32 outcome" where
  "getExpectedIndex nChainId h =
     (let rand = 0;
          rand = rand * 1103515245 + 12345;
          rand = rand + ucast nChainId;
          rand = rand * 1103515245 + 12345;
          m = push_bit h 1
      in if m = 0 then Panic PanicDivide else Ok (rand mod m))"

text \<open>A slot is nil until a hash is stored in it.\<close>

fun leaf_loop :: "nat \<Rightarrow> AuxBlock list \<Rightarrow> bytes option list \<Rightarrow> bytes option list outcome" where
  "leaf_loop i [] slots = Ok slots"
| "leaf_loop i (auxblock # rest) slots =
     bind_out (DecodeString (aux_Hash auxblock)) (\<lambda>hash.
     bind_out (nth_out slots i) (\<lambda>_.
     bind_out (getExpectedIndex (aux_ChainID auxblock) 4) (\<lambda>index.
     bind_out (put_out slots (unat index) (Some (ReverseBytes hash))) (\<lambda>slots.
       leaf_loop (i + 1) rest slots))))"

definition BuildMerkleLeaf :: "nat \<Rightarrow> AuxBlock list \<Rightarrow> bytes option list outcome" where
  "BuildMerkleLeaf merkleSize auxblocks =
     bind_out (leaf_loop 0 auxblocks (replicate merkleSize None)) (\<lambda>slots.
       Ok (map (\<lambda>slot. case slot of None \<Rightarrow> Some (replicate 32 0) | Some h \<Rightarrow> Some h) slots))"

text \<open>A call whose error is discarded: the slots are nil then, an empty slice.\<close>

fun drop_err :: "'a list outcome \<Rightarrow> 'a list outcome" where
  "drop_err (Err e) = Ok []"
| "drop_err r = r"

text \<open>A nil slice has the bytes of an empty one.\<close>

definition slot_bytes :: "bytes option \<Rightarrow> bytes" where
  "slot_bytes s = (case s of None \<Rightarrow> [] | Some b \<Rightarrow> b)"

fun search_loop :: "bytes \<Rightarrow> nat \<Rightarrow> bytes option list \<Rightarrow> nat \<times> string \<Rightarrow> nat \<times> string" where
  "search_loop searchedHash idx [] found = found"
| "search_loop searchedHash idx (hash # rest) found =
     search_loop searchedHash (idx + 1) rest
       (if slot_bytes hash = searchedHash then (idx, ''0'' @ show_dec idx @ ''000000'') else found)"

text \<open>One level; a last hash without a neighbour is an index out of range.\<close>

fun branch_level :: "nat \<Rightarrow> bytes list \<Rightarrow> bytes list outcome" where
  "branch_level i [] = Ok []"
| "branch_level i [x] = Panic (PanicIndex (i + 1) (i + 1))"
| "branch_level i (x # y # rest) =
     bind_out (branch_level (i + 2) rest) (\<lambda>newLevel. Ok (DoubleSHA256 (x @ y) # newLevel))"

lemma branch_level_eq:
  "branch_level i xs =
     (if even (length xs) then Ok (pair_level doubleSha256Bytes xs)
      else Panic (PanicIndex (i + length xs) (i + length xs)))"
  by (induction i xs rule: branch_level.induct) auto

lemma branch_level_length: "branch_level i xs = Ok ys \<Longrightarrow> length ys = length xs div 2"
  by (auto simp: branch_level_eq length_pair_level split: if_splits)

function branch_loop :: "bytes list \<Rightarrow> nat \<Rightarrow> bytes list \<Rightarrow> bytes list outcome" where
  "branch_loop currentLevel searchedIndex merkleBranch =
     (if length currentLevel > 1
      then let siblingIndex = searchedIndex XOR 1 in
           bind_out (nth_out currentLevel siblingIndex) (\<lambda>sibling.
           bind_out (branch_level 0 currentLevel) (\<lambda>newLevel.
             branch_loop newLevel (searchedIndex div 2) (merkleBranch @ [sibling])))
      else Ok merkleBranch)"
  by pat_completeness auto
termination
  by (relation "measure (\<lambda>(level, i, b). length level)") (auto dest: branch_level_length)

declare branch_loop.simps [simp del]

text \<open>\<open>auxblocks[n-1]\<close>; the hash's decoding error is discarded, the bytes before it are kept.\<close>

definition buildMerkleBranchesAndMask ::
    "nat \<Rightarrow> AuxBlock list \<Rightarrow> nat \<Rightarrow> (bytes list \<times> string) outcome" where
  "buildMerkleBranchesAndMask merkleSize auxblocks n =
     bind_out (drop_err (BuildMerkleLeaf merkleSize auxblocks)) (\<lambda>slots.
     bind_out (if n = 0 then Panic (PanicText ''index out of range [-1]'')
               else nth_out auxblocks (n - 1)) (\<lambda>searched.
     let searchedHash = ReverseBytes (fst (hex_decode (aux_Hash searched)));
         (searchedIndex, merkleMask) = search_loop searchedHash 0 slots (0, '''');
         currentLevel = map slot_bytes slots
     in bind_out (branch_loop currentLevel searchedIndex []) (\<lambda>merkleBranch.
          Ok (merkleBranch, merkleMask))))"

definition makeAuxChainMerkleBranch :: "BitcoinBlock \<Rightarrow> nat \<Rightarrow> AuxMerkleBranch outcome" where
  "makeAuxChainMerkleBranch b n =
     bind_out (deref (bb_Template b)) (\<lambda>t.
     bind_out (buildMerkleBranchesAndMask 8 (tpl_AuxBlocks t) n) (\<lambda>(merkleBranches, mask).
       let concatMerkelBranch = fold (\<lambda>b c. c @ b) merkleBranches []
       in Ok \<lparr>amb_numberOfBranches = ''0'' @ show_dec (length merkleBranches),
              amb_branchHashes = concatMerkelBranch, amb_mask = mask\<rparr>))"

definition AuxMerkleBranch_Serialize :: "AuxMerkleBranch \<Rightarrow> string" where
  "AuxMerkleBranch_Serialize am =
     amb_numberOfBranches am @ EncodeToString (amb_branchHashes am) @ amb_mask am"

section \<open>src/bitcoin/auxpow.go\<close>

record ParentMerkleBranch =
  pmb_Length :: u64
  pmb_Items :: "string list"
  pmb_mask :: string

record AuxPow =
  ap_ParentCoinbase :: string
  ap_ParentHeaderHash :: string
  ap_ParentMerkleBranch :: ParentMerkleBranch
  ap_auxMerkleBranch :: AuxMerkleBranch
  ap_ParentHeaderUnhashed :: string

definition makeParentMerkleBranch :: "string list \<Rightarrow> ParentMerkleBranch" where
  "makeParentMerkleBranch items =
     \<lparr>pmb_Length = of_nat (length items), pmb_Items = items, pmb_mask = ''00000000''\<rparr>"

definition ParentMerkleBranch_Serialize :: "ParentMerkleBranch \<Rightarrow> string outcome" where
  "ParentMerkleBranch_Serialize pm =
     (let items = fold (\<lambda>item items. items @ item) (pmb_Items pm) ''''
      in bind_out (varUint (pmb_Length pm)) (\<lambda>l. Ok (l @ items @ pmb_mask pm)))"

definition MakeAuxPow :: "BitcoinBlock \<Rightarrow> nat \<Rightarrow> AuxPow outcome" where
  "MakeAuxPow parentBlock n =
     (if bb_hash parentBlock = '''' then Panic (PanicText ''Set parent block hash first'')
      else bind_out (makeAuxChainMerkleBranch parentBlock n) (\<lambda>auxBranch.
        Ok \<lparr>ap_ParentCoinbase = bb_coinbase parentBlock,
            ap_ParentHeaderHash = bb_hash parentBlock,
            ap_ParentMerkleBranch = makeParentMerkleBranch (bb_merkleSteps parentBlock),
            ap_auxMerkleBranch = auxBranch,
            ap_ParentHeaderUnhashed = bb_header parentBlock\<rparr>))"

definition AuxPow_Serialize :: "AuxPow \<Rightarrow> string outcome" where
  "AuxPow_Serialize p =
     bind_out (ParentMerkleBranch_Serialize (ap_ParentMerkleBranch p)) (\<lambda>parentBranch.
       Ok (ap_ParentCoinbase p @ ap_ParentHeaderHash p @ parentBranch
         @ AuxMerkleBranch_Serialize (ap_auxMerkleBranch p) @ ap_ParentHeaderUnhashed p))"

section \<open>src/pool/work.go: the coinbase commitment\<close>

definition magic :: string where "magic = [CHR 0xFA, CHR 0xBE, CHR 0x6D, CHR 0x6D]"

definition int32ToBytes :: "u32 \<Rightarrow> bytes" where "int32ToBytes i = le_bytes 4 i"

definition createScriptSig :: "u32 \<Rightarrow> u32 \<Rightarrow> bytes \<Rightarrow> bytes" where
  "createScriptSig merkleNonce merkleSize merkleRoot =
     string_bytes magic @ ReverseBytes merkleRoot @ int32ToBytes merkleSize @ int32ToBytes merkleNonce"

fun root_level :: "bytes list \<Rightarrow> bytes list" where
  "root_level [] = []"
| "root_level [left] = [DoubleSHA256 (left @ left)]"
| "root_level (left # right # rest) = DoubleSHA256 (left @ right) # root_level rest"

lemma root_level_eq: "root_level xs = pair_level doubleSha256Bytes xs"
  by (induction xs rule: root_level.induct) auto

function root_loop :: "bytes list \<Rightarrow> bytes list" where
  "root_loop currentLevel =
     (if length currentLevel > 1 then root_loop (root_level currentLevel) else currentLevel)"
  by pat_completeness auto
termination
  by (relation "measure length") (auto simp: root_level_eq length_pair_level)

declare root_loop.simps [simp del]

definition buildMerkleRoot :: "nat \<Rightarrow> AuxBlock list \<Rightarrow> bytes outcome" where
  "buildMerkleRoot merkleSize auxblocks =
     bind_out (drop_err (BuildMerkleLeaf merkleSize auxblocks)) (\<lambda>slots.
       let currentLevel = List.map_filter (\<lambda>hash. hash) slots
       in nth_out (root_loop currentLevel) 0)"

definition createMergedMiningCoinbase :: "AuxBlock list \<Rightarrow> u32 \<Rightarrow> string outcome" where
  "createMergedMiningCoinbase auxblocks merkleNonce =
     (let merkleSize = 16 in
      bind_out (buildMerkleRoot merkleSize auxblocks) (\<lambda>merkleRoot.
        let scriptSig = createScriptSig merkleNonce (of_nat merkleSize) merkleRoot
        in Ok (EncodeToString scriptSig)))"

section \<open>The slots\<close>

text \<open>The slot of a chain in a tree of height \<open>h\<close>, on unbounded integers as in
  \<open>src/getExpectedIndex.py\<close> with nonce 0.\<close>

definition expected_index :: "nat \<Rightarrow> nat \<Rightarrow> nat" where
  "expected_index chain_id h = ((0 * 1103515245 + 12345 + chain_id) * 1103515245 + 12345) mod 2 ^ h"

lemma getExpectedIndex_eq:
  assumes "h < 32"
  obtains r where "getExpectedIndex cid h = Ok r" "unat r = expected_index (unat cid) h"
proof -
  define r :: u32 where "r = (12345 + ucast cid) * 1103515245 + 12345"
  have m: "unat (push_bit h 1 :: u32) = 2 ^ h"
    using assms power_strict_increasing [of h 32 "2 :: nat"]
    by (subst unsigned_push_bit_eq) (simp add: take_bit_eq_mod push_bit_eq_mult)
  then have m0: "(push_bit h 1 :: u32) \<noteq> 0" by (metis unsigned_0 power_not_zero zero_neq_numeral)
  have "unat r = ((12345 + unat cid) * 1103515245 + 12345) mod 2 ^ 32"
    unfolding r_def unat_word_ariths unat_ucast_mod by (simp add: mod_simps)
  moreover have "(2 :: nat) ^ h dvd 2 ^ 32" using assms by (intro le_imp_power_dvd) simp
  ultimately have "unat (r mod push_bit h 1) = expected_index (unat cid) h"
    by (simp only: unat_mod m mod_mod_cancel expected_index_def) simp
  then show thesis
    using that m0 by (auto simp: getExpectedIndex_def Let_def r_def add_ac)
qed

abbreviation aux_slot :: "AuxBlock \<Rightarrow> nat" where
  "aux_slot a \<equiv> expected_index (unat (aux_ChainID a)) 4"

lemma aux_slot_bound: "aux_slot a < 16"
  by (simp add: expected_index_def)

lemma leaf_loop_step:
  assumes "DecodeString (aux_Hash a) = Ok h"
  shows "leaf_loop i (a # rest) slots =
    (if i < length slots
     then if aux_slot a < length slots then leaf_loop (i + 1) rest (slots[aux_slot a := Some (rev h)])
          else Panic (PanicIndex (aux_slot a) (length slots))
     else Panic (PanicIndex i (length slots)))"
proof -
  obtain r where "getExpectedIndex (aux_ChainID a) 4 = Ok r" "unat r = aux_slot a"
    using getExpectedIndex_eq [of 4] by auto
  then show ?thesis using assms by (auto simp: nth_out_def put_out_def)
qed

lemma leaf_loop_length: "leaf_loop i auxs slots = Ok slots' \<Longrightarrow> length slots' = length slots"
  by (induction i auxs slots rule: leaf_loop.induct) (auto simp: outcome_simps)

declare leaf_loop.simps(2) [simp del]

lemma leaf_loop_other:
  "leaf_loop i auxs slots = Ok slots' \<Longrightarrow> j \<notin> aux_slot ` set auxs \<Longrightarrow> slots' ! j = slots ! j"
proof (induction auxs arbitrary: i slots)
  case (Cons a auxs)
  then obtain h where "DecodeString (aux_Hash a) = Ok h" by (auto simp: outcome_simps leaf_loop.simps)
  then show ?case using Cons by (auto simp: leaf_loop_step split: if_splits)
qed simp

text \<open>A hash stays in its slot unless a later chain has the same slot.\<close>

lemma leaf_loop_slot:
  "leaf_loop i auxs slots = Ok slots' \<Longrightarrow> distinct (map aux_slot auxs) \<Longrightarrow> m < length auxs \<Longrightarrow>
   DecodeString (aux_Hash (auxs ! m)) = Ok h \<Longrightarrow>
   aux_slot (auxs ! m) < length slots \<and> slots' ! aux_slot (auxs ! m) = Some (rev h)"
proof (induction auxs arbitrary: i slots m)
  case (Cons a auxs)
  then obtain g where g: "DecodeString (aux_Hash a) = Ok g"
    by (auto simp: outcome_simps leaf_loop.simps)
  then have l: "aux_slot a < length slots"
    and r: "leaf_loop (i + 1) auxs (slots[aux_slot a := Some (rev g)]) = Ok slots'"
    using Cons.prems(1) by (auto simp: leaf_loop_step split: if_splits)
  show ?case
  proof (cases m)
    case 0
    have "aux_slot a \<notin> aux_slot ` set auxs" using Cons.prems(2) by simp
    then have "slots' ! aux_slot a = Some (rev g)" using leaf_loop_other [OF r] l by simp
    then show ?thesis using 0 l g Cons.prems(4) by simp
  next
    case (Suc m')
    then show ?thesis using Cons.IH [OF r, of m'] Cons.prems by simp
  qed
qed simp

text \<open>The eight-slot tree of the branch has no place for the slots 8 to 15.\<close>

lemma leaf_loop_panic:
  assumes "list_all (\<lambda>a. valid_hex (aux_Hash a)) auxs" "i + length auxs \<le> length slots"
    and "\<exists>a \<in> set auxs. length slots \<le> aux_slot a"
  shows "\<exists>j. leaf_loop i auxs slots = Panic (PanicIndex j (length slots)) \<and> length slots \<le> j"
  using assms
proof (induction auxs arbitrary: i slots)
  case (Cons a auxs)
  then obtain h where h: "DecodeString (aux_Hash a) = Ok h"
    using valid_hex_encode_iff [of "aux_Hash a"] by auto
  show ?case
  proof (cases "aux_slot a < length slots")
    case True
    then have "\<exists>j. leaf_loop (i + 1) auxs (slots[aux_slot a := Some (rev h)])
        = Panic (PanicIndex j (length slots)) \<and> length slots \<le> j"
      using Cons.IH [of "i + 1" "slots[aux_slot a := Some (rev h)]"] Cons.prems by auto
    then show ?thesis using h True Cons.prems(2) by (simp add: leaf_loop_step)
  next
    case False
    then show ?thesis using h Cons.prems(2) by (simp add: leaf_loop_step)
  qed
qed simp

definition leaf_hashes :: "bytes option list \<Rightarrow> bytes list" where
  "leaf_hashes slots = map (\<lambda>s. case s of None \<Rightarrow> replicate 32 0 | Some h \<Rightarrow> h) slots"

lemma BuildMerkleLeaf_eq:
  "BuildMerkleLeaf msize auxs = bind_out (leaf_loop 0 auxs (replicate msize None))
     (\<lambda>slots. Ok (map Some (leaf_hashes slots)))"
proof -
  have "(\<lambda>slot. case slot of None \<Rightarrow> Some (replicate 32 0) | Some h \<Rightarrow> Some h)
      = (\<lambda>s. Some (case s of None \<Rightarrow> replicate 32 (0 :: byte) | Some h \<Rightarrow> h))"
    by (rule ext) (simp split: option.split)
  then show ?thesis by (simp add: BuildMerkleLeaf_def leaf_hashes_def comp_def)
qed

section \<open>The two tree walks\<close>

lemma search_loop_index:
  assumes "search_loop searched i (map Some hs) (k, m) = (k', m')"
  shows "(searched \<notin> set hs \<and> (k', m') = (k, m))
    \<or> (i \<le> k' \<and> k' < i + length hs \<and> hs ! (k' - i) = searched \<and> m' = ''0'' @ show_dec k' @ ''000000'')"
  using assms
proof (induction hs arbitrary: i k m)
  case (Cons h hs)
  show ?case
  proof (cases "h = searched")
    case True
    then have "search_loop searched (i + 1) (map Some hs) (i, ''0'' @ show_dec i @ ''000000'') = (k', m')"
      using Cons.prems by (simp add: slot_bytes_def)
    from Cons.IH [OF this] show ?thesis
      using True by (auto simp: nth_Cons' Suc_le_eq)
  next
    case False
    then have "search_loop searched (i + 1) (map Some hs) (k, m) = (k', m')"
      using Cons.prems by (simp add: slot_bytes_def)
    from Cons.IH [OF this] show ?thesis
      using False by (auto simp: nth_Cons')
  qed
qed simp

lemma branch_loop_path:
  "length level = 2 ^ k \<Longrightarrow> i < 2 ^ k \<Longrightarrow>
   branch_loop level i acc = Ok (acc @ index_path doubleSha256Bytes k level i)"
proof (induction k arbitrary: level i acc)
  case 0
  then show ?case by (subst branch_loop.simps) simp
next
  case (Suc k)
  have len: "length (pair_level doubleSha256Bytes level) = 2 ^ k"
    using Suc.prems by (simp add: length_pair_level)
  have i: "i div 2 < 2 ^ k" using Suc.prems by (simp add: less_mult_imp_div_less)
  have "even ((2 :: nat) ^ Suc k)" by simp
  then have x: "i XOR 1 < 2 ^ Suc k"
    using Suc.prems(2) by (cases "even i") (auto simp: xor_one_eq simp del: One_nat_def elim!: evenE)
  have "1 < length level" "even (length level)" using Suc.prems(1) one_less_power [of "2 :: nat" "Suc k"] by simp_all
  then show ?case
    using Suc.IH [OF len i] x Suc.prems(1)
    by (subst branch_loop.simps) (simp add: branch_level_eq Let_def del: One_nat_def)
qed

lemma root_loop_tree: "xs \<noteq> [] \<Longrightarrow> root_loop xs = [tree_root doubleSha256Bytes xs]"
proof (induction xs rule: root_loop.induct)
  case (1 xs)
  show ?case
  proof (cases "length xs > 1")
    case True
    then obtain x y rest where xs: "xs = x # y # rest" by (cases xs; cases "tl xs") auto
    have "root_level xs \<noteq> []" by (simp add: xs)
    then have "root_loop (root_level xs) = [tree_root doubleSha256Bytes (root_level xs)]"
      using "1.IH" True by blast
    then show ?thesis using True by (subst root_loop.simps) (simp add: xs root_level_eq)
  next
    case False
    then obtain x where "xs = [x]" using "1.prems" by (cases xs) auto
    then show ?thesis by (subst root_loop.simps) simp
  qed
qed

lemma buildMerkleRoot_tree:
  assumes "BuildMerkleLeaf msize auxs = Ok (map Some hs)" "hs \<noteq> []"
  shows "buildMerkleRoot msize auxs = Ok (tree_root doubleSha256Bytes hs)"
proof -
  have "List.map_filter (\<lambda>hash. hash) (map Some hs) = hs"
    by (induction hs) (simp_all add: map_filter_simps)
  then show ?thesis using assms by (simp add: buildMerkleRoot_def root_loop_tree)
qed

lemma BuildMerkleLeaf_slot:
  assumes "BuildMerkleLeaf msize auxs = Ok slots" "distinct (map aux_slot auxs)" "m < length auxs"
    and "DecodeString (aux_Hash (auxs ! m)) = Ok h"
  obtains hs where "slots = map Some hs" "length hs = msize" "aux_slot (auxs ! m) < msize"
    "hs ! aux_slot (auxs ! m) = rev h"
proof -
  obtain s where s: "leaf_loop 0 auxs (replicate msize None) = Ok s" "slots = map Some (leaf_hashes s)"
    using assms(1) by (auto simp: BuildMerkleLeaf_eq outcome_simps)
  have "length s = msize" using leaf_loop_length [OF s(1)] by simp
  moreover have "aux_slot (auxs ! m) < msize" "s ! aux_slot (auxs ! m) = Some (rev h)"
    using leaf_loop_slot [OF s(1) assms(2-4)] by simp_all
  ultimately show thesis by (intro that [of "leaf_hashes s"]) (simp_all add: s(2) leaf_hashes_def)
qed

lemma BuildMerkleLeaf_lengths:
  assumes "BuildMerkleLeaf msize auxs = Ok slots"
  obtains hs where "slots = map Some hs" "length hs = msize"
proof -
  obtain s where "leaf_loop 0 auxs (replicate msize None) = Ok s" "slots = map Some (leaf_hashes s)"
    using assms by (auto simp: BuildMerkleLeaf_eq outcome_simps)
  then show thesis using that leaf_loop_length by (fastforce simp: leaf_hashes_def)
qed

lemma BuildMerkleLeaf_total:
  assumes "list_all (\<lambda>a. valid_hex (aux_Hash a)) auxs" "length auxs \<le> msize"
    and "\<forall>a \<in> set auxs. aux_slot a < msize"
  obtains hs where "BuildMerkleLeaf msize auxs = Ok (map Some hs)" "length hs = msize"
proof -
  have "\<exists>s. leaf_loop i auxs slots = Ok s"
    if "list_all (\<lambda>a. valid_hex (aux_Hash a)) auxs" "i + length auxs \<le> length slots"
      "\<forall>a \<in> set auxs. aux_slot a < length slots" for i slots
    using that
  proof (induction auxs arbitrary: i slots)
    case (Cons a auxs)
    then obtain h where "DecodeString (aux_Hash a) = Ok h"
      using valid_hex_encode_iff [of "aux_Hash a"] by auto
    then show ?case using Cons.IH [of "i + 1" "slots[aux_slot a := Some (rev h)]"] Cons.prems
      by (simp add: leaf_loop_step)
  qed simp
  from this [of 0 "replicate msize None"] obtain s
    where s: "leaf_loop 0 auxs (replicate msize None) = Ok s" using assms by auto
  then show thesis
    using that [of "leaf_hashes s"] leaf_loop_length [OF s]
    by (simp add: BuildMerkleLeaf_eq) (simp add: leaf_hashes_def)
qed

lemma BuildMerkleLeaf_panic:
  assumes "list_all (\<lambda>a. valid_hex (aux_Hash a)) auxs" "length auxs \<le> msize"
    and "\<exists>a \<in> set auxs. msize \<le> aux_slot a"
  shows "\<exists>j. BuildMerkleLeaf msize auxs = Panic (PanicIndex j msize) \<and> msize \<le> j"
  using leaf_loop_panic [of auxs 0 "replicate msize None"] assms by (auto simp: BuildMerkleLeaf_eq)

text \<open>The branch of a block, its index in the mask, and the root of the same tree.\<close>

lemma buildMerkleBranchesAndMask_path:
  assumes b: "BuildMerkleLeaf (2 ^ k) auxs = Ok slots" "distinct (map aux_slot auxs)"
    and n: "0 < n" "n \<le> length auxs"
    and h: "DecodeString (aux_Hash (auxs ! (n - 1))) = Ok h"
  obtains i branch where
    "buildMerkleBranchesAndMask (2 ^ k) auxs n = Ok (branch, ''0'' @ show_dec i @ ''000000'')"
    "length branch = k" "slots ! i = Some (rev h)" "i < 2 ^ k"
    "buildMerkleRoot (2 ^ k) auxs = Ok (fold_index doubleSha256Bytes (rev h) branch i)"
proof -
  have "n - 1 < length auxs" using n by simp
  then obtain hs where hs: "slots = map Some hs" "length hs = 2 ^ k"
    "aux_slot (auxs ! (n - 1)) < 2 ^ k" "hs ! aux_slot (auxs ! (n - 1)) = rev h"
    using b h by (elim BuildMerkleLeaf_slot)
  then have "rev h \<in> set hs" by (metis nth_mem)
  moreover obtain i m where im: "search_loop (rev h) 0 (map Some hs) (0, '''') = (i, m)"
    by (cases "search_loop (rev h) 0 (map Some hs) (0, '''')")
  ultimately have i: "i < 2 ^ k" "hs ! i = rev h" "m = ''0'' @ show_dec i @ ''000000''"
    using search_loop_index [OF im] hs(2) by auto
  define branch where "branch = index_path doubleSha256Bytes k hs i"
  have "map slot_bytes (map Some hs) = hs" by (simp add: slot_bytes_def comp_def)
  moreover have "fst (hex_decode (aux_Hash (auxs ! (n - 1)))) = h" using h by (simp add: DecodeString_eq_Ok)
  ultimately have "buildMerkleBranchesAndMask (2 ^ k) auxs n = Ok (branch, ''0'' @ show_dec i @ ''000000'')"
    using b(1) n im i branch_loop_path [OF hs(2) i(1), of "[]"]
    by (simp add: buildMerkleBranchesAndMask_def hs(1) branch_def del: map_map)
  moreover have "fold_index doubleSha256Bytes (rev h) branch i = tree_root doubleSha256Bytes hs"
    using dsha.fold_index_path [OF hs(2) i(1)] by (simp add: branch_def i(2))
  moreover have "hs \<noteq> []" using hs(2) by auto
  ultimately show thesis
    using that [of branch i] b(1) i hs buildMerkleRoot_tree [of "2 ^ k" auxs hs]
    by (simp add: branch_def)
qed

section \<open>Properties\<close>

text \<open>
  C39. The slot of an auxiliary chain is computed on wrapping 32-bit integers, yet it is the one
  the reference script computes on unbounded ones, for every chain id and tree height below 32;
  it is a slot of a tree of that height. From height 32 on the call divides by zero.
\<close>

theorem getExpectedIndex_reference:
  "case getExpectedIndex cid h of
     Ok r \<Rightarrow> h < 32 \<and> unat r = expected_index (unat cid) h \<and> unat r < 2 ^ h
   | Err e \<Rightarrow> False
   | Panic p \<Rightarrow> 32 \<le> h \<and> p = PanicDivide"
proof (cases "h < 32")
  case True
  then obtain r where "getExpectedIndex cid h = Ok r" "unat r = expected_index (unat cid) h"
    by (rule getExpectedIndex_eq)
  then show ?thesis using True by (simp add: expected_index_def)
next
  case False
  then have "push_bit h (1 :: u32) = 0" by (simp add: exp_eq_zero_iff)
  then show ?thesis using False by (simp add: getExpectedIndex_def Let_def)
qed

text \<open>
  C9. The branch of an auxiliary block proves its place in the tree: for auxiliary chains with
  different slots and a tree of any power-of-two size the leaves fit in, folding the branch
  over the block's hash by the bits of the index written in the mask gives the root of the
  tree of the same size; the branch has one hash per level.
\<close>

theorem aux_branch_verifies:
  assumes "BuildMerkleLeaf (2 ^ k) auxs = Ok slots" "distinct (map aux_slot auxs)"
    and "0 < n" "n \<le> length auxs" "DecodeString (aux_Hash (auxs ! (n - 1))) = Ok h"
  shows "\<exists>i branch.
    buildMerkleBranchesAndMask (2 ^ k) auxs n = Ok (branch, ''0'' @ show_dec i @ ''000000'')
    \<and> length branch = k \<and> i < 2 ^ k \<and> slots ! i = Some (rev h)
    \<and> buildMerkleRoot (2 ^ k) auxs = Ok (fold_index doubleSha256Bytes (rev h) branch i)"
proof -
  obtain i branch where
    "buildMerkleBranchesAndMask (2 ^ k) auxs n = Ok (branch, ''0'' @ show_dec i @ ''000000'')"
    "length branch = k" "slots ! i = Some (rev h)" "i < 2 ^ k"
    "buildMerkleRoot (2 ^ k) auxs = Ok (fold_index doubleSha256Bytes (rev h) branch i)"
    using assms by (rule buildMerkleBranchesAndMask_path)
  then show ?thesis by blast
qed

definition example_auxs :: "AuxBlock list" where
  "example_auxs = [example_aux ''aa'' 0x2023, example_aux ''bb'' 0x3f]"

lemma example_auxs_slots: "map aux_slot example_auxs = [5, 1]"
  by (simp add: example_auxs_def example_aux_def expected_index_def)

lemma example_auxs_hex:
  "list_all (\<lambda>a. valid_hex (aux_Hash a)) example_auxs" "length example_auxs = 2"
  "DecodeString (aux_Hash (example_auxs ! (2 - 1))) = Ok [0xbb]"
  by code_simp+

theorem aux_branch_verifies_witness:
  "\<exists>i branch. buildMerkleBranchesAndMask (2 ^ 3) example_auxs 2 = Ok (branch, ''0'' @ show_dec i @ ''000000'')
    \<and> length branch = 3
    \<and> buildMerkleRoot (2 ^ 3) example_auxs = Ok (fold_index doubleSha256Bytes [0xbb] branch i)"
proof -
  have "\<forall>a \<in> set example_auxs. aux_slot a < 8"
    by (simp add: example_auxs_def example_aux_def expected_index_def)
  then obtain hs where "BuildMerkleLeaf (2 ^ 3) example_auxs = Ok (map Some hs)"
    using BuildMerkleLeaf_total [of example_auxs 8] example_auxs_hex by auto
  moreover have "distinct (map aux_slot example_auxs)" by (simp add: example_auxs_slots)
  ultimately have "\<exists>i branch.
      buildMerkleBranchesAndMask (2 ^ 3) example_auxs 2 = Ok (branch, ''0'' @ show_dec i @ ''000000'')
      \<and> length branch = 3 \<and> i < 2 ^ 3 \<and> map Some hs ! i = Some (rev [0xbb])
      \<and> buildMerkleRoot (2 ^ 3) example_auxs = Ok (fold_index doubleSha256Bytes (rev [0xbb]) branch i)"
    by (rule aux_branch_verifies) (use example_auxs_hex in simp_all)
  then show ?thesis by auto
qed

lemma commitment_value:
  assumes "list_all (\<lambda>a. valid_hex (aux_Hash a)) auxs" "length auxs \<le> 8"
  shows "\<exists>leaves. length leaves = 16 \<and> createMergedMiningCoinbase auxs nonce = Ok (EncodeToString
      ([0xfa, 0xbe, 0x6d, 0x6d] @ rev (tree_root doubleSha256Bytes leaves)
       @ [16, 0, 0, 0] @ le_bytes 4 nonce))"
proof -
  have "\<forall>a \<in> set auxs. aux_slot a < 16" using aux_slot_bound by blast
  then obtain leaves where "BuildMerkleLeaf 16 auxs = Ok (map Some leaves)" "length leaves = 16"
    using BuildMerkleLeaf_total [of auxs 16] assms by auto
  moreover from this have "buildMerkleRoot 16 auxs = Ok (tree_root doubleSha256Bytes leaves)"
    by (intro buildMerkleRoot_tree) auto
  moreover have "string_bytes magic = [0xfa, 0xbe, 0x6d, 0x6d]" "int32ToBytes 16 = [16, 0, 0, 0]"
    by code_simp+
  ultimately show ?thesis
    by (intro exI [of _ leaves])
      (simp add: createMergedMiningCoinbase_def createScriptSig_def, simp add: int32ToBytes_def)
qed

text \<open>
  C21. The proof sent to an auxiliary chain is not for the tree the coinbase commits to. The
  commitment is the reversed root of a tree of sixteen slots, announced as size sixteen; the
  proof has a branch of three hashes, one short of that tree's four levels, and when an
  auxiliary chain's slot is one of the last eight there is no proof at all: \<open>MakeAuxPow\<close>
  panics, whichever block of the list it is asked for.
\<close>

theorem aux_proof_is_for_a_smaller_tree:
  assumes "list_all (\<lambda>a. valid_hex (aux_Hash a)) auxs" "length auxs \<le> 8"
    and "bb_Template b = Some t" "tpl_AuxBlocks t = auxs" "bb_hash b \<noteq> ''''"
    and "0 < n" "n \<le> length auxs"
  shows "(\<exists>leaves. length leaves = 16 \<and> createMergedMiningCoinbase auxs nonce = Ok (EncodeToString
      ([0xfa, 0xbe, 0x6d, 0x6d] @ rev (tree_root doubleSha256Bytes leaves)
       @ [16, 0, 0, 0] @ le_bytes 4 nonce)))
    \<and> (if \<exists>a \<in> set auxs. 8 \<le> aux_slot a
       then \<exists>j \<ge> 8. MakeAuxPow b n = Panic (PanicIndex j 8)
       else \<exists>p. MakeAuxPow b n = Ok p
         \<and> amb_numberOfBranches (ap_auxMerkleBranch p) = ''03'')"
proof
  show "\<exists>leaves. length leaves = 16 \<and> createMergedMiningCoinbase auxs nonce = Ok (EncodeToString
      ([0xfa, 0xbe, 0x6d, 0x6d] @ rev (tree_root doubleSha256Bytes leaves)
       @ [16, 0, 0, 0] @ le_bytes 4 nonce))"
    using assms(1,2) by (rule commitment_value)
  show "if \<exists>a \<in> set auxs. 8 \<le> aux_slot a then \<exists>j \<ge> 8. MakeAuxPow b n = Panic (PanicIndex j 8)
    else \<exists>p. MakeAuxPow b n = Ok p \<and> amb_numberOfBranches (ap_auxMerkleBranch p) = ''03''"
  proof (cases "\<exists>a \<in> set auxs. 8 \<le> aux_slot a")
    case True
    then obtain j where "BuildMerkleLeaf 8 auxs = Panic (PanicIndex j 8)" "8 \<le> j"
      using BuildMerkleLeaf_panic [of auxs 8] assms by auto
    then show ?thesis
      using True assms by (auto simp: MakeAuxPow_def makeAuxChainMerkleBranch_def buildMerkleBranchesAndMask_def)
  next
    case False
    then have "\<forall>a \<in> set auxs. aux_slot a < 8" by force
    then obtain hs where hs: "BuildMerkleLeaf 8 auxs = Ok (map Some hs)" "length hs = 2 ^ 3"
      using BuildMerkleLeaf_total [of auxs 8] assms by auto
    define searched where "searched = rev (fst (hex_decode (aux_Hash (auxs ! (n - 1)))))"
    obtain i m where im: "search_loop searched 0 (map Some hs) (0, []) = (i, m)"
      by (cases "search_loop searched 0 (map Some hs) (0, [])")
    then have "i < 2 ^ 3" using search_loop_index [OF im] hs(2) by auto
    then have "branch_loop hs i [] = Ok (index_path doubleSha256Bytes 3 hs i)"
      using branch_loop_path [OF hs(2), of i "[]"] by simp
    moreover have "map slot_bytes (map Some hs) = hs" by (simp add: slot_bytes_def comp_def)
    ultimately have "buildMerkleBranchesAndMask 8 auxs n = Ok (index_path doubleSha256Bytes 3 hs i, m)"
      using hs(1) im assms(6,7) by (simp add: buildMerkleBranchesAndMask_def searched_def del: map_map)
    moreover have "show_dec 3 = ''3''" by code_simp
    ultimately show ?thesis
      using False assms(3-5) by (simp add: MakeAuxPow_def makeAuxChainMerkleBranch_def Let_def)
  qed
qed

text \<open>Dogecoin's chain id, 98, has slot 8.\<close>

theorem aux_proof_is_for_a_smaller_tree_witness:
  "(\<exists>leaves. length leaves = 16 \<and> createMergedMiningCoinbase [example_aux ''aa'' 98] 5 = Ok (EncodeToString
      ([0xfa, 0xbe, 0x6d, 0x6d] @ rev (tree_root doubleSha256Bytes leaves)
       @ [16, 0, 0, 0] @ le_bytes 4 (5 :: u32))))
   \<and> (\<exists>j \<ge> 8. MakeAuxPow (empty_block\<lparr>bb_Template := Some (example_template\<lparr>tpl_AuxBlocks := [example_aux ''aa'' 98]\<rparr>),
        bb_hash := ''ff''\<rparr>) 1 = Panic (PanicIndex j 8))"
proof -
  let ?t = "example_template\<lparr>tpl_AuxBlocks := [example_aux ''aa'' 98]\<rparr>"
  let ?b = "empty_block\<lparr>bb_Template := Some ?t, bb_hash := ''ff''\<rparr>"
  have "valid_hex ''aa''" by code_simp
  then have v: "list_all (\<lambda>a. valid_hex (aux_Hash a)) [example_aux ''aa'' 98]" by (simp add: example_aux_def)
  have "aux_slot (example_aux ''aa'' 98) = 8" by (simp add: example_aux_def expected_index_def)
  then show ?thesis
    using aux_proof_is_for_a_smaller_tree [OF v, of ?b ?t 1 5] by simp
qed

end
