(* ===== verification/Target.thy ===== *)
theory Target
  imports Generator
begin

text \<open>
  Difficulty targets, \<open>src/bitcoin/target.go\<close>, and the check of a share against them,
  \<open>src/pool/share.go\<close>. The model keeps the precisions of \<open>math/big\<close>: \<open>SetInt\<close> gives a
  \<open>big.Float\<close> the larger of 64 and the number's bit length, a quotient the larger precision of
  its operands, and a \<open>float64\<close> has 53 bits; each result is rounded to nearest even. The
  accuracy values the functions return beside their results are never used and are left out.
\<close>

section \<open>Integers as text\<close>

text \<open>\<open>big.Int.SetString(s, 16)\<close>: an optional sign and at least one digit.\<close>

fun hex_value :: "nat \<Rightarrow> string \<Rightarrow> nat option" where
  "hex_value acc [] = Some acc"
| "hex_value acc (c # cs) =
     (case hex_val c of None \<Rightarrow> None | Some d \<Rightarrow> hex_value (16 * acc + d) cs)"

definition hex_digits :: "string \<Rightarrow> nat option" where
  "hex_digits s = (if s = '''' then None else hex_value 0 s)"

definition SetString16 :: "string \<Rightarrow> int option" where
  "SetString16 s =
     (if s \<noteq> '''' \<and> hd s = CHR ''-'' then map_option (\<lambda>n. - int n) (hex_digits (tl s))
      else if s \<noteq> '''' \<and> hd s = CHR ''+'' then map_option int (hex_digits (tl s))
      else map_option int (hex_digits s))"

text \<open>\<open>Text(16)\<close> and \<open>%x\<close>.\<close>

definition show_hex_int :: "int \<Rightarrow> string" where
  "show_hex_int i = (if i < 0 then ''-'' @ show_hex (nat (- i)) else show_hex (nat i))"

lemma hex_value_append:
  "hex_value acc (s @ t) = Option.bind (hex_value acc s) (\<lambda>n. hex_value n t)"
  by (induction acc s rule: hex_value.induct) (auto split: option.splits)

lemma hex_value_show_hex: "hex_value 0 (show_hex n) = Some n"
proof -
  have "b = 16 \<Longrightarrow> hex_value 0 (map digit_char (digits_base b n)) = Some n" for b :: nat
  proof (induction b n rule: digits_base.induct)
    case (1 b n)
    then show ?case
      by (subst digits_base.simps) (auto simp: hex_value_append)
  qed
  then show ?thesis by (simp add: show_hex_def)
qed

lemma hd_show_hex: "hd (show_hex n) \<noteq> CHR ''-'' \<and> hd (show_hex n) \<noteq> CHR ''+''" "show_hex n \<noteq> ''''"
proof -
  have "hd (digits_base 16 n) < 16"
    using digits_base_bound [of 16 _ n] hd_in_set [OF digits_base_nonempty] by force
  then have "hex_val (hd (show_hex n)) \<noteq> None" by (simp add: show_hex_def hd_map)
  then show "hd (show_hex n) \<noteq> CHR ''-'' \<and> hd (show_hex n) \<noteq> CHR ''+''"
    by (auto simp: hex_val_def)
  show "show_hex n \<noteq> ''''" by (simp add: show_hex_def)
qed

lemma SetString16_show: "SetString16 (show_hex_int i) = Some i"
  using hd_show_hex [of "nat i"] hd_show_hex(2) [of "nat (- i)"]
  by (simp add: SetString16_def show_hex_int_def hex_digits_def hex_value_show_hex)

section \<open>src/bitcoin/target.go\<close>

definition highestTarget :: string where
  "highestTarget = ''00000000ffff0000000000000000000000000000000000000000000000000000''"

definition ToBig :: "string \<Rightarrow> int option" where "ToBig t = SetString16 t"

text \<open>\<open>new(big.Float).SetInt\<close>: the value and its precision.\<close>

definition SetInt_prec :: "int \<Rightarrow> nat" where
  "SetInt_prec i = max (nat (bitlen \<bar>i\<bar>)) 64"

text \<open>\<open>new(big.Float).Quo\<close> of a finite dividend by a finite divisor or an infinity.\<close>

definition Quo :: "rat \<Rightarrow> nat \<Rightarrow> flt \<Rightarrow> nat \<Rightarrow> flt" where
  "Quo x px y py =
     (case y of Fin b \<Rightarrow> if b = 0 then inf_of_sign x else Fin (round_prec (max px py) (x / b))
      | _ \<Rightarrow> Fin 0)"

fun Float64 :: "flt \<Rightarrow> flt" where
  "Float64 (Fin a) = fl64 a"
| "Float64 x = x"

definition ToDifficulty :: "string \<Rightarrow> flt outcome" where
  "ToDifficulty t =
     (case SetString16 highestTarget of
        None \<Rightarrow> Panic (PanicText ''Failed to convert highest target value to big int'')
      | Some highestTargetBig \<Rightarrow>
       (case ToBig t of
          None \<Rightarrow> Panic (PanicText ''Failed to convert target to big int'')
        | Some targetBig \<Rightarrow>
          Ok (Float64 (Quo (of_int highestTargetBig) (SetInt_prec highestTargetBig)
                         (Fin (of_int targetBig)) (SetInt_prec targetBig)))))"

text \<open>\<open>Int(nil)\<close> truncates and is nil for an infinity, whose text is \<open><nil>\<close>; \<open>SetFloat64\<close>
  panics on NaN.\<close>

fun big_Int :: "flt \<Rightarrow> int option" where
  "big_Int (Fin a) = Some (truncate_flt (Fin a))"
| "big_Int _ = None"

definition big_Text :: "int option \<Rightarrow> string" where
  "big_Text i = (case i of None \<Rightarrow> ''<nil>'' | Some i \<Rightarrow> show_hex_int i)"

definition TargetFromDifficulty :: "flt \<Rightarrow> string outcome" where
  "TargetFromDifficulty difficulty =
     (case SetString16 highestTarget of
        None \<Rightarrow> Panic (PanicText ''Failed to convert highest target value to big int'')
      | Some highestTargetBig \<Rightarrow>
        if difficulty = NaN then Panic (PanicText ''Float.SetFloat64(NaN)'')
        else let targetBigFloat =
                   Quo (of_int highestTargetBig) (SetInt_prec highestTargetBig) difficulty 53
             in Ok (big_Text (big_Int targetBigFloat)))"

text \<open>\<open>strconv.ParseInt(s, 16, 8)\<close>: a signed value of eight bits.\<close>

definition ParseInt_16_8 :: "string \<Rightarrow> int outcome" where
  "ParseInt_16_8 s =
     (case SetString16 s of
        None \<Rightarrow> Err (ErrText (''strconv.ParseInt: parsing '' @ [CHR 0x22] @ s @ [CHR 0x22] @ '': invalid syntax''))
      | Some i \<Rightarrow> if - 128 \<le> i \<and> i \<le> 127 then Ok i
          else Err (ErrText (''strconv.ParseInt: parsing '' @ [CHR 0x22] @ s @ [CHR 0x22] @ '': value out of range'')))"

definition TargetFromBits :: "string \<Rightarrow> string outcome" where
  "TargetFromBits bitsHex =
     (let l = length bitsHex in
      if l < 8 then Err (ErrText ''string too short'')
      else if l mod 2 = 0 then Err (ErrText ''string must be even length'')
      else let exponent = take 2 bitsHex in
        bind_out (ParseInt_16_8 exponent) (\<lambda>exponentValue.
        let significand = drop 3 bitsHex in
        bind_out (ParseInt_16_8 significand) (\<lambda>significandValue.
          Ok (show_hex_int (significandValue * 256 XOR (exponentValue - 3))))))"

section \<open>src/pool/share.go\<close>

definition shareInvalid :: nat where "shareInvalid = 0"
definition shareValid :: nat where "shareValid = 1"
definition shareCandidate :: nat where "shareCandidate = 2"

text \<open>\<open>x.Cmp(y) <= 0\<close> on pointers: the same pointer compares equal, another nil is dereferenced.\<close>

fun Cmp_le :: "int option \<Rightarrow> int option \<Rightarrow> bool outcome" where
  "Cmp_le None None = Ok True"
| "Cmp_le (Some x) (Some y) = Ok (x \<le> y)"
| "Cmp_le _ _ = Panic PanicNil"

text \<open>The result of a call whose error was only logged.\<close>

fun log_err :: "nat outcome \<Rightarrow> int option outcome" where
  "log_err (Ok n) = Ok (Some (int n))"
| "log_err (Err e) = Ok None"
| "log_err (Panic p) = Panic p"

definition aux_checks :: "int option \<Rightarrow> AuxBlock list \<Rightarrow> bool list outcome" where
  "aux_checks primarySum auxBlocks =
     traverse (\<lambda>auxBlock.
       bind_out (pool_reverseHexBytes (aux_Target auxBlock)) (\<lambda>aux1Target.
         Cmp_le primarySum (ToBig aux1Target))) auxBlocks"

definition validateAndWeighShare ::
    "BitcoinBlock \<Rightarrow> flt \<Rightarrow> (BitcoinBlock \<times> nat \<times> bool list \<times> flt) outcome" where
  "validateAndWeighShare primary poolDifficulty =
     (let (primary, s) = Sum primary in
      bind_out (log_err s) (\<lambda>primarySum.
      bind_out (deref (bb_Template primary)) (\<lambda>t.
      let primaryTargetBig = ToBig (tpl_Target t) in
      bind_out (BitcoinBlock_ShareMultiplier primary) (\<lambda>multiplier.
      bind_out (TargetFromDifficulty (poolDifficulty / multiplier)) (\<lambda>poolTarget.
      bind_out (ToDifficulty poolTarget) (\<lambda>shareDifficulty.
      bind_out (Cmp_le primarySum primaryTargetBig) (\<lambda>primaryOk.
      bind_out (aux_checks primarySum (tpl_AuxBlocks t)) (\<lambda>auxOk.
      let candidate = primaryOk # auxOk; validShare = list_ex (\<lambda>c. c) candidate in
      if validShare then Ok (primary, shareCandidate, candidate, shareDifficulty)
      else bind_out (Cmp_le primarySum (ToBig poolTarget)) (\<lambda>poolOk.
             Ok (primary, if poolOk then shareValid else shareInvalid, candidate, shareDifficulty))))))))))"

section \<open>Targets as numbers\<close>

abbreviation highest :: int where "highest \<equiv> 0xffff * 2 ^ 208"

lemma highestTarget_value: "SetString16 highestTarget = Some highest"
proof -
  have "hex_val CHR ''0'' = Some 0" "hex_val CHR ''f'' = Some 15" by (simp_all add: hex_val_def)
  then show ?thesis by (simp add: SetString16_def highestTarget_def hex_digits_def)
qed

lemma highest_prec: "SetInt_prec highest = 224"
proof -
  have "bitlen highest \<le> 224" "224 \<le> bitlen highest"
    by (simp_all add: bitlen_le_iff_power bitlen_ge_iff_power)
  then have "bitlen highest = 224" by (rule antisym)
  then show ?thesis by (simp add: SetInt_prec_def)
qed

lemma round_prec_ieee:
  "q \<le> ilog2 \<bar>x\<bar> + 1 - int p \<Longrightarrow> round_prec p x = round_ieee p q x"
  by (simp add: round_prec_def round_ieee_def max_def)

lemma round_prec_mono:
  assumes "0 < p" "0 < x" "x \<le> y"
  shows "round_prec p x \<le> round_prec p y"
proof -
  have "ilog2 x \<le> ilog2 y" using assms(2,3) by (rule ilog2_mono)
  then have "round_prec p x = round_ieee p (ilog2 x + 1 - int p) x"
    "round_prec p y = round_ieee p (ilog2 x + 1 - int p) y"
    using assms by (auto intro!: round_prec_ieee)
  then show ?thesis using round_ieee_mono [OF assms(3,1)] by simp
qed

lemma round_prec_error:
  assumes "0 < x"
  shows "\<bar>round_prec p x - x\<bar> \<le> x / 2 ^ p"
proof -
  define e where "e = ilog2 x + 1 - int p"
  have "\<bar>round_prec p x - x\<bar> = \<bar>round_at e x - x\<bar>" using assms by (simp add: round_prec_def e_def)
  also have "\<dots> \<le> pow2 e / 2" by (rule round_at_error)
  also have "pow2 e / 2 = pow2 (ilog2 x) / 2 ^ p"
    using pow2_diff [of "ilog2 x" "int p"] pow2_Suc [of "ilog2 x - int p"]
    by (simp add: e_def pow2_nat algebra_simps)
  also have "\<dots> \<le> x / 2 ^ p" using ilog2_bounds(1) [OF assms] by (simp add: divide_right_mono)
  finally show ?thesis .
qed

lemma round_prec_nonneg: "0 < x \<Longrightarrow> 0 \<le> round_prec p x"
  by (simp add: round_prec_def round_at_nonneg)

definition target_of :: "rat \<Rightarrow> int" where
  "target_of d = \<lfloor>round_prec 224 (of_int highest / d)\<rfloor>"

lemma TargetFromDifficulty_pos:
  assumes "0 < d"
  shows "TargetFromDifficulty (Fin d) = Ok (show_hex_int (target_of d))"
proof -
  have "0 < of_int highest / d" using assms by simp
  then have "0 \<le> round_prec 224 (of_int highest / d)" by (rule round_prec_nonneg)
  then show ?thesis
    using assms highest_prec highestTarget_value
    by (simp add: TargetFromDifficulty_def Quo_def big_Text_def target_of_def del: of_int_mult)
qed

lemma ToBig_show: "ToBig (show_hex_int i) = Some i"
  by (simp add: ToBig_def SetString16_show)

lemma target_of_antitone: "0 < a \<Longrightarrow> a \<le> b \<Longrightarrow> target_of b \<le> target_of a"
  unfolding target_of_def by (intro floor_mono round_prec_mono) (auto intro!: divide_left_mono)

lemma target_of_bounds:
  assumes "0 < d"
  defines "x \<equiv> of_int highest / d"
  shows "x - x / 2 ^ 224 - 1 < of_int (target_of d)" "of_int (target_of d) \<le> x + x / 2 ^ 224"
proof -
  have "0 < x" using assms by simp
  then have "\<bar>round_prec 224 x - x\<bar> \<le> x / 2 ^ 224" by (rule round_prec_error)
  moreover have "of_int (target_of d) \<le> round_prec 224 x" "round_prec 224 x < of_int (target_of d) + 1"
    unfolding target_of_def x_def by linarith+
  ultimately show "x - x / 2 ^ 224 - 1 < of_int (target_of d)" "of_int (target_of d) \<le> x + x / 2 ^ 224"
    by linarith+
qed

lemma TargetFromDifficulty_zero: "TargetFromDifficulty (Fin 0) = Ok ''<nil>''"
  using highestTarget_value by (simp add: TargetFromDifficulty_def Quo_def big_Text_def inf_of_sign_def)

lemma ToDifficulty_nil: "ToDifficulty ''<nil>'' = Panic (PanicText ''Failed to convert target to big int'')"
proof -
  have "ToBig ''<nil>'' = None" by code_simp
  then show ?thesis using highestTarget_value by (simp add: ToDifficulty_def)
qed

text \<open>The difficulty of a target, and of the target of a difficulty.\<close>

definition difficulty_of :: "int \<Rightarrow> flt" where
  "difficulty_of t = Float64 (Quo (of_int highest) 224 (Fin (of_int t)) (SetInt_prec t))"

lemma ToDifficulty_big: "ToBig s = Some t \<Longrightarrow> ToDifficulty s = Ok (difficulty_of t)"
  using highest_prec highestTarget_value by (simp add: ToDifficulty_def difficulty_of_def)

section \<open>Weighing a share\<close>

definition pool_target :: "flt \<Rightarrow> int option" where
  "pool_target d = (case d / Fin 65536 of Fin x \<Rightarrow> if 0 < x then Some (target_of x) else None | _ \<Rightarrow> None)"

definition aux_target :: "AuxBlock \<Rightarrow> int option" where
  "aux_target a = (case pool_reverseHexBytes (aux_Target a) of Ok t \<Rightarrow> ToBig t | _ \<Rightarrow> None)"

lemma aux_checks_values:
  "\<forall>a \<in> set auxs. aux_target a \<noteq> None \<Longrightarrow>
   aux_checks (Some s) auxs = Ok (map (\<lambda>a. s \<le> the (aux_target a)) auxs)"
  unfolding aux_checks_def
  by (intro traverse_map) (fastforce simp: aux_target_def split: outcome.splits option.splits)

lemma validateAndWeighShare_value:
  assumes "Sum b = (b', Ok s)" "bb_Template b' = Some t" "bb_chain b' = Some chain"
    and "ShareMultiplier chain = Fin 65536" "pool_target d = Some pt"
    and "ToBig (tpl_Target t) = Some nt" "\<forall>a \<in> set (tpl_AuxBlocks t). aux_target a \<noteq> None"
  defines "candidate \<equiv> (int s \<le> nt) # map (\<lambda>a. int s \<le> the (aux_target a)) (tpl_AuxBlocks t)"
  shows "validateAndWeighShare b d = Ok (b',
    if True \<in> set candidate then shareCandidate else if int s \<le> pt then shareValid else shareInvalid,
    candidate, difficulty_of pt)"
proof -
  obtain x where x: "d / Fin 65536 = Fin x" "0 < x" "pt = target_of x"
    using assms(5) by (auto simp: pool_target_def split: flt.splits if_splits)
  have "list_ex (\<lambda>c. c) candidate \<longleftrightarrow> True \<in> set candidate" by (auto simp: list_ex_iff)
  then show ?thesis
    using assms(1-4,6,7) x TargetFromDifficulty_pos [OF x(2)] ToBig_show
    by (simp add: validateAndWeighShare_def BitcoinBlock_ShareMultiplier_def ToDifficulty_big
        aux_checks_values candidate_def Let_def)
qed

lemma pool_target_Some:
  assumes "pool_target d = Some pt"
  obtains s where "TargetFromDifficulty (d / Fin 65536) = Ok s" "ToBig s = Some pt"
    "ToDifficulty s = Ok (difficulty_of pt)"
proof -
  obtain x where x: "d / Fin 65536 = Fin x" "0 < x" "pt = target_of x"
    using assms by (auto simp: pool_target_def split: flt.splits if_splits)
  then show thesis
    using that [of "show_hex_int pt"] TargetFromDifficulty_pos [OF x(2)] ToBig_show [of pt]
      ToDifficulty_big [OF ToBig_show] by simp
qed

lemma pool_target_antitone:
  assumes "a \<le> b" "pool_target (Fin a) = Some ta" "pool_target (Fin b) = Some tb"
  shows "tb \<le> ta"
proof -
  have fin: "fl64 z = Fin x \<Longrightarrow> x = round_ieee 53 (-1074) z" for z x
    by (auto simp: fl64_def overflow_at_def split: if_splits)
  obtain x y where xy: "fl64 (a / 65536) = Fin x" "fl64 (b / 65536) = Fin y" "0 < x"
    "ta = target_of x" "tb = target_of y"
    using assms(2,3) by (auto simp: pool_target_def split: flt.splits if_splits)
  have "x \<le> y"
    using fin [OF xy(1)] fin [OF xy(2)] round_ieee_mono [of "a / 65536" "b / 65536" 53 "-1074"] assms(1)
    by simp
  then show ?thesis using target_of_antitone xy by simp
qed

section \<open>Properties\<close>

text \<open>
  C36. The target of a positive difficulty: \<open>TargetFromDifficulty\<close> returns hex digits that parse
  back to a non-negative number, and that number is the highest target divided by the
  difficulty, up to the truncation to an integer and the rounding of a 224-bit float.
\<close>

theorem TargetFromDifficulty_accurate:
  assumes "0 < d"
  shows "\<exists>s t. TargetFromDifficulty (Fin d) = Ok s \<and> ToBig s = Some t \<and> 0 \<le> t
    \<and> of_int highest / d * (1 - 1 / 2 ^ 224) - 1 < of_int t
    \<and> of_int t \<le> of_int highest / d * (1 + 1 / 2 ^ 224)"
proof (intro exI conjI)
  show "TargetFromDifficulty (Fin d) = Ok (show_hex_int (target_of d))"
    using assms by (rule TargetFromDifficulty_pos)
  show "ToBig (show_hex_int (target_of d)) = Some (target_of d)" by (rule ToBig_show)
  have "0 < of_int highest / d" using assms by simp
  from round_prec_nonneg [OF this] show "0 \<le> target_of d" by (simp add: target_of_def)
  show "of_int highest / d * (1 - 1 / 2 ^ 224) - 1 < of_int (target_of d)"
    "of_int (target_of d) \<le> of_int highest / d * (1 + 1 / 2 ^ 224)"
    using target_of_bounds [OF assms] by (simp_all only: ring_distribs mult_1_right times_divide_eq_right)
qed

theorem TargetFromDifficulty_accurate_witness:
  "\<exists>s t. TargetFromDifficulty (Fin (1 / 2)) = Ok s \<and> ToBig s = Some t \<and> 0 \<le> t
    \<and> of_int highest / (1 / 2) * (1 - 1 / 2 ^ 224) - 1 < rat_of_int t
    \<and> rat_of_int t \<le> of_int highest / (1 / 2) * (1 + 1 / 2 ^ 224)"
  by (rule TargetFromDifficulty_accurate) simp

text \<open>
  C8. What a share is worth: when the block's hash value and all targets can be read, the share
  is a candidate for exactly the chains whose target its value does not exceed; it is reported
  as a candidate if there is one, as valid if it is at most the pool's target, as invalid
  otherwise, and it is always weighed with the difficulty of the pool's target.
\<close>

theorem validateAndWeighShare_decides:
  assumes "Sum b = (b', Ok s)" "bb_Template b' = Some t" "bb_chain b' = Some chain"
    and "ShareMultiplier chain = Fin 65536" "pool_target d = Some pt"
    and "ToBig (tpl_Target t) = Some nt" "\<forall>a \<in> set (tpl_AuxBlocks t). aux_target a \<noteq> None"
  shows "\<exists>status candidate.
    validateAndWeighShare b d = Ok (b', status, candidate, difficulty_of pt)
    \<and> length candidate = length (tpl_AuxBlocks t) + 1
    \<and> candidate ! 0 = (int s \<le> nt)
    \<and> (\<forall>i < length (tpl_AuxBlocks t).
         candidate ! (i + 1) = (int s \<le> the (aux_target (tpl_AuxBlocks t ! i))))
    \<and> (status = shareCandidate \<longleftrightarrow> True \<in> set candidate)
    \<and> (status = shareValid \<longleftrightarrow> True \<notin> set candidate \<and> int s \<le> pt)
    \<and> (status = shareInvalid \<longleftrightarrow> True \<notin> set candidate \<and> pt < int s)"
  unfolding validateAndWeighShare_value [OF assms]
  by (intro exI conjI, rule refl)
    (auto simp: shareCandidate_def shareValid_def shareInvalid_def)

text \<open>
  Lowering the pool difficulty never turns a share away: whatever a share was worth at a
  difficulty, at a lower positive one it is weighed with the same candidates and has at
  least the same status.
\<close>

theorem share_status_monotone:
  assumes "a \<le> b" "pool_target (Fin a) = Some ta" "pool_target (Fin b) = Some tb"
    and "bb_chain (fst (Sum blk)) = Some chain" "ShareMultiplier chain = Fin 65536"
    and "validateAndWeighShare blk (Fin b) = Ok (blk', status, candidate, weight)"
  shows "\<exists>status' \<ge> status.
    validateAndWeighShare blk (Fin a) = Ok (blk', status', candidate, difficulty_of ta)"
proof -
  obtain sa sb where s: "TargetFromDifficulty (Fin a / Fin 65536) = Ok sa" "ToBig sa = Some ta"
    "ToDifficulty sa = Ok (difficulty_of ta)"
    "TargetFromDifficulty (Fin b / Fin 65536) = Ok sb" "ToBig sb = Some tb"
    "ToDifficulty sb = Ok (difficulty_of tb)"
    using assms(2,3) pool_target_Some by metis
  have t: "tb \<le> ta" using assms(1-3) by (rule pool_target_antitone)
  have mono: "\<exists>ok'. Cmp_le p (Some ta) = Ok ok' \<and> (ok \<longrightarrow> ok')" if "Cmp_le p (Some tb) = Ok ok" for p ok
    using that t by (cases p) auto
  obtain b' r where sum: "Sum blk = (b', r)" by (cases "Sum blk")
  define verdict where "verdict target p t candidate =
    (if list_ex (\<lambda>c. c) candidate then Ok (b', shareCandidate, candidate, difficulty_of target)
     else bind_out (Cmp_le p (Some target)) (\<lambda>poolOk.
       Ok (b', if poolOk then shareValid else shareInvalid, candidate, difficulty_of target)))"
    for target p and t :: Template and candidate
  have v: "validateAndWeighShare blk (Fin d) = bind_out (log_err r) (\<lambda>p.
      bind_out (deref (bb_Template b')) (\<lambda>t.
      bind_out (Cmp_le p (ToBig (tpl_Target t))) (\<lambda>primaryOk.
      bind_out (aux_checks p (tpl_AuxBlocks t)) (\<lambda>auxOk. verdict target p t (primaryOk # auxOk)))))"
    if "TargetFromDifficulty (Fin d / Fin 65536) = Ok sd" "ToBig sd = Some target"
      "ToDifficulty sd = Ok (difficulty_of target)" for d sd target
    using assms(4,5) sum that
    by (simp add: validateAndWeighShare_def BitcoinBlock_ShareMultiplier_def verdict_def Let_def
      cong del: if_weak_cong)
  obtain p t auxOk primaryOk where d: "log_err r = Ok p" "bb_Template b' = Some t"
    "Cmp_le p (ToBig (tpl_Target t)) = Ok primaryOk" "aux_checks p (tpl_AuxBlocks t) = Ok auxOk"
    and b: "verdict tb p t (primaryOk # auxOk) = Ok (blk', status, candidate, weight)"
    using assms(6) unfolding v [OF s(4-6)] by (auto simp only: outcome_simps)
  have "\<exists>status' \<ge> status. verdict ta p t (primaryOk # auxOk) = Ok (blk', status', candidate, difficulty_of ta)"
  proof (cases "list_ex (\<lambda>c. c) (primaryOk # auxOk)")
    case True
    then show ?thesis using b by (auto simp: verdict_def)
  next
    case False
    then obtain ok where "Cmp_le p (Some tb) = Ok ok" "status = (if ok then shareValid else shareInvalid)"
      "blk' = b'" "candidate = primaryOk # auxOk"
      using b by (auto simp add: verdict_def outcome_simps)
    moreover from mono [OF this(1)] obtain ok' where "Cmp_le p (Some ta) = Ok ok'" "ok \<longrightarrow> ok'" by blast
    ultimately show ?thesis
      using False by (auto simp add: verdict_def shareValid_def shareInvalid_def)
  qed
  then show ?thesis unfolding v [OF s(1-3)] by (simp add: d)
qed

text \<open>
  A pool difficulty of zero stops the server: the target of difficulty zero is not a number,
  and weighing any share panics.
\<close>

theorem zero_difficulty_panics:
  assumes "Sum b = (b', Ok s)" "bb_Template b' = Some t" "bb_chain b' = Some chain"
    and "ShareMultiplier chain = Fin 65536"
  shows "TargetFromDifficulty 0 = Ok ''<nil>''
    \<and> validateAndWeighShare b 0 = Panic (PanicText ''Failed to convert target to big int'')"
proof -
  have "(0 :: flt) / Fin 65536 = Fin 0" by (simp add: zero_flt_def fl64_def overflow_at_def)
  then show ?thesis
    using assms TargetFromDifficulty_zero ToDifficulty_nil
    by (simp add: validateAndWeighShare_def BitcoinBlock_ShareMultiplier_def zero_flt_def)
qed
section \<open>Witnesses\<close>

definition example_share :: BitcoinBlock where
  "example_share = empty_block\<lparr>
     bb_Template := Some (example_template\<lparr>tpl_AuxBlocks := [example_aux ''aa'' 98\<lparr>aux_Target := ''0300''\<rparr>]\<rparr>),
     bb_header := ''aabb'', bb_chain := Some (Litecoin (\<lambda>_ _. 5 # replicate 31 0))\<rparr>"

lemma example_share_sum:
  "\<exists>b'. Sum example_share = (b', Ok 5) \<and> bb_Template b' = bb_Template example_share
    \<and> bb_chain b' = bb_chain example_share"
proof -
  have "DecodeString (bb_header example_share) = Ok [0xaa, 0xbb]" by code_simp
  moreover have "bb_chain example_share = Some (Litecoin (\<lambda>_ _. 5 # replicate 31 0))"
    by (simp add: example_share_def)
  moreover have "le_value (replicate n 0) = 0" for n by (induction n) auto
  then have "le_value (5 # replicate 31 0) = 5" by simp
  ultimately show ?thesis
    using litecoin.Sum_bytes [of example_share "\<lambda>_ _. 5 # replicate 31 0" "[0xaa, 0xbb]"] by simp
qed

lemma pool_target_powers: "pool_target (Fin 65536) = Some (target_of 1)" "pool_target (Fin 131072) = Some (target_of 2)"
proof -
  have "fl64 1 = Fin 1" "fl64 2 = Fin 2" by code_simp+
  then show "pool_target (Fin 65536) = Some (target_of 1)" "pool_target (Fin 131072) = Some (target_of 2)"
    by (simp_all add: pool_target_def)
qed

lemma example_targets: "ToBig (tpl_Target example_template) = Some 0x1d8a4"
  "aux_target (example_aux ''aa'' 98\<lparr>aux_Target := ''0300''\<rparr>) = Some 3"
proof -
  have h: "hex_val CHR ''0'' = Some 0" "hex_val CHR ''1'' = Some 1" "hex_val CHR ''3'' = Some 3"
    "hex_val CHR ''4'' = Some 4" "hex_val CHR ''8'' = Some 8" "hex_val CHR ''a'' = Some 10"
    "hex_val CHR ''d'' = Some 13" by (simp_all add: hex_val_def)
  then show "ToBig (tpl_Target example_template) = Some 0x1d8a4"
    by (simp add: ToBig_def SetString16_def example_template_def hex_digits_def)
  have "pool_reverseHexBytes ''0300'' = Ok ''0003''" by (simp add: pool_reverseHexBytes_eq)
  then show "aux_target (example_aux ''aa'' 98\<lparr>aux_Target := ''0300''\<rparr>) = Some 3"
    using h by (simp add: aux_target_def ToBig_def SetString16_def hex_digits_def)
qed

theorem validateAndWeighShare_decides_witness:
  "\<exists>b' candidate weight. validateAndWeighShare example_share (Fin 65536)
     = Ok (b', shareCandidate, candidate, weight) \<and> candidate ! 0 \<and> \<not> candidate ! 1"
proof -
  let ?t = "example_template\<lparr>tpl_AuxBlocks := [example_aux ''aa'' 98\<lparr>aux_Target := ''0300''\<rparr>]\<rparr>"
  obtain b' where b: "Sum example_share = (b', Ok 5)" "bb_Template b' = Some ?t"
    "bb_chain b' = Some (Litecoin (\<lambda>_ _. 5 # replicate 31 0))"
    using example_share_sum by (auto simp: example_share_def)
  have n: "ToBig (tpl_Target ?t) = Some 0x1d8a4" "\<forall>a \<in> set (tpl_AuxBlocks ?t). aux_target a \<noteq> None"
    using example_targets by simp_all
  obtain status candidate where r: "validateAndWeighShare example_share (Fin 65536)
      = Ok (b', status, candidate, difficulty_of (target_of 1))"
    "length candidate = length (tpl_AuxBlocks ?t) + 1" "candidate ! 0 = (int 5 \<le> 0x1d8a4)"
    "\<forall>i < length (tpl_AuxBlocks ?t). candidate ! (i + 1) = (int 5 \<le> the (aux_target (tpl_AuxBlocks ?t ! i)))"
    "status = shareCandidate \<longleftrightarrow> True \<in> set candidate"
    using validateAndWeighShare_decides [OF b litecoin.share_multiplier pool_target_powers(1) n] by blast
  have "candidate ! 0 \<in> set candidate" using r(2) by (intro nth_mem) simp
  then have "status = shareCandidate" using r(3,5) by auto
  then show ?thesis using r(1,3,4) example_targets(2) by auto
qed

theorem share_status_monotone_witness:
  "\<exists>b' candidate. validateAndWeighShare example_share (Fin 65536)
     = Ok (b', shareCandidate, candidate, difficulty_of (target_of 1))"
proof -
  let ?t = "example_template\<lparr>tpl_AuxBlocks := [example_aux ''aa'' 98\<lparr>aux_Target := ''0300''\<rparr>]\<rparr>"
  obtain b' where b: "Sum example_share = (b', Ok 5)" "bb_Template b' = Some ?t"
    "bb_chain b' = Some (Litecoin (\<lambda>_ _. 5 # replicate 31 0))"
    using example_share_sum by (auto simp: example_share_def)
  have n: "ToBig (tpl_Target ?t) = Some 0x1d8a4" "\<forall>a \<in> set (tpl_AuxBlocks ?t). aux_target a \<noteq> None"
    using example_targets by simp_all
  have c: "bb_chain (fst (Sum example_share)) = Some (Litecoin (\<lambda>_ _. 5 # replicate 31 0))"
    using b by simp
  obtain candidate where v: "validateAndWeighShare example_share (Fin 131072)
      = Ok (b', shareCandidate, candidate, difficulty_of (target_of 2))"
    using validateAndWeighShare_value [OF b litecoin.share_multiplier pool_target_powers(2) n] by simp
  have "(65536 :: rat) \<le> 131072" by simp
  from share_status_monotone [OF this pool_target_powers c litecoin.share_multiplier v]
  obtain status' where s: "shareCandidate \<le> status'" "validateAndWeighShare example_share (Fin 65536)
     = Ok (b', status', candidate, difficulty_of (target_of 1))" by blast
  then have "status' = shareCandidate"
    using validateAndWeighShare_value [OF b litecoin.share_multiplier pool_target_powers(1) n] by simp
  with s show ?thesis by blast
qed

theorem zero_difficulty_panics_witness:
  "validateAndWeighShare example_share 0 = Panic (PanicText ''Failed to convert target to big int'')"
proof -
  obtain b' where b: "Sum example_share = (b', Ok 5)" "bb_Template b' = bb_Template example_share"
    "bb_chain b' = bb_chain example_share" using example_share_sum by blast
  then show ?thesis
    using zero_difficulty_panics [OF b(1) _ _ litecoin.share_multiplier] by (simp add: example_share_def)
qed

end
