(* ===== verification/Rpc.thy ===== *)
theory Rpc
  imports Database Template
begin

text \<open>
  Calls to the chains' nodes, \<open>src/rpc\<close>: the client and its response handling (\<open>rpc.go\<close>,
  \<open>transactions.go\<close>, \<open>health.go\<close>) and the manager that fails over between the nodes of a
  chain (\<open>manager.go\<close>). The nodes are a parameter: a script of replies, one per request, kept
  in the state with a log of the requests; when it is used up every request fails to connect.
  A raw JSON result is the value its consumer decodes: a JSON object is the record that is
  read from it, and reading any other kind of value is an error of \<open>json.Unmarshal\<close>, except
  \<open>null\<close>, which leaves the target as it was.
\<close>

section \<open>Messages\<close>

record TransactionDetails =
  td_Address :: string
  td_Category :: string
  td_Amount :: flt

record WalletTransaction =
  wt_TransactionID :: string
  wt_Amount :: flt
  wt_Confirmations :: u64
  wt_Details :: "TransactionDetails list"

record GetBlockReply =
  gb_Hash :: string
  gb_Difficulty :: flt
  gb_Height :: u64
  gb_Transactions :: "string list"

record TxReceipt =
  rc_BlockHeight :: u64
  rc_BlockHash :: string
  rc_ConfirmedCount :: u64

record blockChainInfoResponse =
  bi_Chain :: string
  bi_NetworkDifficulty :: flt

datatype raw =
    RawAbsent | RawNull | RawTrue | RawFalse | RawString string | RawNumber flt
  | RawTemplate Template | RawAux AuxBlock | RawBlock GetBlockReply | RawTx WalletTransaction
  | RawReceipt TxReceipt | RawInfo blockChainInfoResponse | RawAddress string | RawOther string

record rpcResponse =
  rs_Result :: raw
  rs_ErrorCode :: int
  rs_ErrorMessage :: string

datatype http_reply = TransportError go_error | HttpReply rpcResponse nat

text \<open>Parameters of a request.\<close>

datatype rpc_param = PString string | PNumber flt | PInt int | PRules | PAmounts "(string \<times> flt) list"

record RPCClient =
  rpc_NodeUrl :: string
  rpc_Name :: string
  rpc_Timeout :: int

record rpc_world = db +
  rw_replies :: "http_reply list"
  rw_log :: "(string \<times> string \<times> rpc_param list) list"

section \<open>src/rpc/rpc.go\<close>

text \<open>\<open>strings.Split\<close> by a non-empty separator.\<close>

function split_str :: "string \<Rightarrow> string \<Rightarrow> string \<Rightarrow> string list" where
  "split_str sep acc s =
     (if s = '''' \<or> sep = '''' then [acc @ s]
      else if take (length sep) s = sep then acc # split_str sep '''' (drop (length sep) s)
      else split_str sep (acc @ [hd s]) (tl s))"
  by pat_completeness auto
termination
  by (relation "measure (\<lambda>(sep, acc, s). length s)") auto

declare split_str.simps [simp del]

definition NewRPCClient ::
    "(string \<Rightarrow> int outcome) \<Rightarrow> string \<Rightarrow> string \<Rightarrow> string \<Rightarrow> string \<Rightarrow> string \<Rightarrow> RPCClient outcome" where
  "NewRPCClient ParseDuration name rpcURL rpcUser rpcPassword timeout =
     (let urlParts = split_str ''://'' '''' rpcURL in
      bind_out (nth_out urlParts 0) (\<lambda>u0.
      bind_out (nth_out urlParts 1) (\<lambda>u1.
      case ParseDuration timeout of
        Err e \<Rightarrow> Panic (PanicError (''util: Can'' @ [CHR 0x27] @ ''blockTemplate parse duration '' @ timeout) e)
      | Panic p \<Rightarrow> Panic p
      | Ok timeOutIntv \<Rightarrow>
        Ok \<lparr>rpc_NodeUrl = u0 @ ''://'' @ rpcUser @ '':'' @ rpcPassword @ ''@'' @ u1,
            rpc_Name = name, rpc_Timeout = timeOutIntv\<rparr>)))"

text \<open>A transport failure is the error; any answer is a response with its status.\<close>

definition doRequest ::
    "RPCClient \<Rightarrow> string \<Rightarrow> rpc_param list \<Rightarrow> ('z rpc_world_scheme, rpcResponse \<times> nat) op" where
  "doRequest r method params w =
     (let w = w\<lparr>rw_log := rw_log w @ [(rpc_Name r, method, params)]\<rparr> in
      case rw_replies w of
        [] \<Rightarrow> (w, Err (ErrRemote ''connection refused''))
      | TransportError e # rs \<Rightarrow> (w\<lparr>rw_replies := rs\<rparr>, Err e)
      | HttpReply resp status # rs \<Rightarrow> (w\<lparr>rw_replies := rs\<rparr>, Ok (resp, status)))"

definition handleHttpError :: "rpcResponse \<Rightarrow> nat \<Rightarrow> go_error" where
  "handleHttpError response status =
     ErrText (''HTTP '' @ show_dec status @ '': '' @ rs_ErrorMessage response)"

text \<open>The common shape: a request whose status must be 200.\<close>

definition request_200 :: "RPCClient \<Rightarrow> string \<Rightarrow> rpc_param list \<Rightarrow> ('z rpc_world_scheme, raw) op" where
  "request_200 r method params =
     bind_op (doRequest r method params) (\<lambda>(resp, status).
       if status \<noteq> 200 then fail_op (handleHttpError resp status) else return_op (rs_Result resp))"

definition unmarshal_error :: go_error where
  "unmarshal_error = ErrText ''json: cannot unmarshal value''"

text \<open>\<open>json.Unmarshal\<close> into a string, a number and the records.\<close>

definition unmarshal_with :: "(raw \<Rightarrow> 'a option) \<Rightarrow> 'a \<Rightarrow> raw \<Rightarrow> 'a outcome" where
  "unmarshal_with get zero r =
     (if r = RawNull then Ok zero else case get r of Some x \<Rightarrow> Ok x | None \<Rightarrow> Err unmarshal_error)"

fun raw_string :: "raw \<Rightarrow> string option" where
  "raw_string (RawString s) = Some s" | "raw_string _ = None"
fun raw_number :: "raw \<Rightarrow> flt option" where
  "raw_number (RawNumber x) = Some x" | "raw_number _ = None"
fun raw_template :: "raw \<Rightarrow> Template option" where
  "raw_template (RawTemplate t) = Some t" | "raw_template _ = None"
fun raw_aux :: "raw \<Rightarrow> AuxBlock option" where
  "raw_aux (RawAux a) = Some a" | "raw_aux _ = None"
fun raw_block :: "raw \<Rightarrow> GetBlockReply option" where
  "raw_block (RawBlock b) = Some b" | "raw_block _ = None"
fun raw_tx :: "raw \<Rightarrow> WalletTransaction option" where
  "raw_tx (RawTx t) = Some t" | "raw_tx _ = None"
fun raw_receipt :: "raw \<Rightarrow> TxReceipt option" where
  "raw_receipt (RawReceipt t) = Some t" | "raw_receipt _ = None"
fun raw_info :: "raw \<Rightarrow> blockChainInfoResponse option" where
  "raw_info (RawInfo i) = Some i" | "raw_info _ = None"
fun raw_address :: "raw \<Rightarrow> string option" where
  "raw_address (RawAddress s) = Some s" | "raw_address _ = None"

text \<open>A decoding whose error is dropped keeps the zero value.\<close>

definition or_zero :: "'a \<Rightarrow> 'a outcome \<Rightarrow> 'a" where
  "or_zero zero r = (case r of Ok x \<Rightarrow> x | _ \<Rightarrow> zero)"

definition zero_GetBlockReply :: GetBlockReply where
  "zero_GetBlockReply = \<lparr>gb_Hash = '''', gb_Difficulty = 0, gb_Height = 0, gb_Transactions = []\<rparr>"

definition GetPeerCount :: "RPCClient \<Rightarrow> ('z rpc_world_scheme, flt) op" where
  "GetPeerCount r =
     bind_op (request_200 r ''getconnectioncount'' []) (\<lambda>result.
       return_op (or_zero 0 (unmarshal_with raw_number 0 result)))"

definition GetBlockTemplate :: "RPCClient \<Rightarrow> ('z rpc_world_scheme, raw) op" where
  "GetBlockTemplate r = request_200 r ''getblocktemplate'' [PRules]"

definition CreateAuxBlock :: "RPCClient \<Rightarrow> string \<Rightarrow> ('z rpc_world_scheme, raw) op" where
  "CreateAuxBlock r rewardAddress = request_200 r ''createauxblock'' [PString rewardAddress]"

definition GetBlockByHash :: "RPCClient \<Rightarrow> string \<Rightarrow> ('z rpc_world_scheme, GetBlockReply) op" where
  "GetBlockByHash r hash =
     bind_op (request_200 r ''getblock'' [PString hash]) (\<lambda>result.
       return_op (or_zero zero_GetBlockReply (unmarshal_with raw_block zero_GetBlockReply result)))"

definition GetLatestBlock :: "RPCClient \<Rightarrow> ('z rpc_world_scheme, u64 \<times> flt) op" where
  "GetLatestBlock r =
     bind_op (request_200 r ''getbestblockhash'' []) (\<lambda>result.
     let blockHash = or_zero '''' (unmarshal_with raw_string '''' result) in
     bind_op (GetBlockByHash r blockHash) (\<lambda>block.
       return_op (gb_Height block, gb_Difficulty block)))"

definition GetBlockByHeight :: "RPCClient \<Rightarrow> int \<Rightarrow> ('z rpc_world_scheme, GetBlockReply) op" where
  "GetBlockByHeight r height =
     bind_op (request_200 r ''getblockhash'' [PInt height]) (\<lambda>result.
     let blockHash = or_zero '''' (unmarshal_with raw_string '''' result) in
     GetBlockByHash r blockHash)"

text \<open>The text of a raw result, as far as the callers look at it.\<close>

definition SubmitBlock :: "RPCClient \<Rightarrow> string list \<Rightarrow> ('z rpc_world_scheme, bool) op" where
  "SubmitBlock r submission =
     bind_op (lift_op (nth_out submission 0)) (\<lambda>s.
     bind_op (doRequest r ''submitblock'' [PString s]) (\<lambda>(resp, status).
       if status \<noteq> 200 \<or> rs_Result resp \<noteq> RawNull
       then fail_op (ErrText (''HTTP ('' @ show_dec status @ '') error-msg: '' @ rs_ErrorMessage resp))
       else return_op True))"

definition SubmitAuxBlock :: "RPCClient \<Rightarrow> string \<Rightarrow> string \<Rightarrow> ('z rpc_world_scheme, bool) op" where
  "SubmitAuxBlock r auxBlockHash primaryAuxPow =
     bind_op (doRequest r ''submitauxblock'' [PString auxBlockHash, PString primaryAuxPow])
       (\<lambda>(resp, status).
         if status \<noteq> 200 \<or> rs_Result resp \<noteq> RawTrue
         then fail_op (ErrText (''HTTP ('' @ show_dec status @ '') error-msg: '' @ rs_ErrorMessage resp))
         else return_op True)"

definition ValidateAddress :: "RPCClient \<Rightarrow> string \<Rightarrow> ('z rpc_world_scheme, string) op" where
  "ValidateAddress r address =
     bind_op (doRequest r ''validateaddress'' [PString address]) (\<lambda>(resp, status).
       if status \<noteq> 200 then fail_op (ErrText ''RPC: `validateaddress` failed HTTP 200'')
       else lift_op (unmarshal_with raw_address '''' (rs_Result resp)))"

definition GetBlockChainInfo :: "RPCClient \<Rightarrow> ('z rpc_world_scheme, blockChainInfoResponse) op" where
  "GetBlockChainInfo r =
     bind_op (doRequest r ''getblockchaininfo'' []) (\<lambda>(resp, status).
       if status \<noteq> 200 then fail_op (ErrText ''RPC: `getblockchaininfo` failed HTTP 200'')
       else lift_op (unmarshal_with raw_info \<lparr>bi_Chain = '''', bi_NetworkDifficulty = 0\<rparr> (rs_Result resp)))"

section \<open>src/rpc/transactions.go\<close>

definition zero_WalletTransaction :: WalletTransaction where
  "zero_WalletTransaction =
     \<lparr>wt_TransactionID = '''', wt_Amount = 0, wt_Confirmations = 0, wt_Details = []\<rparr>"

definition GetTransaction :: "RPCClient \<Rightarrow> string \<Rightarrow> ('z rpc_world_scheme, WalletTransaction) op" where
  "GetTransaction r transactionID =
     bind_op (request_200 r ''gettransaction'' [PString transactionID]) (\<lambda>result.
       lift_op (unmarshal_with raw_tx zero_WalletTransaction result))"

definition SendMany :: "RPCClient \<Rightarrow> (string \<times> flt) list \<Rightarrow> ('z rpc_world_scheme, string) op" where
  "SendMany r transactions =
     bind_op (request_200 r ''sendmany'' [PString '''', PAmounts transactions]) (\<lambda>result.
       lift_op (unmarshal_with raw_string '''' result))"

definition GetWalletBalance :: "RPCClient \<Rightarrow> ('z rpc_world_scheme, flt) op" where
  "GetWalletBalance r =
     bind_op (request_200 r ''getbalance'' []) (\<lambda>result.
       return_op (or_zero 0 (unmarshal_with raw_number 0 result)))"

definition SendTransaction :: "RPCClient \<Rightarrow> string \<Rightarrow> flt \<Rightarrow> ('z rpc_world_scheme, string) op" where
  "SendTransaction r to value =
     bind_op (request_200 r ''sendtoaddress'' [PString to, PNumber value]) (\<lambda>result.
       return_op (or_zero '''' (unmarshal_with raw_string '''' result)))"

definition TxReceipt_Confirmed :: "TxReceipt \<Rightarrow> bool" where
  "TxReceipt_Confirmed r \<longleftrightarrow> sint (rc_ConfirmedCount r) > 1"

definition TxReceipt_Successful :: "TxReceipt \<Rightarrow> bool" where
  "TxReceipt_Successful r = TxReceipt_Confirmed r"

definition GetTxReceipt :: "RPCClient \<Rightarrow> string \<Rightarrow> ('z rpc_world_scheme, TxReceipt) op" where
  "GetTxReceipt r txId =
     bind_op (request_200 r ''gettransaction'' [PString txId]) (\<lambda>result.
     let zero = \<lparr>rc_BlockHeight = 0, rc_BlockHash = '''', rc_ConfirmedCount = 0\<rparr>;
         rcpt = or_zero zero (unmarshal_with raw_receipt zero result) in
     bind_op (GetBlockByHash r (rc_BlockHash rcpt)) (\<lambda>block.
       return_op (rcpt\<lparr>rc_BlockHeight := gb_Height block\<rparr>)))"

section \<open>src/rpc/health.go, src/rpc/manager.go\<close>

definition Check :: "RPCClient \<Rightarrow> ('z rpc_world_scheme, bool) op" where
  "Check r = bind_op (try_op (GetBlockTemplate r)) (\<lambda>e. return_op (case e of Inl _ \<Rightarrow> False | Inr _ \<Rightarrow> True))"

record NodeConfig =
  nc_Name :: string
  nc_URL :: string
  nc_Username :: string
  nc_Password :: string
  nc_Timeout :: string

record Manager =
  mg_chainName :: string
  mg_activeIndex :: nat
  mg_clients :: "RPCClient list"
  mg_primaryCheckInterval :: int

definition MakeRPCManager ::
    "(string \<Rightarrow> int outcome) \<Rightarrow> string \<Rightarrow> NodeConfig list \<Rightarrow> string \<Rightarrow> Manager outcome" where
  "MakeRPCManager ParseDuration chainName nodes returnToPrimaryAfter =
     bind_out (traverse (\<lambda>node. NewRPCClient ParseDuration (nc_Name node) (nc_URL node)
                 (nc_Username node) (nc_Password node) (nc_Timeout node)) nodes) (\<lambda>clients.
     case ParseDuration returnToPrimaryAfter of
       Ok interval \<Rightarrow> Ok \<lparr>mg_chainName = chainName, mg_activeIndex = 0, mg_clients = clients,
                         mg_primaryCheckInterval = interval\<rparr>
     | Err e \<Rightarrow> Panic (PanicError '''' e)
     | Panic p \<Rightarrow> Panic p)"

definition GetActiveClient :: "Manager \<Rightarrow> RPCClient outcome" where
  "GetActiveClient manager = nth_out (mg_clients manager) (mg_activeIndex manager)"

definition RestorePrimary :: "Manager \<Rightarrow> Manager" where
  "RestorePrimary m = m\<lparr>mg_activeIndex := 0\<rparr>"

definition CheckPrimary :: "Manager \<Rightarrow> ('z rpc_world_scheme, bool) op" where
  "CheckPrimary m = bind_op (lift_op (nth_out (mg_clients m) 0)) Check"

definition GetIndex :: "Manager \<Rightarrow> nat" where "GetIndex m = mg_activeIndex m"

definition checkActiveNodeHealth :: "Manager \<Rightarrow> ('z rpc_world_scheme, bool) op" where
  "checkActiveNodeHealth m = bind_op (lift_op (GetActiveClient m)) Check"

definition nextNode :: "Manager \<Rightarrow> Manager" where
  "nextNode m =
     (if int (mg_activeIndex m) < int (length (mg_clients m)) - 1
      then m\<lparr>mg_activeIndex := mg_activeIndex m + 1\<rparr>
      else m\<lparr>mg_activeIndex := 0\<rparr>)"

text \<open>The loop, by the number of nodes that may still be checked. The manager is changed also
  when the search fails.\<close>

fun find_healthy :: "nat \<Rightarrow> Manager \<Rightarrow> ('z rpc_world_scheme, Manager \<times> go_error option) op" where
  "find_healthy 0 m = return_op (m, Some (ErrText (''no healthy '' @ mg_chainName m @ '' nodes!'')))"
| "find_healthy (Suc left) m =
     (let m = nextNode m in
      bind_op (checkActiveNodeHealth m) (\<lambda>nowHealthy.
        if nowHealthy then return_op (m, None) else find_healthy left m))"

definition FindHealthyNode :: "Manager \<Rightarrow> ('z rpc_world_scheme, Manager \<times> go_error option) op" where
  "FindHealthyNode m = find_healthy (length (mg_clients m)) m"

text \<open>The result also says whether the goroutine that waits for the primary was started; one round
  of that goroutine is \<open>return_to_primary\<close>, whose result says whether it is done.\<close>

definition CheckAndRecoverRPCs ::
    "Manager \<Rightarrow> ('z rpc_world_scheme, Manager \<times> bool \<times> go_error option) op" where
  "CheckAndRecoverRPCs manager =
     bind_op (lift_op (GetActiveClient manager)) (\<lambda>client.
     bind_op (Check client) (\<lambda>healthy.
     if healthy then return_op (manager, False, None)
     else bind_op (FindHealthyNode manager) (\<lambda>(manager, err).
       return_op (manager, err = None, err))))"

definition return_to_primary :: "Manager \<Rightarrow> ('z rpc_world_scheme, Manager \<times> bool) op" where
  "return_to_primary manager =
     bind_op (CheckPrimary manager) (\<lambda>healthy.
       return_op (if healthy then (RestorePrimary manager, True) else (manager, False)))"

end
