(* ===== verification/Ledger.thy ===== *)
theory Ledger
  imports Balances
begin

text \<open>
  The ledger as its clients see it. The payout code only credits: the locale states what a
  credit promises and proves what a series of credits of different accounts does; the
  interpretation shows that \<open>AddAmount\<close> of \<open>src/persistence/balance.go\<close> keeps the promise.
\<close>

section \<open>The interface\<close>

locale ledger =
  fixes credit :: "'k \<Rightarrow> 'a \<Rightarrow> 'w \<Rightarrow> 'w \<times> unit outcome"
    and usable :: "'w \<Rightarrow> bool"
    and balance :: "'w \<Rightarrow> 'k \<Rightarrow> rat"
    and acceptable :: "'w \<Rightarrow> 'k \<Rightarrow> 'a \<Rightarrow> bool"
    and worth :: "'w \<Rightarrow> 'a \<Rightarrow> rat"
    and frame :: "'w \<Rightarrow> 'w \<Rightarrow> bool"
  assumes credit: "usable w \<Longrightarrow> acceptable w k x \<Longrightarrow> \<exists>w'. credit k x w = (w', Ok ()) \<and> usable w'
      \<and> frame w w' \<and> balance w' = (balance w)(k := balance w k + worth w x)"
    and frame_refl: "frame w w"
    and frame_trans: "frame w w' \<Longrightarrow> frame w' w'' \<Longrightarrow> frame w w''"
    and worth_frame: "frame w w' \<Longrightarrow> worth w' x = worth w x"
    and acceptable_frame: "frame w w' \<Longrightarrow> balance w' k = balance w k \<Longrightarrow> acceptable w' k x = acceptable w k x"
begin

text \<open>Crediting different accounts one after the other credits each as if it were alone.\<close>

lemma credits:
  assumes "usable w" "distinct (map fst ps)" "\<forall>(k, x) \<in> set ps. acceptable w k x"
  shows "\<exists>w'. for_op (\<lambda>(k, x). credit k x) ps w = (w', Ok ()) \<and> usable w' \<and> frame w w'
    \<and> balance w' = (\<lambda>k. balance w k + (case map_of ps k of None \<Rightarrow> 0 | Some x \<Rightarrow> worth w x))"
  using assms
proof (induction ps arbitrary: w)
  case Nil
  then show ?case by (simp add: return_op_def frame_refl)
next
  case (Cons p ps)
  obtain k x where p: "p = (k, x)" by fastforce
  obtain w1 where w1: "credit k x w = (w1, Ok ())" "usable w1" "frame w w1"
    "balance w1 = (balance w)(k := balance w k + worth w x)"
    using credit [of w k x] Cons.prems p by auto
  have fresh: "k \<notin> fst ` set ps" using Cons.prems(2) p by simp
  have "\<forall>(k', y) \<in> set ps. acceptable w1 k' y"
  proof clarify
    fix k' y assume "(k', y) \<in> set ps"
    moreover from this have "k' \<noteq> k" using fresh by force
    ultimately show "acceptable w1 k' y"
      using Cons.prems(3) acceptable_frame [OF w1(3), of k' y] w1(4) by auto
  qed
  then obtain w2 where w2: "for_op (\<lambda>(k, x). credit k x) ps w1 = (w2, Ok ())" "usable w2" "frame w1 w2"
    "balance w2 = (\<lambda>k. balance w1 k + (case map_of ps k of None \<Rightarrow> 0 | Some x \<Rightarrow> worth w1 x))"
    using Cons.IH [OF w1(2)] Cons.prems(2) by auto
  have "map_of ps k = None" using fresh by (simp add: map_of_eq_None_iff)
  then have "balance w2 = (\<lambda>k'. balance w k' + (case map_of (p # ps) k' of None \<Rightarrow> 0 | Some x \<Rightarrow> worth w x))"
    using w2(4) w1(4) worth_frame [OF w1(3)] p by (auto simp: fun_eq_iff split: option.splits)
  moreover have "for_op (\<lambda>(k, x). credit k x) (p # ps) w = (w2, Ok ())"
    using w1(1) w2(1) p by (simp add: bind_op_def)
  ultimately show ?case using w2(2) frame_trans [OF w1(3) w2(3)] by blast
qed

text \<open>The money of any set of accounts that has the credited ones grows by what was credited.\<close>

lemma total_credited:
  assumes "distinct (map fst ps)" "finite K" "fst ` set ps \<subseteq> K"
    and "balance w' = (\<lambda>k. balance w k + (case map_of ps k of None \<Rightarrow> 0 | Some x \<Rightarrow> worth w x))"
  shows "(\<Sum>k \<in> K. balance w' k) = (\<Sum>k \<in> K. balance w k) + (\<Sum>(k, x) \<leftarrow> ps. worth w x)"
proof -
  have "(\<Sum>k \<in> K. case map_of ps k of None \<Rightarrow> 0 | Some x \<Rightarrow> worth w x) = (\<Sum>(k, x) \<leftarrow> ps. worth w x)"
    using assms(1,3)
  proof (induction ps)
    case (Cons p ps)
    obtain k x where p: "p = (k, x)" by fastforce
    let ?f = "\<lambda>ps k. case map_of ps k of None \<Rightarrow> 0 | Some x \<Rightarrow> worth w x"
    have "map_of ps k = None" using Cons.prems p by (simp add: map_of_eq_None_iff)
    then have "?f (p # ps) k' = ?f ps k' + (if k' = k then worth w x else 0)" for k' by (simp add: p)
    then have "(\<Sum>k' \<in> K. ?f (p # ps) k') = (\<Sum>k' \<in> K. ?f ps k') + (\<Sum>k' \<in> K. if k' = k then worth w x else 0)"
      by (simp only: sum.distrib)
    then show ?case using Cons p assms(2) by simp
  qed simp
  then show ?thesis using assms(4) by (simp add: sum.distrib)
qed

end

section \<open>The provider\<close>

text \<open>An amount that has more than eight decimals is rounded in the log and in the balance alike, if
  neither is negative.\<close>

definition creditable :: "'z db_scheme \<Rightarrow> ledger_key \<Rightarrow> flt \<Rightarrow> bool" where
  "creditable d k amount \<longleftrightarrow> (\<exists>x. amount = Fin x)
     \<and> (eight_decimals (db_dec d amount) \<or> 0 \<le> db_dec d amount \<and> 0 \<le> rat_amount (balance_of d k))
     \<and> \<bar>round8 (db_dec d amount)\<bar> < 10 ^ 20 \<and> \<bar>rat_amount (balance_of d k) + round8 (db_dec d amount)\<bar> < 10 ^ 20"

definition decimal_worth :: "'z db_scheme \<Rightarrow> flt \<Rightarrow> rat" where
  "decimal_worth d amount = round8 (db_dec d amount)"

definition usable_books :: "'z db_scheme \<Rightarrow> bool" where
  "usable_books d \<longleftrightarrow> no_faults d \<and> ledger_consistent d"

definition rat_balance :: "'z db_scheme \<Rightarrow> ledger_key \<Rightarrow> rat" where
  "rat_balance d k = rat_amount (balance_of d k)"

lemma round8_add:
  assumes "eight_decimals a" "eight_decimals b \<or> 0 \<le> a \<and> 0 \<le> b"
  shows "round8 (a + b) = a + round8 b"
  using assms(2)
proof
  assume "eight_decimals b"
  then show ?thesis using eight_decimals_add [OF assms(1)] by (simp add: eight_decimals_def)
next
  assume nonneg: "0 \<le> a \<and> 0 \<le> b"
  obtain i where i: "a = of_int i / 10 ^ 8" using assms(1) unfolding eight_decimals_iff by blast
  have "round_half_away ((a + b) * 10 ^ 8) = i + round_half_away (b * 10 ^ 8)"
  proof -
    have e: "(a + b) * 10 ^ 8 = of_int i + b * 10 ^ 8" by (simp add: i ring_distribs)
    have "0 \<le> b * 10 ^ 8" "0 \<le> of_int i + b * 10 ^ 8" using nonneg e by (simp_all flip: e)
    then show ?thesis unfolding e round_half_away_def by (simp add: add.assoc)
  qed
  then show ?thesis by (simp add: round8_def i add_divide_distrib)
qed

lemma AddAmount_rounds:
  assumes "usable_books d" "creditable d (p, ch, a) amount"
  shows "\<exists>d'. AddAmount p ch a usage amount d = (d', Ok ()) \<and> usable_books d' \<and> same_but_ledger d d'
    \<and> rat_balance d' = (rat_balance d)((p, ch, a) := rat_balance d (p, ch, a) + decimal_worth d amount)"
proof -
  let ?k = "(p, ch, a)" and ?x = "db_dec d amount"
  let ?r = "rat_amount (balance_of d ?k)"
  have nf: "no_faults d" and lc: "ledger_consistent d" using assms(1) by (auto simp: usable_books_def)
  have n: "numeric_of (db_dec d) amount = Num ?x" using assms(2) by (auto simp: creditable_def numeric_of_def)
  have u: "unique_balances d" using lc by (simp add: ledger_consistent_def)
  have c: "store_numeric (numeric_of (db_dec d) amount) = Ok (Num (round8 ?x))"
    using assms(2) n by (simp add: creditable_def)
  have old: "balance_of d ?k = None \<or> (\<exists>r. balance_of d ?k = Some (Num r) \<and> eight_decimals r)"
    using lc by (auto simp: ledger_consistent_def)
  have r8: "eight_decimals ?r"
    using old by (auto simp: eight_decimals_iff intro: exI [of _ 0])
  have sum: "round8 (?r + ?x) = ?r + round8 ?x"
    using r8 assms(2) by (intro round8_add) (auto simp: creditable_def)
  have "store_numeric (Num (?r + ?x)) = Ok (Num (?r + round8 ?x))"
    using assms(2) by (simp add: sum creditable_def)
  then have b: "credited (balance_of d ?k) (numeric_of (db_dec d) amount) = Ok (Num (?r + round8 ?x))"
    using old n by (auto simp: credited_def simp del: store_numeric.simps)
  obtain d' entry where d': "AddAmount p ch a usage amount d = (d', Ok ())"
    "balance_of d' = (balance_of d)(?k \<mapsto> Num (?r + round8 ?x))"
    "db_changes d' = db_changes d @ [entry]" "(cr_poolid entry, cr_chain entry, cr_address entry) = ?k"
    "cr_amount entry = Num (round8 ?x)" "unique_balances d'" "no_faults d'" "same_but_ledger d d'"
    using AddAmount_value [OF nf u c b] by blast
  have "change_sum (db_changes d') k = change_sum (db_changes d) k + (if ?k = k then round8 ?x else 0)" for k
    using d'(3-5) by (simp add: change_sum_append change_key_def)
  moreover have "eight_decimals (?r + round8 ?x)" using r8 eight_decimals_round8 by (rule eight_decimals_add)
  ultimately have "ledger_consistent d'"
    using lc d'(2,6) by (auto simp: ledger_consistent_def)
  moreover have "rat_balance d' = (rat_balance d)(?k := rat_balance d ?k + decimal_worth d amount)"
    using d'(2) by (simp add: rat_balance_def decimal_worth_def fun_eq_iff)
  ultimately show ?thesis using d'(1,7,8) by (auto simp: usable_books_def)
qed

lemma same_but_ledger_refl: "same_but_ledger d d"
  by (simp add: same_but_ledger_def)

lemma same_but_ledger_trans: "same_but_ledger d e \<Longrightarrow> same_but_ledger e f \<Longrightarrow> same_but_ledger d f"
  unfolding same_but_ledger_def by (cases d; cases e; cases f) simp

lemma same_but_ledger_dec: "same_but_ledger d e \<Longrightarrow> db_dec e = db_dec d"
  unfolding same_but_ledger_def by (cases d; cases e) simp

definition credit_account :: "string \<Rightarrow> ledger_key \<Rightarrow> flt \<Rightarrow> ('z db_scheme, unit) op" where
  "credit_account usage = (\<lambda>(p, ch, a). AddAmount p ch a usage)"

interpretation books: ledger "credit_account usage" usable_books rat_balance creditable decimal_worth same_but_ledger
  for usage
proof unfold_locales
  fix d :: "'a db_scheme" and k x
  assume "usable_books d" "creditable d k x"
  then show "\<exists>d'. credit_account usage k x d = (d', Ok ()) \<and> usable_books d' \<and> same_but_ledger d d'
      \<and> rat_balance d' = (rat_balance d)(k := rat_balance d k + decimal_worth d x)"
    using AddAmount_rounds by (cases k) (auto simp: credit_account_def)
qed (auto simp: same_but_ledger_refl same_but_ledger_dec decimal_worth_def creditable_def rat_balance_def
       intro: same_but_ledger_trans)

end
