(* ===== verification/Payouts.thy ===== *)
theory Payouts
  imports Blocks Rpc Config Ledger "HOL-Library.AList"
begin

text \<open>
  Sharing a block's reward, \<open>src/payouts\<close>: the schemes (\<open>solo.go\<close>, \<open>prop.go\<close>, \<open>pplns.go\<close>,
  \<open>factory.go\<close>) and the split between the pool and its miners (\<open>rewards.go\<close>). A scheme credits
  miners through \<open>AddAmount\<close>. Both paging schemes run the same loop over pages of shares,
  newest first; it has fuel, one unit per page, and a run out of fuel is a panic of its own.
\<close>

section \<open>Maps of amounts\<close>

text \<open>\<open>m[k] += x\<close> on a Go map of floats: a missing key counts as zero.\<close>

definition map_add_at :: "(string \<times> flt) list \<Rightarrow> string \<Rightarrow> flt \<Rightarrow> (string \<times> flt) list" where
  "map_add_at m k x = AList.update k ((case map_of m k of Some y \<Rightarrow> y | None \<Rightarrow> 0) + x) m"

lemma map_add_at_keys: "fst ` set (map_add_at m k x) = insert k (fst ` set m)"
  by (simp add: map_add_at_def dom_update)

lemma distinct_map_add_at: "distinct (map fst m) \<Longrightarrow> distinct (map fst (map_add_at m k x))"
  by (simp add: map_add_at_def distinct_update)

section \<open>The loop over pages of shares\<close>

fun fold_out :: "('a \<Rightarrow> 's \<Rightarrow> 's outcome) \<Rightarrow> 'a list \<Rightarrow> 's \<Rightarrow> 's outcome" where
  "fold_out f [] s = Ok s"
| "fold_out f (x # xs) s = bind_out (f x s) (fold_out f xs)"

definition page_size :: int where "page_size = 100000"

definition out_of_fuel :: go_panic where "out_of_fuel = PanicText ''page loop out of fuel''"

text \<open>The body of the loop over one page returns the state and \<open>done\<close>.\<close>

fun page_loop ::
    "nat \<Rightarrow> (Share \<Rightarrow> 's \<times> bool \<Rightarrow> ('s \<times> bool) outcome) \<Rightarrow> int \<Rightarrow> string \<Rightarrow> int \<Rightarrow> bool \<Rightarrow> 's
      \<Rightarrow> ('z db_scheme, 's) op" where
  "page_loop 0 body pageSize poolID before inclusive s = panic_op out_of_fuel"
| "page_loop (Suc fuel) body pageSize poolID before inclusive s =
     bind_op (GetSharesBefore poolID before inclusive pageSize) (\<lambda>page.
     bind_op (lift_op (fold_out body page (s, False))) (\<lambda>(s, finished).
       if int (length page) < pageSize then return_op s
       else if finished then return_op s
       else page_loop fuel body pageSize poolID (sh_Created (last page)) False s))"

text \<open>One page per share and one more is enough.\<close>

definition page_fuel :: "'z db_scheme \<Rightarrow> nat" where
  "page_fuel d = length (db_shares d) + 1"

section \<open>src/payouts/solo.go\<close>

definition reward_usage :: "string \<Rightarrow> Found \<Rightarrow> string" where
  "reward_usage scheme confirmed = scheme @ '' REWARD FOR BLOCK '' @ show_dec (unat (fd_BlockHeight confirmed))"

definition SOLO_UpdateMinerBalances :: "string \<Rightarrow> flt \<Rightarrow> Found \<Rightarrow> ('z db_scheme, int) op" where
  "SOLO_UpdateMinerBalances poolID remainingReward confirmed =
     bind_op (AddAmount poolID (fd_Chain confirmed) (fd_Miner confirmed) (reward_usage ''SOLO'' confirmed)
                remainingReward) (\<lambda>_.
     return_op (fd_Created confirmed))"

section \<open>src/payouts/prop.go\<close>

record prop_state =
  ps_cutoffTime :: int
  ps_minerShares :: "(string \<times> flt) list"
  ps_minerScores :: "(string \<times> flt) list"
  ps_accumlatedScore :: flt

definition prop_share :: "Share \<Rightarrow> prop_state \<Rightarrow> prop_state" where
  "prop_share share s =
     (let adjustedShare = sh_Difficulty share;
          score = adjustedShare / sh_NetworkDifficulty share
      in s\<lparr>ps_minerShares := map_add_at (ps_minerShares s) (sh_Miner share) adjustedShare,
           ps_minerScores := map_add_at (ps_minerScores s) (sh_Miner share) score,
           ps_accumlatedScore := ps_accumlatedScore s + score,
           ps_cutoffTime := if ps_cutoffTime s = 0 \<or> ps_cutoffTime s < sh_Created share
                            then sh_Created share else ps_cutoffTime s\<rparr>)"

definition prop_start :: prop_state where
  "prop_start = \<lparr>ps_cutoffTime = 0, ps_minerShares = [], ps_minerScores = [], ps_accumlatedScore = 0\<rparr>"

text \<open>The loop that turns scores into rewards, with what remains of the reward.\<close>

definition prop_rewards ::
    "flt \<Rightarrow> (string \<times> flt) list \<Rightarrow> (string \<times> flt) list \<times> flt \<Rightarrow> (string \<times> flt) list \<times> flt" where
  "prop_rewards rewardPerScorePoint scores start =
     fold (\<lambda>(miner, score) (minerRewards, remainingReward).
       let reward = score * rewardPerScorePoint
       in (map_add_at minerRewards miner reward, remainingReward - reward)) scores start"

definition credit_rewards ::
    "string \<Rightarrow> string \<Rightarrow> string \<Rightarrow> (string \<times> flt) list \<Rightarrow> ('z db_scheme, unit) op" where
  "credit_rewards poolID chain usage minerRewards =
     for_op (\<lambda>(miner, reward). AddAmount poolID chain miner usage reward) minerRewards"

definition PROP_UpdateMinerBalances ::
    "(string list \<Rightarrow> string list) \<Rightarrow> (string list \<Rightarrow> string list) \<Rightarrow> string \<Rightarrow> flt \<Rightarrow> Found
      \<Rightarrow> ('z db_scheme, int) op" where
  "PROP_UpdateMinerBalances order order' poolID blockReward confirmed d =
     bind_op (page_loop (page_fuel d) (\<lambda>share (s, finished). Ok (prop_share share s, finished)) page_size
                poolID (fd_Created confirmed) True prop_start) (\<lambda>s.
     let rewardPerScorePoint = blockReward / ps_accumlatedScore s;
         (minerRewards, remainingReward) =
           prop_rewards rewardPerScorePoint (range_map order (ps_minerScores s)) ([], blockReward)
     in if remainingReward \<le> 0
        then fail_op (ErrText ''PROP payout overflow! - we awarded more than we have.  Awards not persisted'')
        else bind_op (credit_rewards poolID (fd_Chain confirmed) (reward_usage ''PROP'' confirmed)
                        (range_map order' minerRewards)) (\<lambda>_.
             return_op (ps_cutoffTime s))) d"

section \<open>src/payouts/pplns.go\<close>

record pplns_state =
  pl_cutoffTime :: int
  pl_remainingReward :: flt
  pl_accumlatedScore :: flt
  pl_minerRewards :: "(string \<times> flt) list"

definition NWindow :: flt where "NWindow = Fin 2"

text \<open>The accumulated score is read and never written.\<close>

definition pplns_share :: "flt \<Rightarrow> Share \<Rightarrow> pplns_state \<times> bool \<Rightarrow> (pplns_state \<times> bool) outcome" where
  "pplns_share blockReward share = (\<lambda>(s, finished).
     (let adjustedShare = sh_Difficulty share;
          score = adjustedShare / sh_NetworkDifficulty share;
          full = NWindow \<le> pl_accumlatedScore s + score;
          score = (if full then NWindow - pl_accumlatedScore s else score);
          s = (if full then s\<lparr>pl_cutoffTime := sh_Created share\<rparr> else s);
          reward = score * blockReward / NWindow;
          s = s\<lparr>pl_minerRewards := map_add_at (pl_minerRewards s) (sh_Miner share) reward,
                pl_remainingReward := pl_remainingReward s - reward\<rparr>
      in if pl_remainingReward s \<le> 0
         then Err (ErrText ''PPLNS payout overflow! - we awarded more than we have.  Awards not persisted'')
         else Ok (s, finished \<or> full)))"

definition pplns_start :: "flt \<Rightarrow> pplns_state" where
  "pplns_start blockReward =
     \<lparr>pl_cutoffTime = 0, pl_remainingReward = blockReward, pl_accumlatedScore = 0, pl_minerRewards = []\<rparr>"

definition PPLNS_UpdateMinerBalances ::
    "(string list \<Rightarrow> string list) \<Rightarrow> string \<Rightarrow> flt \<Rightarrow> Found \<Rightarrow> ('z db_scheme, int) op" where
  "PPLNS_UpdateMinerBalances order poolID blockReward confirmed d =
     bind_op (page_loop (page_fuel d) (pplns_share blockReward) page_size
                poolID (fd_Created confirmed) True (pplns_start blockReward)) (\<lambda>s.
     bind_op (try_op (credit_rewards poolID (fd_Chain confirmed) (reward_usage ''PPLNS'' confirmed)
                (range_map order (pl_minerRewards s)))) (\<lambda>r.
     case r of
       Inl err \<Rightarrow> fail_op (ErrJoin (ErrText ''failed to add balances: '') err)
     | Inr _ \<Rightarrow> return_op (pl_cutoffTime s))) d"

section \<open>src/payouts/factory.go, src/payouts/scheme.go\<close>

datatype scheme = PROP_scheme | PPLNS_scheme | SOLO_scheme

definition upper_char :: "char \<Rightarrow> char" where
  "upper_char c = (if 97 \<le> (of_char c :: nat) \<and> (of_char c :: nat) \<le> 122 then char_of (of_char c - 32 :: nat) else c)"

definition payoutSchemeFactory :: "string \<Rightarrow> scheme outcome" where
  "payoutSchemeFactory schemeName =
     (let schemeName = map upper_char schemeName in
      if schemeName = ''PROP'' then Ok PROP_scheme
      else if schemeName = ''PPLNS'' then Ok PPLNS_scheme
      else if schemeName = ''SOLO'' then Ok SOLO_scheme
      else Panic (PanicText (''Unknown payout scheme: '' @ schemeName)))"

record map_orders =
  mo_scores :: "string list \<Rightarrow> string list"
  mo_rewards :: "string list \<Rightarrow> string list"
  mo_chains :: "string list \<Rightarrow> string list"

fun UpdateMinerBalances :: "map_orders \<Rightarrow> scheme \<Rightarrow> string \<Rightarrow> flt \<Rightarrow> Found \<Rightarrow> ('z db_scheme, int) op" where
  "UpdateMinerBalances ord PROP_scheme = PROP_UpdateMinerBalances (mo_scores ord) (mo_rewards ord)"
| "UpdateMinerBalances ord PPLNS_scheme = PPLNS_UpdateMinerBalances (mo_rewards ord)"
| "UpdateMinerBalances ord SOLO_scheme = SOLO_UpdateMinerBalances"

section \<open>src/payouts/rewards.go\<close>

definition calculateMinerRewards ::
    "map_orders \<Rightarrow> flt \<Rightarrow> Found \<Rightarrow> Config \<Rightarrow> ('z db_scheme, int) op" where
  "calculateMinerRewards ord remainingReward confirmed config =
     bind_op (lift_op (payoutSchemeFactory (cf_PayoutScheme config))) (\<lambda>payoutScheme.
       UpdateMinerBalances ord payoutScheme (cf_PoolName config) remainingReward confirmed)"

text \<open>One recipient of the pool's cut: the reward that is left after it.\<close>

definition pool_recipient :: "Found \<Rightarrow> Config \<Rightarrow> Manager \<Rightarrow> recipient \<Rightarrow> flt \<Rightarrow> ('z db_scheme, flt) op" where
  "pool_recipient confirmed config rpcManager poolRecipient remainingReward =
     (let recipientAmount = rp_Percentage poolRecipient * fd_Reward confirmed;
          remainingReward = remainingReward - recipientAmount
      in case map_of (cf_BlockchainNodes config) (fd_Chain confirmed) of
           None \<Rightarrow> fail_op (ErrText (''calculatePoolReward(): failed to get blockchain node for : ''
                      @ fd_Chain confirmed))
         | Some chain \<Rightarrow>
           bind_op (lift_op (nth_out chain (GetIndex rpcManager))) (\<lambda>node.
           if rp_Address poolRecipient = cn_RewardTo node then return_op remainingReward
           else bind_op (AddAmount (cf_PoolName config) (fd_Chain confirmed) (rp_Address poolRecipient)
                           (''Reward for block '' @ show_dec (unat (fd_BlockHeight confirmed)))
                           recipientAmount) (\<lambda>_.
                return_op remainingReward)))"

fun fold_op :: "('a \<Rightarrow> 's \<Rightarrow> ('w, 's) op) \<Rightarrow> 'a list \<Rightarrow> 's \<Rightarrow> ('w, 's) op" where
  "fold_op f [] s = return_op s"
| "fold_op f (x # xs) s = bind_op (f x s) (fold_op f xs)"

definition calculatePoolReward :: "Found \<Rightarrow> Config \<Rightarrow> Manager \<Rightarrow> ('z db_scheme, flt) op" where
  "calculatePoolReward confirmed config rpcManager =
     (case map_of (cf_PayoutChains config) (fd_Chain confirmed) of
        None \<Rightarrow> fail_op (ErrText (''calculatePoolReward(): failed to find payout config for: ''
                   @ fd_Chain confirmed))
      | Some payoutConfig \<Rightarrow>
          fold_op (pool_recipient confirmed config rpcManager) (cp_PoolRewardRecipients payoutConfig)
            (fd_Reward confirmed))"

definition calculateBlockRewards ::
    "map_orders \<Rightarrow> Found \<Rightarrow> Config \<Rightarrow> Manager \<Rightarrow> ('z db_scheme, int) op" where
  "calculateBlockRewards ord confirmed config rpcManager =
     bind_op (calculatePoolReward confirmed config rpcManager) (\<lambda>remainingReward.
       calculateMinerRewards ord remainingReward confirmed config)"

end
