(* ===== verification/Rewards.thy ===== *)
theory Rewards
  imports Payouts
begin

text \<open>
  What the payout schemes of theory \<open>Payouts\<close> do: the page loop ends and sees the shares in the
  order of the specification \<open>paged\<close>, and each scheme either writes nothing or credits every
  miner what the shares say. The credits are those of the locale \<open>ledger\<close>.
\<close>

section \<open>Paging\<close>

text \<open>The rows of a pool up to a time, newest first.\<close>

definition pool_shares :: "string \<Rightarrow> int \<Rightarrow> bool \<Rightarrow> 'z db_scheme \<Rightarrow> share_row list" where
  "pool_shares poolID before inclusive d =
     filter (\<lambda>s. if inclusive then sr_created s \<le> pg_time before else sr_created s < pg_time before)
       (order_desc sr_created (filter (\<lambda>s. sr_poolid s = poolID) (db_shares d)))"

text \<open>Pages of such rows: a full page is followed by what is older than its last row, so rows of
  the same time that did not fit are never seen.\<close>

function paged :: "nat \<Rightarrow> share_row list \<Rightarrow> share_row list" where
  "paged n rows =
     (if n = 0 \<or> length rows < n then take n rows
      else take n rows @ paged n (filter (\<lambda>r. sr_created r < sr_created (rows ! (n - 1))) (drop n rows)))"
  by pat_completeness auto
termination
  by (relation "measure (\<lambda>(n, rows). length rows)")
    (auto simp: not_less intro: le_less_trans [OF length_filter_le])

declare paged.simps [simp del]

lemma paged_short: "length rows < n \<Longrightarrow> paged n rows = rows"
  by (simp add: paged.simps)

lemma set_paged: "set (paged n rows) \<subseteq> set rows"
  by (induction n rows rule: paged.induct)
    (subst paged.simps, auto dest: in_set_takeD in_set_dropD split: if_splits)

text \<open>When no two rows have the same time no page boundary separates equal times: nothing is lost.\<close>

lemma paged_distinct:
  "0 < n \<Longrightarrow> sorted_wrt (\<lambda>a b. sr_created b \<le> sr_created a) rows \<Longrightarrow> distinct (map sr_created rows) \<Longrightarrow> paged n rows = rows"
proof (induction n rows rule: paged.induct)
  case (1 n rows)
  show ?case
  proof (cases "length rows < n")
    case False
    let ?last = "rows ! (n - 1)" and ?rest = "drop n rows"
    have before: "sr_created r < sr_created ?last" if "r \<in> set ?rest" for r
    proof -
      obtain j where "j < length ?rest" "r = ?rest ! j"
        using \<open>r \<in> set ?rest\<close> by (metis in_set_conv_nth)
      then have "n + j < length rows" "r = rows ! (n + j)" by auto
      moreover from this have "sr_created r \<le> sr_created ?last"
        using sorted_wrt_nth_less [OF "1.prems"(2), of "n - 1" "n + j"] "1.prems"(1) by simp
      moreover have "n - 1 < length rows" "n - 1 \<noteq> n + j" using calculation(1) "1.prems"(1) by simp_all
      moreover have "sr_created r \<noteq> sr_created ?last"
        using nth_eq_iff_index_eq [OF "1.prems"(3), of "n - 1" "n + j"] "1.prems"(1) calculation by auto
      ultimately show ?thesis by simp
    qed
    then have all: "filter (\<lambda>r. sr_created r < sr_created ?last) ?rest = ?rest" by (simp add: filter_id_conv)
    have "sorted_wrt (\<lambda>a b. sr_created b \<le> sr_created a) ?rest" using "1.prems"(2) by (rule sorted_wrt_drop)
    moreover have "distinct (map sr_created ?rest)" using "1.prems"(3) by (simp add: drop_map [symmetric])
    ultimately have "paged n ?rest = ?rest" using "1.IH" False "1.prems"(1) unfolding all by blast
    then show ?thesis using False "1.prems"(1) by (subst paged.simps) (simp add: all [simplified])
  qed (rule paged_short)
qed

text \<open>A column keeps the times that were stored in it.\<close>

definition stored_times :: "'z db_scheme \<Rightarrow> bool" where
  "stored_times d \<longleftrightarrow> (\<forall>s \<in> set (db_shares d). pg_time (sr_created s) = sr_created s)"

lemma set_pool_shares: "set (pool_shares p b i d) \<subseteq> set (db_shares d)"
  by (auto simp: pool_shares_def)

lemma length_pool_shares: "length (pool_shares p b i d) \<le> length (db_shares d)"
  unfolding pool_shares_def
  by (rule order_trans [OF length_filter_le]) simp

lemma pool_shares_sorted: "sorted_wrt (\<lambda>a b. sr_created b \<le> sr_created a) (pool_shares p b i d)"
  unfolding pool_shares_def by (intro sorted_wrt_filter order_desc_sorted)

lemma pool_shares_faults [simp]: "pool_shares p b i (d\<lparr>db_faults := fs\<rparr>) = pool_shares p b i d"
  by (simp add: pool_shares_def)

lemma GetSharesBefore_rows:
  assumes "no_faults d" "0 \<le> n"
  shows "GetSharesBefore p b i n d
    = (d\<lparr>db_faults := tl (tl (db_faults d))\<rparr>, Ok (map scan_share (take (nat n) (pool_shares p b i d))))"
proof -
  have "no_faults (d\<lparr>db_faults := tl (db_faults d)\<rparr>)" using assms(1) by simp
  moreover have "filter (\<lambda>s. sr_poolid s = p \<and> (if i then sr_created s \<le> pg_time b else sr_created s < pg_time b)) rows
      = filter (\<lambda>s. if i then sr_created s \<le> pg_time b else sr_created s < pg_time b)
          (filter (\<lambda>s. sr_poolid s = p) rows)" for rows
    by (simp cong: conj_cong)
  ultimately show ?thesis
    using assms by (simp add: GetSharesBefore_def bind_op_def sql_call_ok sql_query_ok offset_fetch_def
        pool_shares_def order_desc_def filter_sort cong: if_cong)
qed

text \<open>The page after a full one: only rows older than its last row.\<close>

lemma pool_shares_next:
  assumes "stored_times d" "0 < n" "n \<le> length (pool_shares p b i d)"
    and t: "t = sr_created (pool_shares p b i d ! (n - 1))"
  shows "pool_shares p t False d = filter (\<lambda>r. sr_created r < t) (drop n (pool_shares p b i d))"
proof -
  let ?rows = "pool_shares p b i d"
  let ?all = "order_desc sr_created (filter (\<lambda>s. sr_poolid s = p) (db_shares d))"
  have mem: "?rows ! (n - 1) \<in> set ?rows" using assms(2,3) by (intro nth_mem) simp
  then have pg: "pg_time t = t" using assms(1) set_pool_shares t unfolding stored_times_def by blast
  have bound: "if i then t \<le> pg_time b else t < pg_time b"
    using mem t by (auto simp: pool_shares_def)
  have "\<forall>r \<in> set (take n ?rows). t \<le> sr_created r"
  proof
    fix r assume "r \<in> set (take n ?rows)"
    then obtain j where j: "j < n" "r = ?rows ! j" using assms(3) by (auto simp: in_set_conv_nth)
    show "t \<le> sr_created r"
    proof (cases "j = n - 1")
      case False
      then show ?thesis
        using sorted_wrt_nth_less [OF pool_shares_sorted [of p b i d], of j "n - 1"] j t assms(2,3) by auto
    qed (use j t in simp)
  qed
  then have "filter (\<lambda>r. sr_created r < t) (take n ?rows) = []" by (auto simp: filter_empty_conv)
  moreover have "filter (\<lambda>r. sr_created r < t) ?rows
      = filter (\<lambda>r. sr_created r < t) (take n ?rows) @ filter (\<lambda>r. sr_created r < t) (drop n ?rows)"
    by (metis append_take_drop_id filter_append)
  moreover have "pool_shares p t False d = filter (\<lambda>r. sr_created r < t) ?rows"
    using bound by (auto simp: pool_shares_def pg intro!: filter_cong)
  ultimately show ?thesis by simp
qed

lemma only_faults_drop: "only_faults d (d\<lparr>db_faults := fs\<rparr>)"
  by (simp add: only_faults_def)

text \<open>A fold that keeps an invariant of the state, on which its body never stops the loop.\<close>

lemma fold_out_keeps:
  assumes "\<And>x s s'. Q s \<Longrightarrow> g x s = Ok s' \<Longrightarrow> Q s'" "Q s" "fold_out g xs s = Ok s'"
  shows "Q s'"
  using assms(2,3)
proof (induction xs arbitrary: s)
  case (Cons x xs)
  then show ?case using assms(1) by (cases "g x s") auto
qed simp

lemma fold_out_plain:
  assumes "\<And>x s. x \<in> set xs \<Longrightarrow> Q s \<Longrightarrow> body x (s, False) = bind_out (g x s) (\<lambda>s. Ok (s, False))"
    and "\<And>x s s'. Q s \<Longrightarrow> g x s = Ok s' \<Longrightarrow> Q s'" "Q s"
  shows "fold_out body xs (s, False) = bind_out (fold_out g xs s) (\<lambda>s. Ok (s, False))"
  using assms(1,3)
proof (induction xs arbitrary: s)
  case (Cons x xs)
  then show ?case using assms(2) by (cases "g x s") auto
qed simp

lemma fold_out_append: "fold_out g (xs @ ys) s = bind_out (fold_out g xs s) (fold_out g ys)"
proof (induction xs arbitrary: s)
  case (Cons x xs)
  then show ?case by (cases "g x s") simp_all
qed simp

lemma last_take: "0 < k \<Longrightarrow> k \<le> length xs \<Longrightarrow> last (take k xs) = xs ! (k - 1)"
  by (cases "take k xs = []") (auto simp: last_conv_nth)

text \<open>The loop ends, with one unit of fuel per row to spare, and folds over the paged rows.\<close>

lemma page_loop_paged:
  assumes "no_faults d" "stored_times d" "0 < n" "length (pool_shares p b i d) < fuel"
    and "\<And>x s. x \<in> scan_share ` set (paged (nat n) (pool_shares p b i d)) \<Longrightarrow> Q s
      \<Longrightarrow> body x (s, False) = bind_out (g x s) (\<lambda>s. Ok (s, False))"
    and keeps: "\<And>x s s'. Q s \<Longrightarrow> g x s = Ok s' \<Longrightarrow> Q s'" and "Q s"
  shows "\<exists>d'. page_loop fuel body n p b i s d
      = (d', fold_out g (map scan_share (paged (nat n) (pool_shares p b i d))) s)
    \<and> only_faults d d' \<and> no_faults d'"
  using assms(1,2,4,5,7)
proof (induction fuel arbitrary: b i s d)
  case (Suc fuel)
  let ?rows = "pool_shares p b i d" and ?k = "nat n"
  let ?page = "take ?k ?rows"
  define e where "e = d\<lparr>db_faults := tl (tl (db_faults d))\<rparr>"
  have get: "GetSharesBefore p b i n d = (e, Ok (map scan_share ?page))"
    using GetSharesBefore_rows [OF Suc.prems(1)] assms(3) by (simp add: e_def)
  have e: "only_faults d e" "no_faults e" "stored_times e"
    using Suc.prems(1,2) by (auto simp: e_def only_faults_drop stored_times_def no_faults_def dest: in_set_tlD)
  have set_page: "set ?page \<subseteq> set (paged ?k ?rows)" unfolding paged.simps [of ?k ?rows] by auto
  have page: "fold_out body (map scan_share ?page) (s, False)
      = bind_out (fold_out g (map scan_share ?page) s) (\<lambda>s. Ok (s, False))"
    by (rule fold_out_plain [where Q = Q]) (use Suc.prems(4,5) keeps set_page in auto)
  show ?case
  proof (cases "length ?rows < ?k")
    case True
    then show ?thesis
      using get e page
      by (cases "fold_out g (map scan_share ?page) s") (auto simp: bind_op_def lift_op_def return_op_def paged.simps)
  next
    case full: False
    define t where "t = sr_created (?rows ! (?k - 1))"
    have k: "0 < ?k" "?k \<le> length ?rows" using assms(3) full by simp_all
    have "last (map scan_share ?page) = scan_share (?rows ! (?k - 1))"
      using k last_take [of ?k ?rows] by (subst last_map) auto
    then have last: "sh_Created (last (map scan_share ?page)) = t"
      by (simp add: scan_share_def t_def)
    have next_rows: "pool_shares p t False e = filter (\<lambda>r. sr_created r < t) (drop ?k ?rows)"
      using pool_shares_next [OF Suc.prems(2) k t_def] by (simp add: e_def)
    have "length (pool_shares p t False e) < length ?rows"
      unfolding next_rows using k by (intro le_less_trans [OF length_filter_le]) simp
    then have short: "length (pool_shares p t False e) < fuel" using Suc.prems(3) by simp
    have pages: "paged ?k ?rows = ?page @ paged ?k (pool_shares p t False e)"
      using k unfolding next_rows unfolding t_def by (subst paged.simps) simp
    have sub: "set (paged ?k (pool_shares p t False e)) \<subseteq> set (paged ?k ?rows)" unfolding pages by simp
    have run: "page_loop (Suc fuel) body n p b i s d =
       (case fold_out g (map scan_share ?page) s of Ok s' \<Rightarrow> page_loop fuel body n p t False s' e
        | Err x \<Rightarrow> (e, Err x) | Panic x \<Rightarrow> (e, Panic x))"
      using get page last k
      by (cases "fold_out g (map scan_share ?page) s") (simp_all add: bind_op_def lift_op_def min_def)
    show ?thesis
    proof (cases "fold_out g (map scan_share ?page) s")
      case (Ok s')
      have "\<exists>d'. page_loop fuel body n p t False s' e
          = (d', fold_out g (map scan_share (paged ?k (pool_shares p t False e))) s') \<and> only_faults e d' \<and> no_faults d'"
        using sub fold_out_keeps [where Q = Q, OF keeps Suc.prems(5) Ok]
        by (intro Suc.IH e short Suc.prems(4)) auto
      then show ?thesis
        using run Ok e(1) only_faults_trans by (auto simp: pages fold_out_append)
    qed (use run e in \<open>simp_all add: pages fold_out_append\<close>)
  qed
qed simp

section \<open>Sums per miner\<close>

definition share_score :: "Share \<Rightarrow> flt" where
  "share_score s = sh_Difficulty s / sh_NetworkDifficulty s"

text \<open>Float sums, in the order of the list.\<close>

definition running_sum :: "(Share \<Rightarrow> flt) \<Rightarrow> Share list \<Rightarrow> flt" where
  "running_sum f shares = fold (\<lambda>s acc. acc + f s) shares 0"

definition of_miner :: "string \<Rightarrow> Share list \<Rightarrow> Share list" where
  "of_miner m shares = filter (\<lambda>s. sh_Miner s = m) shares"

definition miners :: "Share list \<Rightarrow> string list" where
  "miners shares = rev (remdups (rev (map sh_Miner shares)))"

definition add_per_miner :: "(Share \<Rightarrow> flt) \<Rightarrow> Share \<Rightarrow> (string \<times> flt) list \<Rightarrow> (string \<times> flt) list" where
  "add_per_miner f s m = map_add_at m (sh_Miner s) (f s)"

lemma set_miners [simp]: "set (miners shares) = sh_Miner ` set shares"
  and distinct_miners [simp]: "distinct (miners shares)"
  by (simp_all add: miners_def)

lemma running_sum_append: "running_sum f (xs @ [x]) = running_sum f xs + f x"
  by (simp add: running_sum_def)

lemma of_miner_append: "of_miner m (xs @ [x]) = of_miner m xs @ (if sh_Miner x = m then [x] else [])"
  by (simp add: of_miner_def)

lemma miners_append:
  "miners (xs @ [x]) = (if sh_Miner x \<in> sh_Miner ` set xs then miners xs else miners xs @ [sh_Miner x])"
  by (simp add: miners_def)

lemma add_per_miner_keys: "map fst (fold (add_per_miner f) shares []) = miners shares"
proof (induction shares rule: rev_induct)
  case Nil
  then show ?case by (simp add: miners_def)
next
  case (snoc x xs)
  have "set (map fst (fold (add_per_miner f) xs [])) = sh_Miner ` set xs" unfolding snoc by simp
  then show ?case using snoc by (simp add: add_per_miner_def map_add_at_def update_keys miners_append)
qed

lemma add_per_miner_lookup:
  "map_of (fold (add_per_miner f) shares [])
     = (\<lambda>m. if m \<in> sh_Miner ` set shares then Some (running_sum f (of_miner m shares)) else None)"
proof (induction shares rule: rev_induct)
  case (snoc x xs)
  have "of_miner (sh_Miner x) xs = [] \<longleftrightarrow> sh_Miner x \<notin> sh_Miner ` set xs"
    by (auto simp: of_miner_def filter_empty_conv image_iff)
  then show ?case
    using snoc by (auto simp: fun_eq_iff add_per_miner_def map_add_at_def update_conv of_miner_append
        running_sum_append) (simp_all add: running_sum_def)
qed simp

lemma prop_share_fold:
  "ps_minerScores (fold prop_share shares s) = fold (add_per_miner share_score) shares (ps_minerScores s)"
  "ps_accumlatedScore (fold prop_share shares s) = fold (\<lambda>s acc. acc + share_score s) shares (ps_accumlatedScore s)"
  by (induction shares arbitrary: s)
    (simp_all add: prop_share_def add_per_miner_def share_score_def Let_def)

lemma prop_final:
  "ps_accumlatedScore (fold prop_share shares prop_start) = running_sum share_score shares"
  "map fst (ps_minerScores (fold prop_share shares prop_start)) = miners shares"
  "range_map order (ps_minerScores (fold prop_share shares prop_start))
     = map (\<lambda>m. (m, the (map_of (ps_minerScores (fold prop_share shares prop_start)) m))) (order (miners shares))"
  by (simp_all add: prop_share_fold prop_start_def running_sum_def add_per_miner_keys range_map_def)

lemma prop_rewards_fold:
  assumes "distinct (map fst ps)"
  shows "fst (prop_rewards rate ps (rs, left)) = fold (\<lambda>(m, score) rs. map_add_at rs m (score * rate)) ps rs"
    "snd (prop_rewards rate ps (rs, left)) = fold (\<lambda>(m, score) left. left - score * rate) ps left"
  by (induction ps arbitrary: rs left) (auto simp: prop_rewards_def Let_def)

lemma map_add_at_fresh:
  assumes "distinct (map fst ps)" "fst ` set ps \<inter> fst ` set rs = {}"
  shows "fold (\<lambda>(m, x) rs. map_add_at rs m (g x)) ps rs = rs @ map (\<lambda>(m, x). (m, 0 + g x)) ps"
  using assms
proof (induction ps arbitrary: rs)
  case (Cons p ps)
  obtain m x where p: "p = (m, x)" by fastforce
  have fresh: "m \<notin> fst ` set rs" using Cons.prems(2) p by auto
  then have none: "map_of rs m = None" by (simp add: map_of_eq_None_iff)
  have add: "map_add_at rs m y = rs @ [(m, 0 + y)]" for y
    using fresh none by (simp add: map_add_at_def update_Some_unfold) (induction rs; auto)
  have "fst ` set ps \<inter> fst ` set (rs @ [(m, 0 + g x)]) = {}" using Cons.prems p by auto
  then show ?case using Cons.IH [of "rs @ [(m, 0 + g x)]"] Cons.prems(1) p by (simp add: add)
qed simp

section \<open>PROP\<close>

text \<open>A miner's reward, and what is left of the block's reward after taking off every miner's.\<close>

definition prop_reward :: "Share list \<Rightarrow> flt \<Rightarrow> string \<Rightarrow> flt" where
  "prop_reward shares blockReward m =
     running_sum share_score (of_miner m shares) * (blockReward / running_sum share_score shares)"

definition prop_left :: "(string list \<Rightarrow> string list) \<Rightarrow> Share list \<Rightarrow> flt \<Rightarrow> flt" where
  "prop_left order shares blockReward =
     fold (\<lambda>m left. left - prop_reward shares blockReward m) (order (miners shares)) blockReward"

definition account :: "string \<Rightarrow> Found \<Rightarrow> string \<Rightarrow> ledger_key" where
  "account p blk m = (p, fd_Chain blk, m)"

lemma credit_rewards_books:
  assumes "usable_books d" "distinct (map fst rewards)"
    and "\<forall>(m, x) \<in> set rewards. creditable d (account p blk m) x"
  shows "\<exists>d'. credit_rewards p (fd_Chain blk) usage rewards d = (d', Ok ()) \<and> usable_books d' \<and> same_but_ledger d d'
    \<and> rat_balance d' = (\<lambda>k. rat_balance d k + (case map_of (map (\<lambda>(m, x). (account p blk m, x)) rewards) k of
        None \<Rightarrow> 0 | Some x \<Rightarrow> decimal_worth d x))"
proof -
  let ?ps = "map (\<lambda>(m, x). (account p blk m, x)) rewards"
  have "map fst ?ps = map (account p blk) (map fst rewards)" by auto
  moreover have "inj (account p blk)" by (simp add: account_def inj_def)
  ultimately have dist: "distinct (map fst ?ps)"
    using assms(2) by (simp add: distinct_map del: map_map) (meson inj_on_subset subset_UNIV)
  have ok: "\<forall>(k, x) \<in> set ?ps. creditable d k x" using assms(3) by auto
  have eq: "for_op (\<lambda>(k, x). credit_account usage k x) ?ps = credit_rewards p (fd_Chain blk) usage rewards"
    unfolding credit_rewards_def
    by (induction rewards) (auto simp: credit_account_def account_def fun_eq_iff bind_op_def)
  show ?thesis using books.credits [OF assms(1) dist ok, of usage] unfolding eq .
qed

lemma only_faults_same:
  assumes "only_faults d d'" "usable_books d" "no_faults d'"
  shows "same_but_ledger d d'" "usable_books d'" "rat_balance d' = rat_balance d" "db_changes d' = db_changes d"
    "creditable d' = creditable d" "decimal_worth d' = decimal_worth d"
proof -
  obtain fs where fs: "d' = d\<lparr>db_faults := fs\<rparr>" using assms(1) unfolding only_faults_def by blast
  then show "same_but_ledger d d'" "rat_balance d' = rat_balance d" "db_changes d' = db_changes d"
    "creditable d' = creditable d" "decimal_worth d' = decimal_worth d"
    by (auto simp: same_but_ledger_def rat_balance_def balance_of_def fun_eq_iff creditable_def decimal_worth_def)
  show "usable_books d'"
    using assms(2,3) fs by (simp add: usable_books_def ledger_consistent_def unique_balances_def balance_of_def)
qed

lemma map_of_accounts:
  "map_of (map (\<lambda>m. (account p blk m, f m)) ms) k
     = (if k \<in> account p blk ` set ms then Some (f (snd (snd k))) else None)"
  by (induction ms) (auto simp: account_def)

text \<open>The shares a scheme pays for a block.\<close>

definition paid_shares :: "string \<Rightarrow> Found \<Rightarrow> 'z db_scheme \<Rightarrow> Share list" where
  "paid_shares p blk d = map scan_share (paged (nat page_size) (pool_shares p (fd_Created blk) True d))"

lemma fold_out_Ok: "fold_out (\<lambda>x s. Ok (f x s)) xs s = Ok (fold f xs s)"
  by (induction xs arbitrary: s) simp_all

lemma prop_loop:
  assumes "no_faults d" "stored_times d"
  shows "\<exists>d'. page_loop (page_fuel d) (\<lambda>share (s, finished). Ok (prop_share share s, finished)) page_size p
      (fd_Created blk) True prop_start d = (d', Ok (fold prop_share (paid_shares p blk d) prop_start))
    \<and> only_faults d d' \<and> no_faults d'"
proof -
  have "length (pool_shares p (fd_Created blk) True d) < page_fuel d"
    using length_pool_shares [of p "fd_Created blk" True d] by (simp add: page_fuel_def)
  from page_loop_paged [OF assms _ this, of page_size "\<lambda>_. True" "\<lambda>share (s, finished). Ok (prop_share share s, finished)"
      "\<lambda>x s. Ok (prop_share x s)" prop_start]
  show ?thesis by (simp add: page_size_def paid_shares_def fold_out_Ok)
qed

lemma PROP_run:
  assumes "no_faults d" "stored_times d" "permutes_keys order" "permutes_keys order'"
    and shares: "shares = paid_shares p blk d"
  shows "\<exists>d'. only_faults d d' \<and> no_faults d' \<and> PROP_UpdateMinerBalances order order' p R blk d =
    (if prop_left order shares R \<le> 0
     then (d', Err (ErrText ''PROP payout overflow! - we awarded more than we have.  Awards not persisted''))
     else bind_op (credit_rewards p (fd_Chain blk) (reward_usage ''PROP'' blk)
            (map (\<lambda>m. (m, 0 + prop_reward shares R m)) (order' (order (miners shares)))))
          (\<lambda>_. return_op (ps_cutoffTime (fold prop_share shares prop_start))) d')"
proof -
  obtain d' where d': "page_loop (page_fuel d) (\<lambda>share (s, finished). Ok (prop_share share s, finished)) page_size p
      (fd_Created blk) True prop_start d = (d', Ok (fold prop_share shares prop_start))"
    "only_faults d d'" "no_faults d'" using prop_loop [OF assms(1,2)] unfolding shares by blast
  let ?s = "fold prop_share shares prop_start"
  let ?rate = "R / ps_accumlatedScore ?s"
  let ?ps = "range_map order (ps_minerScores ?s)"
  have ord: "set (order (miners shares)) = sh_Miner ` set shares" "distinct (order (miners shares))"
    using assms(3) by (simp_all add: permutes_keys_def)
  have "m \<in> set (order (miners shares)) \<Longrightarrow> the (map_of (ps_minerScores ?s) m) = running_sum share_score (of_miner m shares)" for m
    using ord by (simp add: prop_share_fold prop_start_def add_per_miner_lookup)
  then have ps: "?ps = map (\<lambda>m. (m, running_sum share_score (of_miner m shares))) (order (miners shares))"
    by (simp add: prop_final(3))
  have keys: "map fst ?ps = order (miners shares)" by (simp add: ps comp_def)
  have reward: "running_sum share_score (of_miner m shares) * ?rate = prop_reward shares R m" for m
    by (simp add: prop_reward_def prop_final(1))
  have rewards: "fst (prop_rewards ?rate ?ps ([], R)) = map (\<lambda>m. (m, 0 + prop_reward shares R m)) (order (miners shares))"
    using prop_rewards_fold(1) [of ?ps ?rate "[]" R] map_add_at_fresh [of ?ps "[]" "\<lambda>x. x * ?rate"] keys ord(2)
    by (simp add: ps comp_def reward)
  have left: "snd (prop_rewards ?rate ?ps ([], R)) = prop_left order shares R"
    using prop_rewards_fold(2) [of ?ps ?rate "[]" R] keys ord(2)
    unfolding ps by (simp add: prop_left_def fold_map comp_def reward)
  have range: "range_map order' (fst (prop_rewards ?rate ?ps ([], R)))
      = map (\<lambda>m. (m, 0 + prop_reward shares R m)) (order' (order (miners shares)))"
    unfolding rewards using assms(4) by (intro range_map_pairs) (simp add: permutes_keys_def)
  have split: "prop_rewards ?rate ?ps ([], R)
      = (fst (prop_rewards ?rate ?ps ([], R)), snd (prop_rewards ?rate ?ps ([], R)))" by simp
  show ?thesis
  proof (intro exI conjI)
    show "PROP_UpdateMinerBalances order order' p R blk d =
      (if prop_left order shares R \<le> 0
       then (d', Err (ErrText ''PROP payout overflow! - we awarded more than we have.  Awards not persisted''))
       else bind_op (credit_rewards p (fd_Chain blk) (reward_usage ''PROP'' blk)
              (map (\<lambda>m. (m, 0 + prop_reward shares R m)) (order' (order (miners shares)))))
            (\<lambda>_. return_op (ps_cutoffTime (fold prop_share shares prop_start))) d')"
      unfolding PROP_UpdateMinerBalances_def
        bind_op_def [of "page_loop (page_fuel d) (\<lambda>share (s, finished). Ok (prop_share share s, finished))
          page_size p (fd_Created blk) True prop_start" for d] d'(1) Let_def prod.case outcome.case
      by (subst split) (simp only: prod.case left range fail_op_def if_distribR)
  qed (use d' in simp_all)
qed

text \<open>
  C13. PROP either writes nothing or pays every miner by its share of the work. While no statement
  fails, the shares of the block are read to the last page; if the rewards leave nothing of
  the block's reward, an error is returned and nothing was written, and otherwise each miner's
  balance grows by the block's reward in proportion to the difficulty of its shares relative
  to the network's, rounded to eight decimals, with every other balance unchanged and the
  books balanced.
\<close>

theorem PROP_pays_by_score:
  assumes "usable_books d" "stored_times d" "permutes_keys order" "permutes_keys order'"
    and "shares = paid_shares p blk d"
    and "\<forall>m \<in> sh_Miner ` set shares. creditable d (account p blk m) (0 + prop_reward shares R m)"
  shows "\<exists>d' r. PROP_UpdateMinerBalances order order' p R blk d = (d', r)
    \<and> usable_books d' \<and> same_but_ledger d d'
    \<and> (if prop_left order shares R \<le> 0
       then (\<exists>e. r = Err e) \<and> rat_balance d' = rat_balance d \<and> db_changes d' = db_changes d
       else (\<exists>t. r = Ok t) \<and> (\<forall>k. rat_balance d' k = rat_balance d k
         + (if k \<in> account p blk ` sh_Miner ` set shares
            then decimal_worth d (0 + prop_reward shares R (snd (snd k))) else 0)))"
proof -
  have nf: "no_faults d" using assms(1) by (simp add: usable_books_def)
  obtain e where e: "only_faults d e" "no_faults e"
    and run: "PROP_UpdateMinerBalances order order' p R blk d =
      (if prop_left order shares R \<le> 0
       then (e, Err (ErrText ''PROP payout overflow! - we awarded more than we have.  Awards not persisted''))
       else bind_op (credit_rewards p (fd_Chain blk) (reward_usage ''PROP'' blk)
              (map (\<lambda>m. (m, 0 + prop_reward shares R m)) (order' (order (miners shares)))))
            (\<lambda>_. return_op (ps_cutoffTime (fold prop_share shares prop_start))) e)"
    using PROP_run [OF nf assms(2-5), of R] by blast
  note same = only_faults_same [OF e(1) assms(1) e(2)]
  show ?thesis
  proof (cases "prop_left order shares R \<le> 0")
    case True
    then show ?thesis using run same by auto
  next
    case False
    let ?ms = "order' (order (miners shares))"
    have ms: "set ?ms = sh_Miner ` set shares" "distinct ?ms"
      using assms(3,4) by (simp_all add: permutes_keys_def)
    let ?rs = "map (\<lambda>m. (m, 0 + prop_reward shares R m)) ?ms"
    have keys: "distinct (map fst ?rs)" using ms(2) by (simp add: comp_def)
    have ok: "\<forall>(m, x) \<in> set ?rs. creditable e (account p blk m) x" using assms(6) ms(1) by (simp add: same(5))
    obtain d' where d': "credit_rewards p (fd_Chain blk) (reward_usage ''PROP'' blk)
        (map (\<lambda>m. (m, 0 + prop_reward shares R m)) ?ms) e = (d', Ok ())" "usable_books d'" "same_but_ledger e d'"
      "rat_balance d' = (\<lambda>k. rat_balance e k + (case map_of (map (\<lambda>(m, x). (account p blk m, x))
         (map (\<lambda>m. (m, 0 + prop_reward shares R m)) ?ms)) k of None \<Rightarrow> 0 | Some x \<Rightarrow> decimal_worth e x))"
      using credit_rewards_books [OF same(2) keys ok] by blast
    have "rat_balance d' k = rat_balance d k + (if k \<in> account p blk ` sh_Miner ` set shares
            then decimal_worth d (0 + prop_reward shares R (snd (snd k))) else 0)" for k
      using d'(4) ms(1) by (simp add: comp_def map_of_accounts same(3,6) del: image_image)
    moreover have "PROP_UpdateMinerBalances order order' p R blk d
        = (d', Ok (ps_cutoffTime (fold prop_share shares prop_start)))"
      using run False d'(1) by (simp add: bind_op_def return_op_def)
    ultimately show ?thesis using False d'(2) same_but_ledger_trans [OF same(1) d'(3)] by auto
  qed
qed

section \<open>PPLNS\<close>

definition pplns_reward :: "flt \<Rightarrow> Share \<Rightarrow> flt" where
  "pplns_reward blockReward s = share_score s * blockReward / NWindow"

definition pplns_left :: "flt \<Rightarrow> Share list \<Rightarrow> flt" where
  "pplns_left blockReward shares = fold (\<lambda>s left. left - pplns_reward blockReward s) shares blockReward"

definition pplns_overflow :: "flt \<Rightarrow> Share list \<Rightarrow> bool" where
  "pplns_overflow blockReward shares \<longleftrightarrow>
     (\<exists>n \<in> {1..length shares}. pplns_left blockReward (take n shares) \<le> 0)"

definition pplns_step :: "flt \<Rightarrow> Share \<Rightarrow> pplns_state \<Rightarrow> pplns_state outcome" where
  "pplns_step blockReward share s =
     (if pl_remainingReward s - pplns_reward blockReward share \<le> 0
      then Err (ErrText ''PPLNS payout overflow! - we awarded more than we have.  Awards not persisted'')
      else Ok (s\<lparr>pl_minerRewards := add_per_miner (pplns_reward blockReward) share (pl_minerRewards s),
                 pl_remainingReward := pl_remainingReward s - pplns_reward blockReward share\<rparr>))"

text \<open>The window does not move: the accumulated score stays zero.\<close>

lemma pplns_share_step:
  assumes "\<not> NWindow \<le> 0 + share_score x" "pl_accumlatedScore s = 0"
  shows "pplns_share R x (s, False) = bind_out (pplns_step R x s) (\<lambda>s. Ok (s, False))"
  using assms by (simp add: pplns_share_def pplns_step_def share_score_def pplns_reward_def add_per_miner_def Let_def)

lemma pplns_left_append: "pplns_left R (xs @ [x]) = pplns_left R xs - pplns_reward R x"
  by (simp add: pplns_left_def)

lemma pplns_overflow_append:
  "pplns_overflow R (xs @ [x]) \<longleftrightarrow> pplns_overflow R xs \<or> pplns_left R (xs @ [x]) \<le> 0"
proof -
  have "{1..length (xs @ [x])} = insert (length (xs @ [x])) {1..length xs}" by auto
  moreover have "n \<in> {1..length xs} \<Longrightarrow> take n (xs @ [x]) = take n xs" for n by simp
  ultimately show ?thesis unfolding pplns_overflow_def by (auto simp del: take_append)
qed

lemma pplns_fold:
  "fold_out (pplns_step R) shares (pplns_start R) =
    (if pplns_overflow R shares
     then Err (ErrText ''PPLNS payout overflow! - we awarded more than we have.  Awards not persisted'')
     else Ok ((pplns_start R)\<lparr>pl_remainingReward := pplns_left R shares,
               pl_minerRewards := fold (add_per_miner (pplns_reward R)) shares []\<rparr>))"
proof (induction shares rule: rev_induct)
  case Nil
  then show ?case by (simp add: pplns_overflow_def pplns_start_def pplns_left_def)
next
  case (snoc x xs)
  then show ?case
    by (simp add: fold_out_append pplns_overflow_append pplns_left_append)
      (simp add: pplns_step_def pplns_start_def)
qed

lemma PPLNS_run:
  assumes "no_faults d" "stored_times d" "permutes_keys order"
    and shares: "shares = paid_shares p blk d" and "\<forall>s \<in> set shares. \<not> NWindow \<le> 0 + share_score s"
  shows "\<exists>d'. only_faults d d' \<and> no_faults d' \<and> PPLNS_UpdateMinerBalances order p R blk d =
    (if pplns_overflow R shares
     then (d', Err (ErrText ''PPLNS payout overflow! - we awarded more than we have.  Awards not persisted''))
     else bind_op (try_op (credit_rewards p (fd_Chain blk) (reward_usage ''PPLNS'' blk)
            (map (\<lambda>m. (m, running_sum (pplns_reward R) (of_miner m shares))) (order (miners shares)))))
          (\<lambda>r. case r of Inl err \<Rightarrow> fail_op (ErrJoin (ErrText ''failed to add balances: '') err)
                       | Inr _ \<Rightarrow> return_op 0) d')"
proof -
  have len: "length (pool_shares p (fd_Created blk) True d) < page_fuel d"
    using length_pool_shares [of p "fd_Created blk" True d] by (simp add: page_fuel_def)
  have "\<exists>d'. page_loop (page_fuel d) (pplns_share R) page_size p (fd_Created blk) True (pplns_start R) d
      = (d', fold_out (pplns_step R) (map scan_share (paged (nat page_size) (pool_shares p (fd_Created blk) True d)))
          (pplns_start R)) \<and> only_faults d d' \<and> no_faults d'"
  proof (rule page_loop_paged [OF assms(1,2) _ len, where Q = "\<lambda>s. pl_accumlatedScore s = 0"])
    show "pplns_share R x (s, False) = bind_out (pplns_step R x s) (\<lambda>s. Ok (s, False))"
      if "x \<in> scan_share ` set (paged (nat page_size) (pool_shares p (fd_Created blk) True d))"
        "pl_accumlatedScore s = 0" for x s
      using that assms(5) by (intro pplns_share_step) (auto simp: shares paid_shares_def)
  qed (auto simp: page_size_def pplns_step_def pplns_start_def split: if_splits)
  then obtain d' where d': "page_loop (page_fuel d) (pplns_share R) page_size p (fd_Created blk) True (pplns_start R) d
      = (d', fold_out (pplns_step R) shares (pplns_start R))" "only_faults d d'" "no_faults d'"
    unfolding shares paid_shares_def by blast
  have rewards: "range_map order (fold (add_per_miner (pplns_reward R)) shares [])
      = map (\<lambda>m. (m, running_sum (pplns_reward R) (of_miner m shares))) (order (miners shares))"
    using assms(3) by (auto simp: range_map_def add_per_miner_keys add_per_miner_lookup permutes_keys_def)
  show ?thesis
    using d' unfolding PPLNS_UpdateMinerBalances_def
      bind_op_def [of "page_loop (page_fuel d) (pplns_share R) page_size p (fd_Created blk) True (pplns_start R)" for d]
      d'(1) pplns_fold prod.case
    by (intro exI [of _ d']) (auto simp: rewards pplns_start_def)
qed

text \<open>What PPLNS pays for the shares it reads.\<close>

lemma PPLNS_pays:
  assumes "usable_books d" "stored_times d" "permutes_keys order"
    and "shares = paid_shares p blk d" "\<forall>s \<in> set shares. \<not> NWindow \<le> 0 + share_score s"
    and "\<forall>m \<in> sh_Miner ` set shares.
      creditable d (account p blk m) (running_sum (pplns_reward R) (of_miner m shares))"
  shows "\<exists>d' r. PPLNS_UpdateMinerBalances order p R blk d = (d', r)
    \<and> usable_books d' \<and> same_but_ledger d d'
    \<and> (if pplns_overflow R shares
       then (\<exists>e. r = Err e) \<and> rat_balance d' = rat_balance d \<and> db_changes d' = db_changes d
       else r = Ok 0 \<and> (\<forall>k. rat_balance d' k = rat_balance d k
         + (if k \<in> account p blk ` sh_Miner ` set shares
            then decimal_worth d (running_sum (pplns_reward R) (of_miner (snd (snd k)) shares)) else 0)))"
proof -
  have nf: "no_faults d" using assms(1) by (simp add: usable_books_def)
  let ?reward = "\<lambda>m. running_sum (pplns_reward R) (of_miner m shares)"
  let ?rs = "map (\<lambda>m. (m, ?reward m)) (order (miners shares))"
  obtain e where e: "only_faults d e" "no_faults e"
    and run: "PPLNS_UpdateMinerBalances order p R blk d =
      (if pplns_overflow R shares
       then (e, Err (ErrText ''PPLNS payout overflow! - we awarded more than we have.  Awards not persisted''))
       else bind_op (try_op (credit_rewards p (fd_Chain blk) (reward_usage ''PPLNS'' blk) ?rs))
            (\<lambda>r. case r of Inl err \<Rightarrow> fail_op (ErrJoin (ErrText ''failed to add balances: '') err)
                         | Inr _ \<Rightarrow> return_op 0) e)"
    using PPLNS_run [OF nf assms(2-5), of R] by blast
  note same = only_faults_same [OF e(1) assms(1) e(2)]
  show ?thesis
  proof (cases "pplns_overflow R shares")
    case True
    then show ?thesis using run same by auto
  next
    case False
    have ms: "set (order (miners shares)) = sh_Miner ` set shares" "distinct (order (miners shares))"
      using assms(3) by (simp_all add: permutes_keys_def)
    have keys: "distinct (map fst ?rs)" using ms(2) by (simp add: comp_def)
    have ok: "\<forall>(m, x) \<in> set ?rs. creditable e (account p blk m) x" using assms(6) ms(1) by (simp add: same(5))
    obtain d' where d': "credit_rewards p (fd_Chain blk) (reward_usage ''PPLNS'' blk) ?rs e = (d', Ok ())"
      "usable_books d'" "same_but_ledger e d'"
      "rat_balance d' = (\<lambda>k. rat_balance e k + (case map_of (map (\<lambda>(m, x). (account p blk m, x)) ?rs) k of
          None \<Rightarrow> 0 | Some x \<Rightarrow> decimal_worth e x))"
      using credit_rewards_books [OF same(2) keys ok] by blast
    have "rat_balance d' k = rat_balance d k + (if k \<in> account p blk ` sh_Miner ` set shares
            then decimal_worth d (?reward (snd (snd k))) else 0)" for k
      using d'(4) ms(1) by (simp add: comp_def map_of_accounts same(3,6) del: image_image)
    moreover have "PPLNS_UpdateMinerBalances order p R blk d = (d', Ok 0)"
      using run False d'(1) by (simp add: bind_op_def try_op_def return_op_def)
    ultimately show ?thesis using False d'(2) same_but_ledger_trans [OF same(1) d'(3)] by auto
  qed
qed

text \<open>
  C28. PPLNS pays the whole history. The window of the scheme is never filled, because the
  accumulated score is compared but never increased. As long as no single share is worth the
  window by itself, every share of the pool up to the block's time is paid its score times half
  the block's reward, however many there are, and the cutoff returned is the zero time, so
  that no share is cleared afterwards. When the rewards reach the block's reward at any share,
  nothing is paid to anybody and nothing was written. The shares are read in pages by their
  times, so that shares of one and the same time may be left out where a full page ends between
  them: it is assumed that the shares fit into one page or have different times.
\<close>

theorem PPLNS_pays_whole_history:
  assumes "usable_books d" "stored_times d" "permutes_keys order"
    and "rows = pool_shares p (fd_Created blk) True d" "length rows < nat page_size \<or> distinct (map sr_created rows)"
    and "shares = map scan_share rows" "\<forall>s \<in> set shares. \<not> NWindow \<le> 0 + share_score s"
    and "\<forall>m \<in> sh_Miner ` set shares.
      creditable d (account p blk m) (running_sum (pplns_reward R) (of_miner m shares))"
  shows "\<exists>d' r. PPLNS_UpdateMinerBalances order p R blk d = (d', r)
    \<and> usable_books d' \<and> same_but_ledger d d'
    \<and> (if pplns_overflow R shares
       then (\<exists>e. r = Err e) \<and> rat_balance d' = rat_balance d \<and> db_changes d' = db_changes d
       else r = Ok 0 \<and> (\<forall>k. rat_balance d' k = rat_balance d k
         + (if k \<in> account p blk ` sh_Miner ` set shares
            then decimal_worth d (running_sum (pplns_reward R) (of_miner (snd (snd k)) shares)) else 0)))"
proof -
  have "paged (nat page_size) rows = rows"
    using assms(5) paged_short paged_distinct [OF _ pool_shares_sorted [of p "fd_Created blk" True d]]
    unfolding assms(4) by (auto simp: page_size_def)
  then have "shares = paid_shares p blk d" unfolding assms(6) paid_shares_def assms(4) [symmetric] by simp
  then show ?thesis by (rule PPLNS_pays [OF assms(1-3) _ assms(7,8)])
qed

section \<open>The schemes return\<close>

definition never_panics :: "('w, 'a) op \<Rightarrow> bool" where
  "never_panics m \<longleftrightarrow> (\<forall>w. \<not> is_panic (snd (m w)))"

named_theorems calm \<open>operations that do not panic\<close>

lemma never_panicsD: "never_panics m \<Longrightarrow> m w \<noteq> (w', Panic p)"
  by (auto simp: never_panics_def dest: spec [of _ w])

lemma calm_bind [calm]:
  assumes "never_panics m" "\<And>x. never_panics (f x)"
  shows "never_panics (bind_op m f)"
  unfolding never_panics_def
proof
  fix w show "\<not> is_panic (snd (bind_op m f w))"
    using assms never_panicsD [OF assms(1)]
    by (cases "m w"; cases "snd (m w)") (auto simp: bind_op_def never_panics_def)
qed

lemma calm_basic [calm]:
  "never_panics (return_op x)" "never_panics (fail_op e)" "never_panics sql_call"
  "(\<And>d. \<not> is_panic (q d)) \<Longrightarrow> never_panics (sql_query q)"
  by (auto simp: never_panics_def return_op_def fail_op_def sql_call_def sql_query_def bind_op_def
      split: list.splits option.splits)

lemma calm_exec [calm]:
  assumes "\<And>d. \<not> is_panic (u d)"
  shows "never_panics (sql_exec u)"
  unfolding never_panics_def
proof
  fix d show "\<not> is_panic (snd (sql_exec u d))"
    using assms by (auto simp: sql_exec_def sql_call_def bind_op_def split: list.splits option.splits outcome.splits)
      (metis is_panic.simps(1))+
qed

lemma calm_try [calm]: "never_panics m \<Longrightarrow> never_panics (try_op m)"
  by (auto simp: never_panics_def try_op_def split: prod.splits outcome.splits) (metis is_panic.simps(1) snd_conv)

lemma calm_for [calm]: "(\<And>x. never_panics (f x)) \<Longrightarrow> never_panics (for_op f xs)"
  by (induction xs) (auto intro: calm)

lemma store_numeric_calm [simp]: "store_numeric x \<noteq> Panic p"
  by (cases x) auto

lemma traverse_calm: "(\<And>x p. f x \<noteq> Panic p) \<Longrightarrow> traverse f xs \<noteq> Panic p"
  by (induction xs) (auto simp: bind_out_eq_Panic)

lemma AddAmount_calm [calm]: "never_panics (AddAmount p ch a usage amount)"
proof -
  have "never_panics (Balance_Insert b)" for b
    unfolding Balance_Insert_def
    by (intro calm) (auto simp: is_panic_iff bind_out_eq_Panic Let_def split: if_splits)
  moreover have "never_panics (Balance_Update b)" for b
    unfolding Balance_Update_def
    by (intro calm)
      (auto simp: is_panic_iff bind_out_eq_Panic dest!: traverse_calm [THEN notE, rotated] split: if_splits)
  moreover have "never_panics (GetBalance p ch a)"
    unfolding GetBalance_def by (intro calm) simp_all
  ultimately have "never_panics (\<lambda>d. bind_op sql_call (\<lambda>_. bind_op (sql_exec (\<lambda>d.
        bind_out (store_numeric (numeric_of (db_dec d) amount)) (\<lambda>stored.
          Ok (d\<lparr>db_changes := db_changes d @
                 [\<lparr>cr_id = db_serial d, cr_poolid = p, cr_chain = ch, cr_address = a,
                   cr_amount = stored, cr_usage = usage, cr_created = pg_time now\<rparr>],
                db_serial := Suc (db_serial d)\<rparr>)))) (\<lambda>_.
      bind_op (GetBalance p ch a) (\<lambda>balance.
      if balance = None then Balance_Insert (rec\<lparr>bal_Created := now\<rparr>) else Balance_Update rec))) d)" for now rec
    by (intro calm) (auto simp: is_panic_iff bind_out_eq_Panic)
  then show ?thesis unfolding never_panics_def AddAmount_def Let_def by blast
qed

text \<open>A query of shares fails or returns the page, and writes nothing either way.\<close>

lemma GetSharesBefore_cases:
  assumes "0 \<le> n"
  obtains e fs where "GetSharesBefore p b i n d = (d\<lparr>db_faults := fs\<rparr>, Err e)"
  | fs where "GetSharesBefore p b i n d
      = (d\<lparr>db_faults := fs\<rparr>, Ok (map scan_share (take (nat n) (pool_shares p b i d))))"
proof -
  let ?q = "\<lambda>d. bind_out (offset_fetch 0 n (order_desc sr_created
      (filter (\<lambda>s. sr_poolid s = p \<and> (if i then sr_created s \<le> pg_time b else sr_created s < pg_time b)) (db_shares d))))
      (\<lambda>rows. Ok (map scan_share rows))"
  have call: "(\<exists>e fs. sql_call d = (d\<lparr>db_faults := fs\<rparr>, Err e)) \<or> (\<exists>fs. sql_call d = (d\<lparr>db_faults := fs\<rparr>, Ok ()))"
    for d :: "'a db_scheme"
    by (cases "db_faults d"; cases "hd (db_faults d)") (auto simp: sql_call_def intro: exI [of _ "[]"])
  have clean: "?q (d\<lparr>db_faults := fs\<rparr>) = Ok (map scan_share (take (nat n) (pool_shares p b i d)))" for fs
  proof -
    have "no_faults (d\<lparr>db_faults := []\<rparr>)" by (simp add: no_faults_def)
    from GetSharesBefore_rows [OF this assms, of p b i] show ?thesis
      by (simp add: GetSharesBefore_def bind_op_def sql_call_def sql_query_def)
  qed
  show thesis
    using call [of d]
  proof (elim disjE exE)
    fix e fs assume "sql_call d = (d\<lparr>db_faults := fs\<rparr>, Err e)"
    then show thesis by (intro that(1) [of fs e]) (simp add: GetSharesBefore_def bind_op_def)
  next
    fix fs assume c: "sql_call d = (d\<lparr>db_faults := fs\<rparr>, Ok ())"
    show thesis
      using call [of "d\<lparr>db_faults := fs\<rparr>"]
    proof (elim disjE exE)
      fix e gs assume "sql_call (d\<lparr>db_faults := fs\<rparr>) = (d\<lparr>db_faults := fs, db_faults := gs\<rparr>, Err e)"
      then show thesis using c by (intro that(1) [of gs e]) (simp add: GetSharesBefore_def bind_op_def sql_query_def)
    next
      fix gs assume "sql_call (d\<lparr>db_faults := fs\<rparr>) = (d\<lparr>db_faults := fs, db_faults := gs\<rparr>, Ok ())"
      then show thesis using c clean [of gs]
        by (intro that(2) [of gs]) (simp add: GetSharesBefore_def bind_op_def sql_query_def)
    qed
  qed
qed

lemma fold_out_calm:
  "(\<And>x s p. f x s \<noteq> Panic p) \<Longrightarrow> fold_out f xs s \<noteq> Panic p"
  by (induction xs arbitrary: s) (auto simp: bind_out_eq_Panic)

lemma page_loop_returns:
  assumes "stored_times d" "0 < n" "length (pool_shares p b i d) < fuel" "\<And>x s p. body x s \<noteq> Panic p"
  shows "\<not> is_panic (snd (page_loop fuel body n p b i s d))"
  using assms(1,3)
proof (induction fuel arbitrary: b i s d)
  case (Suc fuel)
  have n: "0 \<le> n" "0 < nat n" using assms(2) by simp_all
  from n(1) show ?case
  proof (cases rule: GetSharesBefore_cases [of n p b i d])
    case (1 e fs)
    then show ?thesis by (simp add: bind_op_def)
  next
    case (2 fs)
    let ?rows = "pool_shares p b i d" and ?d = "d\<lparr>db_faults := fs\<rparr>"
    let ?page = "map scan_share (take (nat n) ?rows)"
    define t where "t = sr_created (?rows ! (nat n - 1))"
    have rec: "\<not> is_panic (snd (page_loop fuel body n p (sh_Created (last ?page)) False s' ?d))"
      if full: "nat n \<le> length ?rows" for s'
    proof -
      have "last ?page = scan_share (?rows ! (nat n - 1))"
        using n(2) full last_take [of "nat n" ?rows] by (subst last_map) auto
      then have last: "sh_Created (last ?page) = t" by (simp add: scan_share_def t_def)
      have "pool_shares p t False ?d = filter (\<lambda>r. sr_created r < t) (drop (nat n) ?rows)"
        using pool_shares_next [OF Suc.prems(1) n(2) full t_def] by simp
      then have "length (pool_shares p t False ?d) < length ?rows"
        using n(2) full by (auto intro: le_less_trans [OF length_filter_le])
      then show ?thesis
        using Suc.prems unfolding last by (intro Suc.IH) (simp_all add: stored_times_def)
    qed
    show ?thesis
    proof (cases "fold_out body ?page (s, False)")
      case (Ok r)
      then show ?thesis using rec 2 assms(2)
        by (cases r) (auto simp: bind_op_def lift_op_def return_op_def min_def split: if_splits)
    next
      case (Err e)
      then show ?thesis using 2 by (simp add: bind_op_def lift_op_def)
    next
      case (Panic q)
      then show ?thesis using fold_out_calm [of body ?page "(s, False)" q] assms(4) by simp
    qed
  qed
qed simp

text \<open>
  C22. Paying a block ends: in a database that keeps the times it stores, whatever statements fail
  and whatever the shares are, each scheme returns or reports an error. The page loop is never
  out of fuel, since every page starts before the one before it, and nothing panics.
\<close>

theorem UpdateMinerBalances_returns:
  assumes "stored_times d"
  shows "\<not> is_panic (snd (UpdateMinerBalances ord scheme poolID R blk d))"
proof -
  have len: "length (pool_shares poolID (fd_Created blk) True d) < page_fuel d"
    using length_pool_shares [of poolID "fd_Created blk" True d] by (simp add: page_fuel_def)
  have loop: "\<not> is_panic (snd (page_loop (page_fuel d) body page_size poolID (fd_Created blk) True s d))"
    if "\<And>x s p. body x s \<noteq> Panic p" for s :: 'c and body
    using that by (intro page_loop_returns assms len) (simp_all add: page_size_def)
  have seq: "\<not> is_panic (snd (bind_op m f d))"
    if "\<not> is_panic (snd (m d))" "\<And>x. never_panics (f x)" for m and f :: "'c \<Rightarrow> ('a db_scheme, int) op"
    using that by (cases "m d"; cases "snd (m d)") (auto simp: bind_op_def never_panics_def)
  have credits: "never_panics (credit_rewards p ch usage rs)" for p ch usage rs
    unfolding credit_rewards_def by (intro calm) (auto intro: calm)
  show ?thesis
  proof (cases scheme)
    case PROP_scheme
    show ?thesis
      unfolding PROP_scheme UpdateMinerBalances.simps PROP_UpdateMinerBalances_def Let_def
      by (intro seq loop) (auto intro!: calm credits split: prod.split)
  next
    case PPLNS_scheme
    show ?thesis
      unfolding PPLNS_scheme UpdateMinerBalances.simps PPLNS_UpdateMinerBalances_def
      by (intro seq loop) (auto intro!: calm credits simp: pplns_share_def Let_def split: prod.split sum.split)
  next
    case SOLO_scheme
    show ?thesis
      unfolding SOLO_scheme UpdateMinerBalances.simps SOLO_UpdateMinerBalances_def
      by (intro seq calm) (simp add: AddAmount_calm [unfolded never_panics_def])
  qed
qed

section \<open>Witnesses\<close>

definition scored_row :: "string \<Rightarrow> rat \<Rightarrow> int \<Rightarrow> share_row" where
  "scored_row m score t = (example_share_row m t)\<lparr>sr_difficulty := Fin score, sr_networkdifficulty := Fin 1\<rparr>"

definition payout_db :: "rat \<Rightarrow> rat \<Rightarrow> unit db_scheme" where
  "payout_db a b = example_db\<lparr>db_shares := [scored_row ''alice'' a 3000, scored_row ''bob'' b 1000]\<rparr>"

definition payout_block :: Found where
  "payout_block = zero_Found\<lparr>fd_Chain := ''dogecoin'', fd_Miner := ''bob'', fd_Created := 5000\<rparr>"

lemma pg_time_micro: "pg_time (1000 * k) = 1000 * k"
  using round_even_of_int [of k] by (simp add: pg_time_def)

lemma payout_db_usable: "usable_books (payout_db a b)" "stored_times (payout_db a b)"
proof -
  have "ledger_consistent (payout_db a b) = ledger_consistent example_db" "no_faults (payout_db a b) = no_faults example_db"
    by (simp_all add: payout_db_def ledger_consistent_def unique_balances_def balance_of_def no_faults_def)
  then show "usable_books (payout_db a b)" using example_db_consistent by (simp add: usable_books_def)
  show "stored_times (payout_db a b)"
    using pg_time_micro [of 1] pg_time_micro [of 3]
    by (simp add: stored_times_def payout_db_def scored_row_def example_share_row_def)
qed

definition scored_share :: "string \<Rightarrow> rat \<Rightarrow> int \<Rightarrow> Share" where
  "scored_share m score t = scan_share (scored_row m score t)"

lemma scored_share_simps [simp]:
  "sh_Miner (scored_share m score t) = m" "share_score (scored_share m score t) = Fin score / Fin 1"
  by (simp_all add: scored_share_def share_score_def scan_share_def scored_row_def example_share_row_def)

lemma payout_rows:
  "pool_shares ''p'' (fd_Created payout_block) True (payout_db a b) = [scored_row ''alice'' a 3000, scored_row ''bob'' b 1000]"
proof -
  have "pg_time (fd_Created payout_block) = 5000"
    using pg_time_micro [of 5] by (simp add: payout_block_def)
  then show ?thesis
    by (simp add: pool_shares_def payout_db_def order_desc_def scored_row_def example_share_row_def)
qed

lemma payout_shares:
  "paid_shares ''p'' payout_block (payout_db a b) = [scored_share ''alice'' a 3000, scored_share ''bob'' b 1000]"
  by (simp add: paid_shares_def payout_rows paged_short page_size_def scored_share_def)

lemma payout_balances:
  "rat_balance (payout_db a b) k = (if k = (''p'', ''dogecoin'', ''bob'') then 5 / 2 else 0)"
  "db_dec (payout_db a b) (Fin x) = x"
  by (auto simp: rat_balance_def payout_db_def balance_of_def example_db_def balance_key_def)

lemma round8_bound: "\<bar>round8 r\<bar> \<le> \<bar>r\<bar> + 1"
proof -
  have "\<bar>of_int (round_half_away x) - x\<bar> \<le> 1" for x
    unfolding round_half_away_def by (auto simp: abs_le_iff) linarith+
  from this [of "r * 10 ^ 8"] have "\<bar>of_int (round_half_away (r * 10 ^ 8)) - r * 10 ^ 8\<bar> \<le> 1" .
  then have "\<bar>of_int (round_half_away (r * 10 ^ 8))\<bar> \<le> \<bar>r * 10 ^ 8\<bar> + (1 :: rat)" by linarith
  then have "\<bar>of_int (round_half_away (r * 10 ^ 8))\<bar> \<le> (\<bar>r\<bar> + 1) * (10 ^ 8 :: rat)" by (simp add: abs_mult)
  then show ?thesis unfolding round8_def by (simp add: abs_divide)
qed

lemma payout_creditable:
  assumes "0 \<le> x" "x \<le> 1000"
  shows "creditable (payout_db a b) k (Fin x)"
proof -
  have "0 \<le> rat_amount (balance_of (payout_db a b) k)" "rat_amount (balance_of (payout_db a b) k) \<le> 5"
    using payout_balances(1) [of a b k] by (auto simp: rat_balance_def)
  then show ?thesis
    using round8_bound [of x] assms by (simp add: creditable_def payout_balances(2))
qed

lemma fl64_small:
  "fl64 (1 / 2) = Fin (1 / 2)" "fl64 (5 / 2) = Fin (5 / 2)" "fl64 (5 / 4) = Fin (5 / 4)" "fl64 (5 / 8) = Fin (5 / 8)"
  "fl64 (15 / 8) = Fin (15 / 8)"
  by (rule fl64_dyadic [of _ 1 "- 1"] fl64_dyadic [of _ 5 "- 1"] fl64_dyadic [of _ 5 "- 2"] fl64_dyadic [of _ 5 "- 3"]
      fl64_dyadic [of _ 15 "- 3"]; simp add: pow2_def)+

text \<open>Two shares of half a point each, and a reward of 2.5: a quarter of half the reward each.\<close>

theorem PPLNS_pays_whole_history_witness:
  "\<exists>d'. PPLNS_UpdateMinerBalances rev ''p'' (Fin (5 / 2)) payout_block (payout_db (1 / 2) (1 / 2)) = (d', Ok 0)
    \<and> rat_balance d' (''p'', ''dogecoin'', ''bob'') = 5 / 2 + 5 / 8
    \<and> rat_balance d' (''p'', ''dogecoin'', ''alice'') = 5 / 8"
proof -
  let ?d = "payout_db (1 / 2) (1 / 2)" and ?R = "Fin (5 / 2)"
  let ?shares = "[scored_share ''alice'' (1 / 2) 3000, scored_share ''bob'' (1 / 2) 1000]"
  have fits: "length [scored_row ''alice'' (1 / 2) 3000, scored_row ''bob'' (1 / 2) 1000] < nat page_size
      \<or> distinct (map sr_created [scored_row ''alice'' (1 / 2) 3000, scored_row ''bob'' (1 / 2) 1000])"
    by (simp add: page_size_def)
  have paid: "?shares = map scan_share [scored_row ''alice'' (1 / 2) 3000, scored_row ''bob'' (1 / 2) 1000]"
    by (simp add: scored_share_def)
  have reward: "pplns_reward ?R (scored_share m (1 / 2) t) = Fin (5 / 8)" for m t
    by (simp add: pplns_reward_def NWindow_def fl64_small)
  have total: "running_sum (pplns_reward ?R) (of_miner m ?shares) = Fin (5 / 8)" if "m \<in> sh_Miner ` set ?shares" for m
    using that by (auto simp: of_miner_def running_sum_def reward zero_flt_def fl64_small)
  have window: "\<forall>s \<in> set ?shares. \<not> NWindow \<le> 0 + share_score s"
    by (simp add: NWindow_def zero_flt_def fl64_small)
  have pay: "\<forall>m \<in> sh_Miner ` set ?shares.
      creditable ?d (account ''p'' payout_block m) (running_sum (pplns_reward ?R) (of_miner m ?shares))"
  proof
    fix m assume "m \<in> sh_Miner ` set ?shares"
    from total [OF this]
    show "creditable ?d (account ''p'' payout_block m) (running_sum (pplns_reward ?R) (of_miner m ?shares))"
      using payout_creditable [of "5 / 8"] by simp
  qed
  have ov: "\<not> pplns_overflow ?R ?shares"
    by (auto simp: pplns_overflow_def pplns_left_def reward fl64_small take_Cons' numeral_2_eq_2 le_Suc_eq)
      (simp_all add: zero_flt_def)
  obtain d' where d': "PPLNS_UpdateMinerBalances rev ''p'' ?R payout_block ?d = (d', Ok 0)"
    "\<forall>k. rat_balance d' k = rat_balance ?d k + (if k \<in> account ''p'' payout_block ` sh_Miner ` set ?shares
       then decimal_worth ?d (running_sum (pplns_reward ?R) (of_miner (snd (snd k)) ?shares)) else 0)"
    using PPLNS_pays_whole_history [OF payout_db_usable permutes_keys_examples(2) payout_rows [symmetric] fits paid window pay]
      ov by auto
  have "eight_decimals (5 / 8)" unfolding eight_decimals_iff by (intro exI [of _ 62500000]) simp
  then have "decimal_worth ?d (Fin (5 / 8)) = 5 / 8"
    by (simp add: decimal_worth_def payout_balances eight_decimals_def)
  then show ?thesis
    using d' total by (intro exI [of _ d']) (auto simp: payout_balances account_def payout_block_def)
qed

theorem UpdateMinerBalances_returns_witness:
  "\<not> is_panic (snd (UpdateMinerBalances \<lparr>mo_scores = rev, mo_rewards = rev, mo_chains = rev\<rparr> PPLNS_scheme ''p'' (Fin 1)
     payout_block (payout_db 1 2)))"
  by (rule UpdateMinerBalances_returns) (rule payout_db_usable)

text \<open>Scores of two and one and a reward of one: a third of it is rounded down, so something is left.\<close>

definition third :: rat where "third = 6004799503160661 / 2 ^ 54"

lemma third_float: "fl64 (1 / 3) = Fin third" "fl64 third = Fin third" "fl64 (2 * third) = Fin (2 * third)"
  "fl64 (1 - 2 * third) = Fin (1 - 2 * third)" "fl64 (1 - 3 * third) = Fin (1 - 3 * third)"
proof -
  have p: "pow2 (- 54) = 1 / 2 ^ 54" "pow2 (- 2) = 1 / 4" "pow2 (- 1) = 1 / 2" by (simp_all add: pow2_def)
  have "round_even ((1 / 3) / pow2 (- 2 - 52)) = 6004799503160661"
    by (rule round_even_eq) (simp add: p abs_if)
  from fl64_round [OF _ _ _ _ this] show "fl64 (1 / 3) = Fin third" by (simp add: p third_def)
  show "fl64 third = Fin third" by (rule fl64_dyadic [of _ 6004799503160661 "- 54"]) (simp_all add: p third_def)
  show "fl64 (2 * third) = Fin (2 * third)"
    by (rule fl64_dyadic [of _ 6004799503160661 "- 53"]) (simp_all add: pow2_def third_def)
  show "fl64 (1 - 2 * third) = Fin (1 - 2 * third)"
    by (rule fl64_dyadic [of _ "6004799503160662" "- 54"]) (simp_all add: p third_def)
  show "fl64 (1 - 3 * third) = Fin (1 - 3 * third)"
    by (rule fl64_dyadic [of _ 1 "- 54"]) (simp_all add: p third_def)
qed

theorem PROP_pays_by_score_witness:
  "\<exists>d' t. PROP_UpdateMinerBalances (\<lambda>ks. ks) rev ''p'' (Fin 1) payout_block (payout_db 2 1) = (d', Ok t)
    \<and> rat_balance d' (''p'', ''dogecoin'', ''alice'') = round8 (2 * third)
    \<and> rat_balance d' (''p'', ''dogecoin'', ''bob'') = 5 / 2 + round8 third"
proof -
  let ?d = "payout_db 2 1"
  let ?shares = "[scored_share ''alice'' 2 3000, scored_share ''bob'' 1 1000]"
  have two: "fl64 2 = Fin 2" "fl64 3 = Fin 3" "fl64 1 = Fin 1" using fl64_int [of 2] fl64_int [of 3] fl64_int [of 1] by simp_all
  have sum: "running_sum share_score ?shares = Fin 3" "running_sum share_score (of_miner ''alice'' ?shares) = Fin 2"
    "running_sum share_score (of_miner ''bob'' ?shares) = Fin 1"
    by (simp_all add: running_sum_def of_miner_def zero_flt_def two)
  have reward: "prop_reward ?shares (Fin 1) ''alice'' = Fin (2 * third)" "prop_reward ?shares (Fin 1) ''bob'' = Fin third"
    unfolding prop_reward_def sum by (simp_all add: third_float)
  have total: "0 + prop_reward ?shares (Fin 1) ''alice'' = Fin (2 * third)" "0 + prop_reward ?shares (Fin 1) ''bob'' = Fin third"
    unfolding reward by (simp_all add: zero_flt_def third_float)
  have t: "0 \<le> third" "2 * third \<le> 1000" "third \<le> 1000" "0 < 1 - 3 * third" by (simp_all add: third_def)
  have pay: "\<forall>m \<in> sh_Miner ` set ?shares.
      creditable ?d (account ''p'' payout_block m) (0 + prop_reward ?shares (Fin 1) m)"
    using payout_creditable [of "2 * third"] payout_creditable [of third] t by (simp add: total)
  have "prop_left (\<lambda>ks. ks) ?shares (Fin 1) = Fin (1 - 3 * third)"
    by (simp add: prop_left_def miners_def reward third_float)
  then have left: "\<not> prop_left (\<lambda>ks. ks) ?shares (Fin 1) \<le> 0" using t(4) by (simp add: zero_flt_def)
  obtain d' t where d': "PROP_UpdateMinerBalances (\<lambda>ks. ks) rev ''p'' (Fin 1) payout_block ?d = (d', Ok t)"
    "\<forall>k. rat_balance d' k = rat_balance ?d k + (if k \<in> account ''p'' payout_block ` sh_Miner ` set ?shares
       then decimal_worth ?d (0 + prop_reward ?shares (Fin 1) (snd (snd k))) else 0)"
    using PROP_pays_by_score [OF payout_db_usable permutes_keys_examples payout_shares [symmetric] pay] left by auto
  have "decimal_worth ?d (Fin x) = round8 x" for x by (simp add: decimal_worth_def payout_balances)
  then show ?thesis
    using d' by (intro exI [of _ d'] exI [of _ t]) (simp add: payout_balances account_def payout_block_def total)
qed

text \<open>
  PROP does not pay a miner who did all the work. When every share of the block is one
  miner's and multiplying back gives the block's reward, the reward of that miner is all
  there is; the check for an overflow takes the nothing that is left for an overflow, and the
  block is paid to nobody.
\<close>

theorem PROP_refuses_a_lone_miner:
  assumes "usable_books d" "stored_times d" "permutes_keys order" "permutes_keys order'"
    and "paid_shares p blk d \<noteq> []" "\<forall>s \<in> set (paid_shares p blk d). sh_Miner s = m"
    and "running_sum share_score (paid_shares p blk d) * (Fin r / running_sum share_score (paid_shares p blk d)) = Fin r"
  shows "\<exists>d' e. PROP_UpdateMinerBalances order order' p (Fin r) blk d = (d', Err e)
    \<and> rat_balance d' = rat_balance d \<and> db_changes d' = db_changes d"
proof -
  have nf: "no_faults d" using assms(1) by (simp add: usable_books_def)
  define shares where "shares = paid_shares p blk d"
  note lone = assms(5-7) [folded shares_def]
  have all: "of_miner m shares = shares" using lone(2) by (simp add: of_miner_def)
  have "set (miners shares) = {m}" using lone(1,2) by (cases shares) auto
  then have "set (order (miners shares)) = {m}" "distinct (order (miners shares))"
    using assms(3) by (simp_all add: permutes_keys_def)
  then have "order (miners shares) = [m]"
    by (metis List.finite_set card.empty card_insert_disjoint distinct_card empty_iff finite.emptyI insertI1
        length_0_conv length_Suc_conv list.set_intros(1) singletonD)
  then have "prop_left order shares (Fin r) = Fin 0"
    using lone(3) all by (simp add: prop_left_def prop_reward_def)
  then have "prop_left order shares (Fin r) \<le> 0" by (simp add: zero_flt_def)
  then show ?thesis
    using PROP_run [OF nf assms(2-4) shares_def, of "Fin r"] only_faults_same [OF _ assms(1)] by auto
qed

theorem PROP_refuses_a_lone_miner_witness:
  "\<exists>d' e. PROP_UpdateMinerBalances rev rev ''p'' (Fin (5 / 2)) payout_block
      ((payout_db 1 1)\<lparr>db_shares := [scored_row ''alice'' 2 3000]\<rparr>) = (d', Err e)
    \<and> rat_balance d' (''p'', ''dogecoin'', ''alice'') = 0"
proof -
  let ?d = "(payout_db 1 1)\<lparr>db_shares := [scored_row ''alice'' 2 3000]\<rparr>"
  have u: "usable_books ?d" "stored_times ?d"
    using payout_db_usable [of 1 1] payout_db_usable(2) [of 2 1]
    by (simp_all add: usable_books_def no_faults_def ledger_consistent_def unique_balances_def balance_of_def
        stored_times_def payout_db_def)
  have "pg_time (fd_Created payout_block) = 5000"
    using pg_time_micro [of 5] by (simp add: payout_block_def)
  then have "pool_shares ''p'' (fd_Created payout_block) True ?d = [scored_row ''alice'' 2 3000]"
    by (simp add: pool_shares_def order_desc_def scored_row_def example_share_row_def)
  then have shares: "paid_shares ''p'' payout_block ?d = [scored_share ''alice'' 2 3000]"
    by (simp add: paid_shares_def paged_short page_size_def scored_share_def)
  have two: "fl64 2 = Fin 2" using fl64_int [of 2] by simp
  have "\<exists>d' e. PROP_UpdateMinerBalances rev rev ''p'' (Fin (5 / 2)) payout_block ?d = (d', Err e)
      \<and> rat_balance d' = rat_balance ?d \<and> db_changes d' = db_changes ?d"
  proof (rule PROP_refuses_a_lone_miner [OF u permutes_keys_examples(2,2), where m = "''alice''"])
    show "running_sum share_score (paid_shares ''p'' payout_block ?d)
        * (Fin (5 / 2) / running_sum share_score (paid_shares ''p'' payout_block ?d)) = Fin (5 / 2)"
      by (simp add: shares running_sum_def zero_flt_def two fl64_small)
  qed (simp_all add: shares)
  moreover have "rat_balance ?d (''p'', ''dogecoin'', ''alice'') = 0"
    using payout_balances(1) [of 1 1 "(''p'', ''dogecoin'', ''alice'')"]
    by (simp add: rat_balance_def balance_of_def)
  ultimately show ?thesis by auto
qed

end
