(* ===== verification/Payer.thy ===== *)
theory Payer
  imports Rewards Chains
begin

text \<open>
  Confirming blocks and paying miners, \<open>src/payouts/unlock.go\<close>, \<open>payer.go\<close> and \<open>manager.go\<close>.
  The state is the database together with the script of the nodes' replies. One round of the
  endless loop of \<open>RunManager\<close> is \<open>manager_round\<close>; log lines are not kept.
\<close>

section \<open>src/payouts/unlock.go\<close>

definition join_context :: "string \<Rightarrow> go_error \<Rightarrow> go_error" where
  "join_context m err = ErrJoin (ErrText m) err"

definition block_text :: "Found \<Rightarrow> string" where
  "block_text b = fd_Chain b @ '' block '' @ show_dec (unat (fd_BlockHeight b)) @ '', '' @ fd_Hash b"

text \<open>An error of a call gets a context in front of it.\<close>

definition in_context :: "string \<Rightarrow> ('w, 'a) op \<Rightarrow> ('w, 'a) op" where
  "in_context m f = bind_op (try_op f) (\<lambda>r. case r of Inl err \<Rightarrow> fail_op (join_context m err) | Inr x \<Rightarrow> return_op x)"

text \<open>The confirmation data found for an auxiliary block is kept in the loop's copy only.\<close>

definition classify_block ::
    "(bytes \<Rightarrow> bytes \<Rightarrow> bytes) \<Rightarrow> (string \<times> Manager) list \<Rightarrow> Found \<Rightarrow> ('z rpc_world_scheme, Found) op" where
  "classify_block scryptKey rpcManagers localBlock =
     (case map_of rpcManagers (fd_Chain localBlock) of
        None \<Rightarrow> fail_op (ErrText (''unlocker failed to find node for: '' @ fd_Chain localBlock))
      | Some rpcManager \<Rightarrow>
        bind_op (lift_op (GetActiveClient rpcManager)) (\<lambda>client.
        bind_op (in_context (''unlocker failed to find remote block for '' @ block_text localBlock)
                   (GetBlockByHash client (fd_Hash localBlock))) (\<lambda>remoteBlock.
        if length (gb_Transactions remoteBlock) < 1
        then fail_op (ErrText (''unlocker failed to fetch transaction confirmation for '' @ block_text localBlock))
        else
        bind_op (lift_op (payouts_reverseHexBytes (gb_Transactions remoteBlock ! 0))) (\<lambda>remoteHash.
        if fd_TransactionConfirmationData localBlock \<noteq> '''' \<and> fd_TransactionConfirmationData localBlock \<noteq> remoteHash
        then fail_op (ErrText (''Our confirmation data for '' @ fd_Chain localBlock @ '' height ''
               @ show_dec (unat (fd_BlockHeight localBlock)) @ '' does not match the blockchains: (local) ''
               @ fd_TransactionConfirmationData localBlock @ '' <> (remote) '' @ remoteHash))
        else
        let data = (if fd_TransactionConfirmationData localBlock \<noteq> '''' then fd_TransactionConfirmationData localBlock
                    else remoteHash) in
        bind_op (lift_op (payouts_reverseHexBytes data)) (\<lambda>littleEndian.
        bind_op (lift_op (GetActiveClient rpcManager)) (\<lambda>client.
        bind_op (in_context (fd_Chain localBlock @ '' Block '' @ show_dec (unat (fd_BlockHeight localBlock))
                   @ '': (confirmation) '' @ data) (GetTransaction client littleEndian)) (\<lambda>tx.
        bind_op (lift_op (nth_out (wt_Details tx) 0)) (\<lambda>detail.
        if td_Category detail = ''immature''
        then bind_op (lift_op (GetChain scryptKey (fd_Chain localBlock))) (\<lambda>chain.
               let progress = div32 (flt32_of_nat (unat (wt_Confirmations tx)))
                                    (flt32_of_nat (unat (MinimumConfirmations chain)))
               in return_op (localBlock\<lparr>fd_ConfirmationProgress := payouts_roundToThreeDigits progress,
                                        fd_Reward := wt_Amount tx\<rparr>))
        else if td_Category detail = ''generate''
        then return_op (localBlock\<lparr>fd_Status := StatusConfirmed, fd_ConfirmationProgress := 1,
                                   fd_Reward := wt_Amount tx\<rparr>)
        else return_op (localBlock\<lparr>fd_Status := StatusOrphaned, fd_Reward := 0\<rparr>)))))))))"

definition classifyBlocks ::
    "(bytes \<Rightarrow> bytes \<Rightarrow> bytes) \<Rightarrow> Found list \<Rightarrow> (string \<times> Manager) list \<Rightarrow> ('z rpc_world_scheme, Found list) op" where
  "classifyBlocks scryptKey blocks rpcManagers = map_op (classify_block scryptKey rpcManagers) blocks"

text \<open>The lower bound of a block's window stays that of the block before it when there is no earlier block.\<close>

fun effort_loop :: "string \<Rightarrow> int \<Rightarrow> Found list \<Rightarrow> ('z db_scheme, Found list) op" where
  "effort_loop poolID lower [] = return_op []"
| "effort_loop poolID lower (block # blocks) =
     bind_op (map_err_op (ErrWrap ''blockEffort BlockBefore: '')
       (BlockBefore poolID [StatusConfirmed, StatusOrphaned, StatusPending] (fd_Created block))) (\<lambda>lastBlock.
     let lower = (case lastBlock of Some b \<Rightarrow> fd_Created b | None \<Rightarrow> lower) in
     bind_op (map_err_op (ErrWrap ''blockEffort GetEffectiveAccumulatedShareDifficultyBetween: '')
       (GetEffectiveAccumulatedShareDifficultyBetween poolID lower (fd_Created block))) (\<lambda>effort.
     bind_op (effort_loop poolID lower blocks) (\<lambda>rest.
       return_op (block\<lparr>fd_Effort := effort\<rparr> # rest))))"

definition calculateBlockEffort :: "Found list \<Rightarrow> string \<Rightarrow> ('z db_scheme, Found list) op" where
  "calculateBlockEffort blocks poolID = effort_loop poolID 0 blocks"

definition unlockBlocks ::
    "(bytes \<Rightarrow> bytes \<Rightarrow> bytes) \<Rightarrow> string \<Rightarrow> (string \<times> Manager) list \<Rightarrow> ('z rpc_world_scheme, Found list) op" where
  "unlockBlocks scryptKey poolID rpcManagers =
     bind_op (PendingBlocksForPool poolID) (\<lambda>pending.
     bind_op (classifyBlocks scryptKey pending rpcManagers) (\<lambda>blocks.
       calculateBlockEffort blocks poolID))"

section \<open>src/payouts/payer.go\<close>

definition findBalanceAddress :: "Balance \<Rightarrow> Config \<Rightarrow> string outcome" where
  "findBalanceAddress balance config =
     (if 1 < length (cf_BlockChainOrder config) then
        let addresses = split_on CHR ''-'' (bal_Address balance) in
        if length addresses = 1 then Ok (addresses ! 0)
        else
          let i = length (takeWhile (\<lambda>chain. chain \<noteq> bal_Chain balance) (cf_BlockChainOrder config)) in
          if i = length (cf_BlockChainOrder config)
          then Err (ErrText (''chain address not found: '' @ bal_Chain balance))
          else nth_out addresses i
      else Ok (bal_Address balance))"

type_synonym payment_groups = "(string \<times> (string \<times> flt) list) list"

text \<open>The first loop: within a chain an address is set, not added to.\<close>

definition group_payment :: "Config \<Rightarrow> Balance \<Rightarrow> payment_groups \<Rightarrow> payment_groups outcome" where
  "group_payment config balance groups =
     (let chainBalances = (case map_of groups (bal_Chain balance) of Some m \<Rightarrow> m | None \<Rightarrow> []) in
      bind_out (findBalanceAddress balance config) (\<lambda>address.
        Ok (AList.update (bal_Chain balance) (AList.update address (bal_Amount balance) chainBalances) groups)))"

definition send_group ::
    "(string \<times> Manager) list \<Rightarrow> string \<times> (string \<times> flt) list \<Rightarrow> ('z rpc_world_scheme, string \<times> string) op" where
  "send_group rpcManagers = (\<lambda>(chain, transactions).
     (case map_of rpcManagers chain of
        None \<Rightarrow> fail_op (ErrText (''payouts.bitcoinTryManyPayments() - failed to find chain rpc: '' @ chain))
      | Some client \<Rightarrow>
          bind_op (lift_op (GetActiveClient client)) (\<lambda>node.
          bind_op (in_context (''failed to send '' @ chain @ '' payments'') (SendMany node transactions)) (\<lambda>transactionID.
            return_op (chain, transactionID)))))"

definition bitcoinTryManyPayments ::
    "(string list \<Rightarrow> string list) \<Rightarrow> Balance list \<Rightarrow> Config \<Rightarrow> (string \<times> Manager) list
      \<Rightarrow> ('z rpc_world_scheme, (string \<times> string) list) op" where
  "bitcoinTryManyPayments order balances config rpcManagers =
     bind_op (lift_op (fold_out (group_payment config) balances [])) (\<lambda>groups.
       map_op (send_group rpcManagers) (range_map order groups))"

definition due_balances :: "Config \<Rightarrow> string \<Rightarrow> ('z db_scheme, Balance list) op" where
  "due_balances config chain =
     (case map_of (cf_PayoutChains config) chain of
        None \<Rightarrow> fail_op (ErrText (''payouts.payoutBalances() - failed to find chain payout config: '' @ chain))
      | Some payoutConfig \<Rightarrow>
          GetPoolBalancesOverThreshold (cf_PoolName config) chain (cp_MinerMinimumPayment payoutConfig))"

text \<open>The loop over the paid balances: record the payment, then take the amount off the balance.\<close>

definition record_payment ::
    "Config \<Rightarrow> (string \<times> string) list \<Rightarrow> Balance \<Rightarrow> ('z db_scheme, unit) op" where
  "record_payment config confirmations balance d =
     (case map_of confirmations (bal_Chain balance) of
        None \<Rightarrow> fail_op (ErrText (bal_Address balance @ ''%!(EXTRA string='' @ bal_Chain balance @ '')'')) d
      | Some confirmation \<Rightarrow>
          bind_op (lift_op (findBalanceAddress balance config)) (\<lambda>address.
          bind_op (Payment_Insert \<lparr>pay_ID = 0, pay_PoolID = bal_PoolID balance, pay_Chain = bal_Chain balance,
                     pay_Address = address, pay_Amount = bal_Amount balance,
                     pay_TransactionConfirmationData = confirmation, pay_Created = db_now d\<rparr>) (\<lambda>_.
            AddAmount (cf_PoolName config) (bal_Chain balance) (bal_Address balance) ''Paid balance to miner''
              (bal_Amount balance * Fin (- 1)))) d)"

definition payoutBalances ::
    "(string list \<Rightarrow> string list) \<Rightarrow> Config \<Rightarrow> (string \<times> Manager) list \<Rightarrow> ('z rpc_world_scheme, unit) op" where
  "payoutBalances order config rpcManagers =
     bind_op (map_op (due_balances config) (cf_BlockChainOrder config)) (\<lambda>dues.
     let balances = concat dues in
     bind_op (bitcoinTryManyPayments order balances config rpcManagers) (\<lambda>transactionConfirmation.
       for_op (record_payment config transactionConfirmation) balances))"

section \<open>src/payouts/manager.go\<close>

text \<open>A call whose error is only logged.\<close>

definition logged :: "('w, 'a) op \<Rightarrow> ('w, unit) op" where
  "logged f = bind_op (try_op f) (\<lambda>_. return_op ())"

definition reward_block ::
    "map_orders \<Rightarrow> Config \<Rightarrow> (string \<times> Manager) list \<Rightarrow> Found \<Rightarrow> ('z db_scheme, unit) op" where
  "reward_block ord config rpcManagers confirmed =
     (case map_of rpcManagers (fd_Chain confirmed) of
        None \<Rightarrow> panic_op (PanicText (''payouts.Manager: Blockchain not found - '' @ fd_Chain confirmed))
      | Some rpcManager \<Rightarrow>
          bind_op (try_op (calculateBlockRewards ord confirmed config rpcManager)) (\<lambda>r.
          case r of
            Inl err \<Rightarrow> return_op ()
          | Inr cutoffTime \<Rightarrow> logged (DeleteSharesBefore (cf_PoolName config) cutoffTime)))"

definition manager_round ::
    "(bytes \<Rightarrow> bytes \<Rightarrow> bytes) \<Rightarrow> map_orders \<Rightarrow> Config \<Rightarrow> (string \<times> Manager) list \<Rightarrow> ('z rpc_world_scheme, unit) op" where
  "manager_round scryptKey ord config rpcManagers =
     bind_op (try_op (unlockBlocks scryptKey (cf_PoolName config) rpcManagers)) (\<lambda>r.
     case r of
       Inl err \<Rightarrow> return_op ()
     | Inr blocks \<Rightarrow>
         bind_op (for_op (reward_block ord config rpcManagers) (GetConfirmed blocks)) (\<lambda>_.
         bind_op (for_op (\<lambda>block. logged (Found_Update block)) blocks) (\<lambda>_.
           logged (payoutBalances (mo_chains ord) config rpcManagers))))"

end
