(* ===== verification/Failover.thy ===== *)
theory Failover
  imports Rpc Balances
begin

text \<open>
  The fail-over of \<open>src/rpc/manager.go\<close>: what one search for a healthy node does, and the
  manager as a transition system. \<open>CheckAndRecoverRPCs\<close> starts a goroutine that waits for the
  primary and nothing locks the manager, so the steps of the search and of the waiting
  goroutines interleave; the step relation has one step per access to the active index,
  and a call that nothing interrupts is a run of it (\<open>search_is_a_run\<close>).
\<close>

section \<open>Health checks\<close>

text \<open>What the script answers the next requests: the request of index \<open>k\<close> is answered with status 200.\<close>

fun answers_200 :: "http_reply \<Rightarrow> bool" where
  "answers_200 (HttpReply resp status) = (status = 200)"
| "answers_200 (TransportError e) = False"

definition node_up :: "http_reply list \<Rightarrow> nat \<Rightarrow> bool" where
  "node_up script k \<longleftrightarrow> k < length script \<and> answers_200 (script ! k)"

definition asked :: "'z rpc_world_scheme \<Rightarrow> RPCClient list \<Rightarrow> 'z rpc_world_scheme" where
  "asked w rs = w\<lparr>rw_replies := drop (length rs) (rw_replies w),
     rw_log := rw_log w @ map (\<lambda>r. (rpc_Name r, ''getblocktemplate'', [PRules])) rs\<rparr>"

lemma asked_Nil [simp]: "asked w [] = w"
  by (simp add: asked_def)

lemma asked_asked [simp]: "asked (asked w rs) ss = asked w (rs @ ss)"
  by (simp add: asked_def add.commute)

lemma node_up_asked [simp]: "node_up (rw_replies (asked w rs)) k = node_up (rw_replies w) (length rs + k)"
  by (auto simp: asked_def node_up_def)

lemma Check_asks: "Check r w = (asked w [r], Ok (node_up (rw_replies w) 0))"
  by (cases "rw_replies w" rule: list.exhaust; cases "hd (rw_replies w)")
    (auto simp: Check_def GetBlockTemplate_def request_200_def doRequest_def bind_op_def try_op_def asked_def
       node_up_def op_basic)

lemma checkActiveNodeHealth_asks:
  "mg_activeIndex m < length (mg_clients m)
   \<Longrightarrow> checkActiveNodeHealth m w = (asked w [mg_clients m ! mg_activeIndex m], Ok (node_up (rw_replies w) 0))"
  by (simp add: checkActiveNodeHealth_def bind_op_def lift_op_def GetActiveClient_def nth_out_def Check_asks)

lemma CheckPrimary_asks:
  "mg_clients m \<noteq> [] \<Longrightarrow> CheckPrimary m w = (asked w [mg_clients m ! 0], Ok (node_up (rw_replies w) 0))"
  by (cases "mg_clients m") (simp_all add: CheckPrimary_def bind_op_def lift_op_def nth_out_def Check_asks)

section \<open>The search\<close>

abbreviation node_after :: "Manager \<Rightarrow> nat \<Rightarrow> nat" where
  "node_after m k \<equiv> (mg_activeIndex m + k) mod length (mg_clients m)"

lemma nextNode_mod:
  assumes "mg_activeIndex m < length (mg_clients m)"
  shows "nextNode m = m\<lparr>mg_activeIndex := node_after m 1\<rparr>"
proof (cases "mg_activeIndex m + 1 < length (mg_clients m)")
  case True
  then show ?thesis by (auto simp: nextNode_def)
next
  case False
  then have "mg_activeIndex m + 1 = length (mg_clients m)" using assms by simp
  then show ?thesis by (auto simp: nextNode_def)
qed

lemma find_healthy_none:
  assumes "mg_activeIndex m < length (mg_clients m)" "\<forall>k < left. \<not> node_up (rw_replies w) k"
  shows "find_healthy left m w = (asked w (map (\<lambda>k. mg_clients m ! node_after m (Suc k)) [0..<left]),
    Ok (m\<lparr>mg_activeIndex := node_after m left\<rparr>, Some (ErrText (''no healthy '' @ mg_chainName m @ '' nodes!''))))"
  using assms
proof (induction left arbitrary: m w)
  case 0
  then show ?case by (simp add: return_op_def)
next
  case (Suc left)
  let ?n = "length (mg_clients m)"
  let ?m = "m\<lparr>mg_activeIndex := node_after m 1\<rparr>"
  have pos: "0 < ?n" using Suc.prems(1) by linarith
  have i: "mg_activeIndex ?m < length (mg_clients ?m)" using mod_less_divisor [OF pos] by simp
  have check: "checkActiveNodeHealth ?m w = (asked w [mg_clients m ! node_after m 1], Ok (node_up (rw_replies w) 0))"
    using checkActiveNodeHealth_asks [OF i, of w] by simp
  have after: "node_after ?m k = node_after m (Suc k)" for k by (simp add: mod_simps)
  let ?w = "asked w [mg_clients m ! node_after m 1]"
  have "\<forall>k < left. \<not> node_up (rw_replies ?w) k" using Suc.prems(2) by auto
  note IH = Suc.IH [OF i this]
  have "find_healthy (Suc left) m w = find_healthy left ?m ?w"
    unfolding find_healthy.simps Let_def nextNode_mod [OF Suc.prems(1)] bind_op_def check
    using Suc.prems(2) by simp
  also have "\<dots> = (asked w (mg_clients m ! node_after m 1 # map (\<lambda>k. mg_clients m ! node_after m (Suc (Suc k))) [0..<left]),
      Ok (m\<lparr>mg_activeIndex := node_after m (Suc left)\<rparr>, Some (ErrText (''no healthy '' @ mg_chainName m @ '' nodes!''))))"
    unfolding IH after by simp
  also have "mg_clients m ! node_after m 1 # map (\<lambda>k. mg_clients m ! node_after m (Suc (Suc k))) [0..<left]
      = map (\<lambda>k. mg_clients m ! node_after m (Suc k)) [0..<Suc left]"
    unfolding map_upt_Suc by simp
  finally show ?case .
qed

lemma find_healthy_some:
  assumes "mg_activeIndex m < length (mg_clients m)" "k < left"
    and "\<forall>j < k. \<not> node_up (rw_replies w) j" "node_up (rw_replies w) k"
  shows "find_healthy left m w = (asked w (map (\<lambda>j. mg_clients m ! node_after m (Suc j)) [0..<Suc k]),
    Ok (m\<lparr>mg_activeIndex := node_after m (Suc k)\<rparr>, None))"
  using assms
proof (induction left arbitrary: m w k)
  case (Suc left)
  let ?n = "length (mg_clients m)"
  let ?m = "m\<lparr>mg_activeIndex := node_after m 1\<rparr>"
  let ?w = "asked w [mg_clients m ! node_after m 1]"
  have pos: "0 < ?n" using Suc.prems(1) by linarith
  have i: "mg_activeIndex ?m < length (mg_clients ?m)" using mod_less_divisor [OF pos] by simp
  have check: "checkActiveNodeHealth ?m w = (asked w [mg_clients m ! node_after m 1], Ok (node_up (rw_replies w) 0))"
    using checkActiveNodeHealth_asks [OF i, of w] by simp
  have after: "node_after ?m k = node_after m (Suc k)" for k by (simp add: mod_simps)
  have step: "find_healthy (Suc left) m w =
     (if node_up (rw_replies w) 0 then (?w, Ok (?m, None)) else find_healthy left ?m ?w)"
    unfolding find_healthy.simps Let_def nextNode_mod [OF Suc.prems(1)] bind_op_def check
    by (simp add: return_op_def)
  show ?case
  proof (cases k)
    case 0
    then show ?thesis using step Suc.prems by simp
  next
    case k: (Suc k')
    have down: "\<not> node_up (rw_replies w) 0" using Suc.prems(3) k by blast
    have "\<forall>j < k'. \<not> node_up (rw_replies ?w) j" "node_up (rw_replies ?w) k'" "k' < left"
      using Suc.prems k by auto
    note IH = Suc.IH [OF i this(3,1,2)]
    have "find_healthy (Suc left) m w
       = (asked w (mg_clients m ! node_after m 1 # map (\<lambda>j. mg_clients m ! node_after m (Suc (Suc j))) [0..<Suc k']),
          Ok (m\<lparr>mg_activeIndex := node_after m (Suc k)\<rparr>, None))"
      using step down unfolding IH after k by simp
    also have "mg_clients m ! node_after m 1 # map (\<lambda>j. mg_clients m ! node_after m (Suc (Suc j))) [0..<Suc k']
        = map (\<lambda>j. mg_clients m ! node_after m (Suc j)) [0..<Suc k]"
      unfolding k map_upt_Suc [of _ "Suc k'"] by simp
    finally show ?thesis .
  qed
qed simp

section \<open>Interleaved steps\<close>

text \<open>Where the thread that calls \<open>CheckAndRecoverRPCs\<close> is: outside, or in the loop of
  \<open>FindHealthyNode\<close> with so many nodes checked, before \<open>nextNode\<close> or before the health check.
  The other threads are the goroutines that wait for the primary. The nodes' answers are
  not fixed: a step may go either way.\<close>

datatype phase = Idle | Advance nat | Probe nat

record manager_state =
  ms_manager :: Manager
  ms_phase :: phase
  ms_waiting :: nat

inductive manager_step :: "manager_state \<Rightarrow> manager_state \<Rightarrow> bool" where
  active_sick: "ms_phase s = Idle \<Longrightarrow> manager_step s (s\<lparr>ms_phase := Advance 0\<rparr>)"
| advance: "ms_phase s = Advance k \<Longrightarrow> k < length (mg_clients (ms_manager s)) \<Longrightarrow>
    manager_step s (s\<lparr>ms_manager := nextNode (ms_manager s), ms_phase := Probe (Suc k)\<rparr>)"
| exhausted: "ms_phase s = Advance k \<Longrightarrow> \<not> k < length (mg_clients (ms_manager s)) \<Longrightarrow>
    manager_step s (s\<lparr>ms_phase := Idle\<rparr>)"
| probe_sick: "ms_phase s = Probe k \<Longrightarrow> manager_step s (s\<lparr>ms_phase := Advance k\<rparr>)"
| probe_healthy: "ms_phase s = Probe k \<Longrightarrow>
    manager_step s (s\<lparr>ms_phase := Idle, ms_waiting := Suc (ms_waiting s)\<rparr>)"
| restore: "ms_waiting s = Suc w \<Longrightarrow>
    manager_step s (s\<lparr>ms_manager := RestorePrimary (ms_manager s), ms_waiting := w\<rparr>)"

inductive_cases manager_stepE: "manager_step s s'"

text \<open>
  The operations are runs of the step relation: a call of \<open>CheckAndRecoverRPCs\<close> that nothing
  interrupts, and a round of the waiting goroutine that finds the primary well.
\<close>

lemma find_healthy_run:
  assumes "find_healthy left m w = (w', Ok (m', err))" "k + left = length (mg_clients m)"
  shows "manager_step\<^sup>*\<^sup>* \<lparr>ms_manager = m, ms_phase = Advance k, ms_waiting = n\<rparr>
    \<lparr>ms_manager = m', ms_phase = Idle, ms_waiting = (if err = None then Suc n else n)\<rparr>"
  using assms
proof (induction left arbitrary: m w k)
  case 0
  let ?s = "\<lparr>ms_manager = m, ms_phase = Advance k, ms_waiting = n\<rparr>"
  have "manager_step ?s (?s\<lparr>ms_phase := Idle\<rparr>)" using 0(2) by (intro manager_step.exhausted [of _ k]) simp_all
  then show ?case using 0 by (auto simp: return_op_def)
next
  case (Suc left)
  let ?s = "\<lparr>ms_manager = m, ms_phase = Advance k, ms_waiting = n\<rparr>"
  let ?m = "nextNode m" and ?t = "\<lparr>ms_manager = nextNode m, ms_phase = Probe (Suc k), ms_waiting = n\<rparr>"
  have "manager_step ?s (?s\<lparr>ms_manager := nextNode (ms_manager ?s), ms_phase := Probe (Suc k)\<rparr>)"
    using Suc.prems(2) by (intro manager_step.advance [of _ k]) simp_all
  then have one: "manager_step ?s ?t" by simp
  obtain v h where check: "checkActiveNodeHealth ?m w = (v, Ok h)"
    "if h then m' = ?m \<and> err = None else find_healthy left ?m v = (w', Ok (m', err))"
    using Suc.prems(1) by (auto simp: bind_op_def Let_def return_op_def split: prod.splits outcome.splits if_splits)
  show ?case
  proof (cases h)
    case True
    have "manager_step ?t (?t\<lparr>ms_phase := Idle, ms_waiting := Suc (ms_waiting ?t)\<rparr>)"
      by (rule manager_step.probe_healthy [of _ "Suc k"]) simp
    then show ?thesis using one check(2) True by (auto intro: converse_rtranclp_into_rtranclp)
  next
    case False
    have "manager_step ?t (?t\<lparr>ms_phase := Advance (Suc k)\<rparr>)" by (rule manager_step.probe_sick) simp
    then have two: "manager_step ?t \<lparr>ms_manager = ?m, ms_phase = Advance (Suc k), ms_waiting = n\<rparr>" by simp
    have "mg_clients ?m = mg_clients m" by (simp add: nextNode_def)
    then have "manager_step\<^sup>*\<^sup>* \<lparr>ms_manager = ?m, ms_phase = Advance (Suc k), ms_waiting = n\<rparr>
        \<lparr>ms_manager = m', ms_phase = Idle, ms_waiting = (if err = None then Suc n else n)\<rparr>"
      using Suc.IH [of ?m v "Suc k"] check(2) False Suc.prems(2) by simp
    with two have "manager_step\<^sup>*\<^sup>* ?t \<lparr>ms_manager = m', ms_phase = Idle, ms_waiting = (if err = None then Suc n else n)\<rparr>"
      by (rule converse_rtranclp_into_rtranclp [of manager_step])
    with one show ?thesis by (rule converse_rtranclp_into_rtranclp [of manager_step])
  qed
qed

lemma search_is_a_run:
  assumes "CheckAndRecoverRPCs m w = (w', Ok (m', launched, err))"
  shows "manager_step\<^sup>*\<^sup>* \<lparr>ms_manager = m, ms_phase = Idle, ms_waiting = n\<rparr>
    \<lparr>ms_manager = m', ms_phase = Idle, ms_waiting = (if launched then Suc n else n)\<rparr>"
proof -
  let ?s = "\<lparr>ms_manager = m, ms_phase = Idle, ms_waiting = n\<rparr>"
  have "manager_step ?s (?s\<lparr>ms_phase := Advance 0\<rparr>)" by (rule manager_step.active_sick) simp
  then have sick: "manager_step ?s \<lparr>ms_manager = m, ms_phase = Advance 0, ms_waiting = n\<rparr>" by simp
  consider "m' = m" "\<not> launched" | v where "find_healthy (length (mg_clients m)) m v = (w', Ok (m', err))" "launched \<longleftrightarrow> err = None"
    using assms
    by (auto simp: CheckAndRecoverRPCs_def FindHealthyNode_def bind_op_def lift_op_def return_op_def
        split: prod.splits outcome.splits if_splits)
  then show ?thesis
  proof cases
    case 2
    have "manager_step\<^sup>*\<^sup>* \<lparr>ms_manager = m, ms_phase = Advance 0, ms_waiting = n\<rparr>
        \<lparr>ms_manager = m', ms_phase = Idle, ms_waiting = (if launched then Suc n else n)\<rparr>"
      using find_healthy_run [OF 2(1), of 0 n] 2(2) by simp
    with sick show ?thesis by (rule converse_rtranclp_into_rtranclp [of manager_step])
  qed simp
qed

lemma return_is_a_step:
  assumes "return_to_primary m w = (w', Ok (m', True))"
  shows "manager_step \<lparr>ms_manager = m, ms_phase = p, ms_waiting = Suc n\<rparr> \<lparr>ms_manager = m', ms_phase = p, ms_waiting = n\<rparr>"
proof -
  let ?s = "\<lparr>ms_manager = m, ms_phase = p, ms_waiting = Suc n\<rparr>"
  have "m' = RestorePrimary m"
    using assms by (auto simp: return_to_primary_def bind_op_def return_op_def split: prod.splits outcome.splits if_splits)
  then show ?thesis using manager_step.restore [of ?s n] by simp
qed

definition initial_state :: "Manager \<Rightarrow> manager_state" where
  "initial_state m = \<lparr>ms_manager = m, ms_phase = Idle, ms_waiting = 0\<rparr>"

definition reachable :: "Manager \<Rightarrow> manager_state \<Rightarrow> bool" where
  "reachable m s \<longleftrightarrow> manager_step\<^sup>*\<^sup>* (initial_state m) s"

definition index_valid :: "Manager \<Rightarrow> manager_state \<Rightarrow> bool" where
  "index_valid m s \<longleftrightarrow> mg_clients (ms_manager s) = mg_clients m
     \<and> mg_activeIndex (ms_manager s) < length (mg_clients m)"

lemma index_valid_step:
  assumes "manager_step s s'" "index_valid m s"
  shows "index_valid m s'"
proof -
  have "0 < length (mg_clients m)" using assms(2) by (auto simp: index_valid_def simp del: length_greater_0_conv)
  then show ?thesis
    using assms by (elim manager_stepE) (auto simp: index_valid_def nextNode_def RestorePrimary_def)
qed

lemma index_valid_reachable:
  assumes "reachable m s" "mg_activeIndex m < length (mg_clients m)"
  shows "index_valid m s"
  using assms(1) unfolding reachable_def
proof (induction rule: rtranclp_induct)
  case base
  then show ?case using assms(2) by (simp add: index_valid_def initial_state_def)
next
  case (step s s')
  then show ?case using index_valid_step by blast
qed

section \<open>Steps that do not overlap\<close>

text \<open>The same manager when every call runs to its end before the next step: the state is the
  nodes' script, the manager and the number of waiting goroutines.\<close>

inductive turn :: "'z rpc_world_scheme \<times> Manager \<times> nat \<Rightarrow> 'z rpc_world_scheme \<times> Manager \<times> nat \<Rightarrow> bool" where
  recover: "CheckAndRecoverRPCs m w = (w', Ok (m', launched, err)) \<Longrightarrow>
    turn (w, m, k) (w', m', if launched then Suc k else k)"
| wait: "return_to_primary m w = (w', Ok (m', returned)) \<Longrightarrow>
    turn (w, m, Suc k) (w', m', if returned then k else Suc k)"

inductive_cases turnE: "turn (w, m, k) x"

definition watched :: "RPCClient list \<Rightarrow> Manager \<Rightarrow> nat \<Rightarrow> bool" where
  "watched cs m k \<longleftrightarrow> mg_clients m = cs \<and> mg_activeIndex m < length cs \<and> (mg_activeIndex m \<noteq> 0 \<longrightarrow> 0 < k)"

lemma find_healthy_cases:
  assumes "mg_activeIndex m < length (mg_clients m)"
  obtains (found) k where "k < length (mg_clients m)"
    "\<forall>j < k. \<not> node_up (rw_replies w) j" "node_up (rw_replies w) k"
    "FindHealthyNode m w = (asked w (map (\<lambda>j. mg_clients m ! node_after m (Suc j)) [0..<Suc k]),
      Ok (m\<lparr>mg_activeIndex := node_after m (Suc k)\<rparr>, None))"
  | (none) "\<forall>j < length (mg_clients m). \<not> node_up (rw_replies w) j"
    "FindHealthyNode m w = (asked w (map (\<lambda>j. mg_clients m ! node_after m (Suc j)) [0..<length (mg_clients m)]),
      Ok (m, Some (ErrText (''no healthy '' @ mg_chainName m @ '' nodes!''))))"
proof (cases "\<exists>k < length (mg_clients m). node_up (rw_replies w) k")
  case True
  define k where "k = (LEAST k. node_up (rw_replies w) k)"
  have k: "node_up (rw_replies w) k" "\<forall>j < k. \<not> node_up (rw_replies w) j"
    using True not_less_Least LeastI unfolding k_def by metis+
  have kl: "k < length (mg_clients m)" using True Least_le le_less_trans unfolding k_def by metis
  from found [OF kl k(2,1)] show ?thesis using find_healthy_some [OF assms kl k(2,1)] by (simp add: FindHealthyNode_def)
next
  case False
  have "m\<lparr>mg_activeIndex := node_after m (length (mg_clients m))\<rparr> = m" using assms by simp
  then have "FindHealthyNode m w = (asked w (map (\<lambda>j. mg_clients m ! node_after m (Suc j)) [0..<length (mg_clients m)]),
      Ok (m, Some (ErrText (''no healthy '' @ mg_chainName m @ '' nodes!''))))"
    using find_healthy_none [OF assms, of "length (mg_clients m)" w] False unfolding FindHealthyNode_def by metis
  then show ?thesis using none False by blast
qed

lemma CheckAndRecoverRPCs_cases:
  assumes "mg_activeIndex m < length (mg_clients m)" "CheckAndRecoverRPCs m w = (w', Ok (m', launched, err))"
  shows "(m' = m \<and> \<not> launched) \<or> (\<exists>i < length (mg_clients m). m' = m\<lparr>mg_activeIndex := i\<rparr> \<and> launched)"
proof -
  have pos: "0 < length (mg_clients m)" using assms(1) by linarith
  let ?w = "asked w [mg_clients m ! mg_activeIndex m]"
  have eq: "CheckAndRecoverRPCs m w = (if node_up (rw_replies w) 0 then (?w, Ok (m, False, None))
     else bind_op (FindHealthyNode m) (\<lambda>(m, err). return_op (m, err = None, err)) ?w)"
    using assms(1) by (simp add: CheckAndRecoverRPCs_def bind_op_def lift_op_def GetActiveClient_def nth_out_def
        Check_asks return_op_def)
  show ?thesis
  proof (cases "node_up (rw_replies w) 0")
    case True
    then show ?thesis using assms(2) eq by simp
  next
    case False
    from assms(1) show ?thesis
    proof (cases rule: find_healthy_cases [of m ?w])
      case (found k)
      have "node_after m (Suc k) < length (mg_clients m)" using pos by (rule mod_less_divisor)
      then show ?thesis using assms(2) False unfolding eq by (auto simp: bind_op_def found return_op_def)
    next
      case none
      then show ?thesis using assms(2) False unfolding eq by (auto simp: bind_op_def return_op_def)
    qed
  qed
qed

lemma watched_turn:
  assumes "turn x x'" "watched cs (fst (snd x)) (snd (snd x))"
  shows "watched cs (fst (snd x')) (snd (snd x'))"
  using assms
proof (cases rule: turn.cases)
  case (recover m w w' m' launched err k)
  then show ?thesis using assms(2) CheckAndRecoverRPCs_cases [of m w w' m' launched err]
    by (auto simp: watched_def)
next
  case (wait m w w' m' returned k)
  then have "mg_clients m \<noteq> []" using assms(2) by (auto simp: watched_def)
  then show ?thesis using wait assms(2)
    by (auto simp: watched_def return_to_primary_def bind_op_def CheckPrimary_asks return_op_def RestorePrimary_def
        split: if_splits)
qed

lemma watched_turns:
  "turn\<^sup>*\<^sup>* x x' \<Longrightarrow> watched cs (fst (snd x)) (snd (snd x)) \<Longrightarrow> watched cs (fst (snd x')) (snd (snd x'))"
  by (induction rule: rtranclp_induct) (auto intro: watched_turn)

section \<open>Properties\<close>

lemma MakeRPCManager_starts:
  assumes "MakeRPCManager ParseDuration name nodes interval = Ok m"
  shows "mg_activeIndex m = 0" "length (mg_clients m) = length nodes"
proof -
  have len: "length ys = length xs" if "traverse f xs = Ok ys" for f xs and ys :: "RPCClient list"
    using that by (induction xs arbitrary: ys) (auto simp: bind_out_eq_Ok split: outcome.splits)
  show "mg_activeIndex m = 0" "length (mg_clients m) = length nodes"
    using assms len by (cases "ParseDuration interval"; auto simp: MakeRPCManager_def bind_out_eq_Ok)+
qed

lemma search_steps:
  assumes "ms_phase s = Probe (Suc 0)" "mg_activeIndex (ms_manager s) = 0" "k < length (mg_clients (ms_manager s))"
  shows "manager_step\<^sup>*\<^sup>* s (s\<lparr>ms_manager := (ms_manager s)\<lparr>mg_activeIndex := k\<rparr>, ms_phase := Advance (Suc k)\<rparr>)"
  using assms(3)
proof (induction k)
  case 0
  have "(ms_manager s)\<lparr>mg_activeIndex := 0\<rparr> = ms_manager s" using assms(2) by simp
  then show ?case using manager_step.probe_sick [OF assms(1)] by simp
next
  case (Suc k)
  let ?t = "s\<lparr>ms_manager := (ms_manager s)\<lparr>mg_activeIndex := k\<rparr>, ms_phase := Advance (Suc k)\<rparr>"
  let ?u = "?t\<lparr>ms_manager := nextNode (ms_manager ?t), ms_phase := Probe (Suc (Suc k))\<rparr>"
  have "manager_step\<^sup>*\<^sup>* s ?t" using Suc by simp
  moreover have "manager_step ?t ?u" using Suc.prems by (intro manager_step.advance) simp_all
  moreover have "manager_step ?u (?u\<lparr>ms_phase := Advance (Suc (Suc k))\<rparr>)"
    by (intro manager_step.probe_sick) simp
  moreover have "nextNode (ms_manager ?t) = (ms_manager s)\<lparr>mg_activeIndex := Suc k\<rparr>"
    using Suc.prems by (simp add: nextNode_def)
  ultimately show ?case by (auto intro: rtranclp.rtrancl_into_rtrancl)
qed

lemma stranded_reachable:
  assumes "mg_activeIndex m = 0" "2 \<le> length (mg_clients m)"
  shows "reachable m \<lparr>ms_manager = m\<lparr>mg_activeIndex := length (mg_clients m) - 1\<rparr>, ms_phase = Idle, ms_waiting = 0\<rparr>"
proof -
  let ?n = "length (mg_clients m)" and ?m1 = "m\<lparr>mg_activeIndex := 1\<rparr>"
  let ?st = "\<lambda>m p w. \<lparr>ms_manager = m, ms_phase = p, ms_waiting = w\<rparr>"
  have m1: "nextNode m = ?m1" using assms by (simp add: nextNode_def)
  have m2: "RestorePrimary (nextNode ?m1) = m" using assms(1) by (simp add: nextNode_def RestorePrimary_def)
  have "manager_step\<^sup>*\<^sup>* (?st m Idle 0) (?st m (Advance 0) 0)"
    using manager_step.active_sick [of "?st m Idle 0"] by simp
  also have "manager_step\<^sup>*\<^sup>* \<dots> (?st ?m1 (Probe 1) 0)"
    using manager_step.advance [of "?st m (Advance 0) 0" 0] assms m1 by fastforce
  also have "manager_step\<^sup>*\<^sup>* \<dots> (?st ?m1 Idle 1)"
    using manager_step.probe_healthy [of "?st ?m1 (Probe 1) 0" 1] by simp
  also have "manager_step\<^sup>*\<^sup>* \<dots> (?st ?m1 (Advance 0) 1)"
    using manager_step.active_sick [of "?st ?m1 Idle 1"] by simp
  also have "manager_step\<^sup>*\<^sup>* \<dots> (?st (nextNode ?m1) (Probe 1) 1)"
    using manager_step.advance [of "?st ?m1 (Advance 0) 1" 0] assms by fastforce
  also have "manager_step\<^sup>*\<^sup>* \<dots> (?st m (Probe 1) 0)"
    using manager_step.restore [of "?st (nextNode ?m1) (Probe 1) 1" 0] m2 by fastforce
  finally have "manager_step\<^sup>*\<^sup>* (initial_state m) (?st m (Probe 1) 0)"
    by (simp add: initial_state_def)
  also have "manager_step\<^sup>*\<^sup>* (?st m (Probe 1) 0) (?st (m\<lparr>mg_activeIndex := ?n - 1\<rparr>) (Advance ?n) 0)"
    using search_steps [of "?st m (Probe 1) 0" "?n - 1"] assms by (cases ?n) simp_all
  also have "manager_step\<^sup>*\<^sup>* \<dots> (?st (m\<lparr>mg_activeIndex := ?n - 1\<rparr>) Idle 0)"
    using manager_step.exhausted [of "?st (m\<lparr>mg_activeIndex := ?n - 1\<rparr>) (Advance ?n) 0" ?n] by simp
  finally show ?thesis unfolding reachable_def .
qed

text \<open>
  C34. The search for a healthy node is a round robin from the active one: it stops at the first
  node, in that order, whose template request is answered with status 200, having asked
  exactly the nodes before it; when there is none it asks every node once, reports the
  error and leaves the manager as it was.
\<close>

theorem FindHealthyNode_round_robin:
  assumes "mg_activeIndex m < length (mg_clients m)"
  shows "FindHealthyNode m w =
    (case List.find (node_up (rw_replies w)) [0..<length (mg_clients m)] of
       Some k \<Rightarrow> (asked w (map (\<lambda>j. mg_clients m ! node_after m (Suc j)) [0..<Suc k]),
                  Ok (m\<lparr>mg_activeIndex := node_after m (Suc k)\<rparr>, None))
     | None \<Rightarrow> (asked w (map (\<lambda>j. mg_clients m ! node_after m (Suc j)) [0..<length (mg_clients m)]),
                Ok (m, Some (ErrText (''no healthy '' @ mg_chainName m @ '' nodes!'')))))"
  using assms
proof (cases rule: find_healthy_cases [of m w])
  case (found k)
  then have "List.find (node_up (rw_replies w)) [0..<length (mg_clients m)] = Some k"
    unfolding find_Some_iff by (intro exI [of _ k]) simp
  then show ?thesis using found by simp
next
  case none
  then have "List.find (node_up (rw_replies w)) [0..<length (mg_clients m)] = None"
    unfolding find_None_iff by auto
  then show ?thesis using none by simp
qed

definition example_client :: "string \<Rightarrow> RPCClient" where
  "example_client n = \<lparr>rpc_NodeUrl = ''http://'' @ n, rpc_Name = n, rpc_Timeout = 1\<rparr>"

definition example_manager :: Manager where
  "example_manager = \<lparr>mg_chainName = ''dogecoin'', mg_activeIndex = 1,
     mg_clients = [example_client ''a'', example_client ''b'', example_client ''c''], mg_primaryCheckInterval = 1\<rparr>"

definition ok_reply :: "raw \<Rightarrow> http_reply" where
  "ok_reply r = HttpReply \<lparr>rs_Result = r, rs_ErrorCode = 0, rs_ErrorMessage = ''''\<rparr> 200"

definition example_world :: "http_reply list \<Rightarrow> rpc_world" where
  "example_world rs = db.extend example_db (rpc_world.fields rs [])"

lemma example_world_simps [simp]:
  "rw_replies (example_world rs) = rs" "rw_log (example_world rs) = []" "db.truncate (example_world rs) = example_db"
  "no_faults (example_world rs) = no_faults example_db"
  by (simp_all add: example_world_def rpc_world.defs db.defs example_db_def no_faults_def)

text \<open>The active node is the second of three, the third does not answer, the first does.\<close>

theorem FindHealthyNode_round_robin_witness:
  "snd (FindHealthyNode example_manager (example_world [TransportError (ErrText ''down''), ok_reply RawNull]))
     = Ok (example_manager\<lparr>mg_activeIndex := 0\<rparr>, None)"
proof -
  have i: "mg_activeIndex example_manager < length (mg_clients example_manager)" by (simp add: example_manager_def)
  have l: "length (mg_clients example_manager) = 3" by (simp add: example_manager_def)
  have f: "List.find (node_up [TransportError (ErrText ''down''), ok_reply RawNull]) [0..<3] = Some 1" 
    unfolding find_Some_iff by (intro exI [of _ 1]) (simp add: node_up_def ok_reply_def)
  then show ?thesis
    unfolding FindHealthyNode_round_robin [OF i] l example_world_simps f by (simp add: example_manager_def)
qed

text \<open>
  C14. While the calls do not overlap, a chain is off its primary node only as long as a goroutine
  is waiting to bring it back, and the active index is always one of the nodes.
\<close>

theorem failover_is_watched:
  assumes "MakeRPCManager ParseDuration name nodes interval = Ok m" "nodes \<noteq> []"
    and "turn\<^sup>*\<^sup>* (w, m, 0) (w', m', k)"
  shows "mg_clients m' = mg_clients m \<and> (\<exists>client. GetActiveClient m' = Ok client)
    \<and> (mg_activeIndex m' \<noteq> 0 \<longrightarrow> 0 < k)"
proof -
  have "watched (mg_clients m) m 0"
    using MakeRPCManager_starts [OF assms(1)] assms(2) by (simp add: watched_def)
  then have "watched (mg_clients m) m' k" using watched_turns [OF assms(3), of "mg_clients m"] by simp
  then show ?thesis by (auto simp: watched_def GetActiveClient_def nth_out_def)
qed

definition example_nodes :: "NodeConfig list" where
  "example_nodes = map (\<lambda>n. \<lparr>nc_Name = n, nc_URL = ''http://'' @ n, nc_Username = ''u'', nc_Password = ''p'',
     nc_Timeout = ''5s''\<rparr>) [''a'', ''b'']"

lemma example_nodes_start: "\<exists>m. MakeRPCManager (\<lambda>_. Ok 5) ''dogecoin'' example_nodes ''1m'' = Ok m"
proof -
  have "is_ok (MakeRPCManager (\<lambda>_. Ok 5) ''dogecoin'' example_nodes ''1m'')" by code_simp
  then show ?thesis by (cases "MakeRPCManager (\<lambda>_. Ok 5) ''dogecoin'' example_nodes ''1m''") simp_all
qed

theorem failover_is_watched_witness:
  "\<exists>m m' w'. MakeRPCManager (\<lambda>_. Ok 5) ''dogecoin'' example_nodes ''1m'' = Ok m
     \<and> turn\<^sup>*\<^sup>* (example_world [TransportError (ErrText ''down''), ok_reply RawNull], m, 0) (w', m', 1)
     \<and> mg_activeIndex m' = 1 \<and> (\<exists>client. GetActiveClient m' = Ok client)"
proof -
  obtain m where m: "MakeRPCManager (\<lambda>_. Ok 5) ''dogecoin'' example_nodes ''1m'' = Ok m"
    using example_nodes_start by blast
  have i: "mg_activeIndex m = 0" "length (mg_clients m) = 2"
    using MakeRPCManager_starts [OF m] by (simp_all add: example_nodes_def)
  let ?w = "example_world [TransportError (ErrText ''down''), ok_reply RawNull]"
  let ?m = "m\<lparr>mg_activeIndex := 1\<rparr>"
  let ?v = "asked ?w [mg_clients m ! 0]"
  have "find_healthy 2 m ?v = (asked ?v (map (\<lambda>j. mg_clients m ! node_after m (Suc j)) [0..<Suc 0]),
      Ok (m\<lparr>mg_activeIndex := node_after m (Suc 0)\<rparr>, None))"
    using i by (intro find_healthy_some) (simp_all add: node_up_def ok_reply_def asked_def)
  then have f: "FindHealthyNode m ?v = (asked ?v [mg_clients m ! 1], Ok (?m, None))"
    using i by (simp add: FindHealthyNode_def)
  have "CheckAndRecoverRPCs m ?w = (asked ?v [mg_clients m ! 1], Ok (?m, True, None))"
    using i f by (simp add: CheckAndRecoverRPCs_def bind_op_def lift_op_def GetActiveClient_def nth_out_def
        Check_asks node_up_def return_op_def)
  from turn.recover [OF this, of 0]
  have t: "turn\<^sup>*\<^sup>* (?w, m, 0) (asked ?v [mg_clients m ! 1], ?m, 1)" by simp
  then have "\<exists>client. GetActiveClient ?m = Ok client"
    using failover_is_watched [OF m _ t] by (simp add: example_nodes_def)
  note c = this
  show ?thesis
    by (rule exI [of _ m], rule exI [of _ ?m], rule exI [of _ "asked ?v [mg_clients m ! 1]"]) (use m t c in simp)
qed

text \<open>
  C35. The same does not hold for calls that overlap. With two or more nodes there is a run after
  which no search is going on, no goroutine is waiting, and yet the manager is not on its
  primary: a goroutine restores the primary while a search for another node is on its round,
  and the search then gives up one node short of where it started. Nothing brings the
  manager back until its next failure. The active index is a node's in every state.
\<close>

theorem overlapping_failover_strands:
  assumes "MakeRPCManager ParseDuration name nodes interval = Ok m" "2 \<le> length nodes"
  shows "(\<exists>s. reachable m s \<and> ms_phase s = Idle \<and> ms_waiting s = 0 \<and> mg_activeIndex (ms_manager s) \<noteq> 0)
    \<and> (\<forall>s. reachable m s \<longrightarrow> (\<exists>client. GetActiveClient (ms_manager s) = Ok client))"
proof (intro conjI allI impI)
  have m: "mg_activeIndex m = 0" "2 \<le> length (mg_clients m)"
    using MakeRPCManager_starts [OF assms(1)] assms(2) by simp_all
  show "\<exists>s. reachable m s \<and> ms_phase s = Idle \<and> ms_waiting s = 0 \<and> mg_activeIndex (ms_manager s) \<noteq> 0"
    using stranded_reachable [OF m] m(2) by (intro exI conjI) (assumption, simp_all)
  fix s assume "reachable m s"
  moreover have "mg_activeIndex m < length (mg_clients m)" using m by linarith
  ultimately have "index_valid m s" by (rule index_valid_reachable)
  then show "\<exists>client. GetActiveClient (ms_manager s) = Ok client"
    by (auto simp: index_valid_def GetActiveClient_def nth_out_def)
qed

theorem overlapping_failover_strands_witness:
  "\<exists>m s. MakeRPCManager (\<lambda>_. Ok 5) ''dogecoin'' example_nodes ''1m'' = Ok m
     \<and> reachable m s \<and> ms_phase s = Idle \<and> ms_waiting s = 0 \<and> mg_activeIndex (ms_manager s) \<noteq> 0"
proof -
  obtain m where "MakeRPCManager (\<lambda>_. Ok 5) ''dogecoin'' example_nodes ''1m'' = Ok m"
    using example_nodes_start by blast
  then show ?thesis
    using overlapping_failover_strands [of "\<lambda>_. Ok 5" "''dogecoin''" example_nodes "''1m''" m]
    by (auto simp: example_nodes_def)
qed

end
