(* ===== verification/Payments.thy ===== *)
theory Payments
  imports Payer Failover
begin

text \<open>
  What a payout does: which balances are due, that a round of payouts that meets no failure
  empties exactly those, and that a failure after the coins were sent makes the
  next round send them again. Recording a payment and debiting its balance is a second
  instance of the locale \<open>ledger\<close>.
\<close>

section \<open>Recording payments\<close>

definition same_but_payouts :: "'z db_scheme \<Rightarrow> 'z db_scheme \<Rightarrow> bool" where
  "same_but_payouts d d' \<longleftrightarrow>
     d' = d\<lparr>db_balances := db_balances d', db_changes := db_changes d', db_payments := db_payments d',
            db_serial := db_serial d', db_faults := db_faults d'\<rparr>"

lemma same_but_payouts_refl: "same_but_payouts d d"
  by (simp add: same_but_payouts_def)

lemma same_but_payouts_trans: "same_but_payouts d e \<Longrightarrow> same_but_payouts e f \<Longrightarrow> same_but_payouts d f"
  unfolding same_but_payouts_def by (cases d; cases e; cases f) simp

lemma same_but_payouts_dec: "same_but_payouts d e \<Longrightarrow> db_dec e = db_dec d"
  unfolding same_but_payouts_def by (cases d; cases e) simp

lemma ledger_same_payouts: "same_but_ledger d e \<Longrightarrow> same_but_payouts d e \<and> db_payments e = db_payments d"
  unfolding same_but_payouts_def same_but_ledger_def by (cases d; cases e) simp

definition debit_key :: "Config \<Rightarrow> Balance \<Rightarrow> ledger_key" where
  "debit_key config b = (cf_PoolName config, bal_Chain b, bal_Address b)"

text \<open>What recording needs: a confirmation, an address, and an amount the columns hold exactly.\<close>

definition recordable :: "Config \<Rightarrow> (string \<times> string) list \<Rightarrow> 'z db_scheme \<Rightarrow> ledger_key \<Rightarrow> Balance \<Rightarrow> bool" where
  "recordable config confirmations d k b \<longleftrightarrow>
     k = debit_key config b \<and> (\<exists>c. map_of confirmations (bal_Chain b) = Some c)
     \<and> is_ok (findBalanceAddress b config)
     \<and> (\<exists>x. store_numeric (numeric_of (db_dec d) (bal_Amount b)) = Ok x)
     \<and> creditable d k (bal_Amount b * Fin (- 1))"

definition payment_of :: "Config \<Rightarrow> Balance \<Rightarrow> numeric \<Rightarrow> payment_row \<Rightarrow> bool" where
  "payment_of config b amount r \<longleftrightarrow> pr_poolid r = bal_PoolID b \<and> pr_chain r = bal_Chain b
     \<and> findBalanceAddress b config = Ok (pr_address r) \<and> pr_amount r = amount"

lemma Payment_Insert_value:
  assumes "usable_books d" "store_numeric (numeric_of (db_dec d) (pay_Amount p)) = Ok x"
  shows "\<exists>d' r. Payment_Insert p d = (d', Ok ()) \<and> usable_books d' \<and> same_but_payouts d d'
    \<and> rat_balance d' = rat_balance d \<and> db_payments d' = db_payments d @ [r] \<and> db_changes d' = db_changes d
    \<and> pr_poolid r = pay_PoolID p \<and> pr_chain r = pay_Chain p \<and> pr_address r = pay_Address p \<and> pr_amount r = x
    \<and> creditable d' = creditable d"
proof -
  have nf: "no_faults d" "no_faults (d\<lparr>db_faults := tl (db_faults d)\<rparr>)"
    using assms(1) by (simp_all add: usable_books_def)
  let ?r = "\<lparr>pr_id = db_serial d, pr_poolid = pay_PoolID p, pr_chain = pay_Chain p, pr_address = pay_Address p,
      pr_amount = x, pr_transactionconfirmationdata = pay_TransactionConfirmationData p,
      pr_created = pg_time (pay_Created p)\<rparr>"
  let ?d = "d\<lparr>db_faults := tl (tl (db_faults d)), db_payments := db_payments d @ [?r], db_serial := Suc (db_serial d)\<rparr>"
  have run: "Payment_Insert p d = (?d, Ok ())"
    using nf assms(2) by (simp add: Payment_Insert_def bind_op_def sql_call_ok sql_exec_ok Let_def)
  have bal: "balance_of ?d = balance_of d" by (simp add: balance_of_def fun_eq_iff)
  moreover have "no_faults ?d" using nf(1) by (auto simp: no_faults_def dest: in_set_tlD)
  ultimately have "usable_books ?d"
    using assms(1) by (simp add: usable_books_def ledger_consistent_def unique_balances_def)
  then show ?thesis
    using run bal by (intro exI [of _ ?d] exI [of _ ?r])
      (simp add: same_but_payouts_def rat_balance_def fun_eq_iff creditable_def)
qed

lemma record_payment_value:
  assumes "usable_books d" "recordable config confirmations d k b"
  shows "\<exists>d' r x. record_payment config confirmations b d = (d', Ok ()) \<and> usable_books d' \<and> same_but_payouts d d'
    \<and> rat_balance d' = (rat_balance d)(k := rat_balance d k + decimal_worth d (bal_Amount b * Fin (- 1)))
    \<and> store_numeric (numeric_of (db_dec d) (bal_Amount b)) = Ok x
    \<and> db_payments d' = db_payments d @ [r] \<and> payment_of config b x r"
proof -
  obtain c address x where c: "map_of confirmations (bal_Chain b) = Some c"
    and address: "findBalanceAddress b config = Ok address"
    and x: "store_numeric (numeric_of (db_dec d) (bal_Amount b)) = Ok x"
    and k: "k = (cf_PoolName config, bal_Chain b, bal_Address b)"
    and cr: "creditable d k (bal_Amount b * Fin (- 1))"
    using assms(2) by (auto simp: recordable_def debit_key_def is_ok_iff)
  let ?p = "\<lparr>pay_ID = 0, pay_PoolID = bal_PoolID b, pay_Chain = bal_Chain b, pay_Address = address,
      pay_Amount = bal_Amount b, pay_TransactionConfirmationData = c, pay_Created = db_now d\<rparr>"
  obtain e r where e: "Payment_Insert ?p d = (e, Ok ())" "usable_books e" "same_but_payouts d e"
    "rat_balance e = rat_balance d" "db_payments e = db_payments d @ [r]" "creditable e = creditable d"
    "pr_poolid r = bal_PoolID b" "pr_chain r = bal_Chain b" "pr_address r = address" "pr_amount r = x"
    using Payment_Insert_value [OF assms(1), of ?p x] x by auto
  have "creditable e k (bal_Amount b * Fin (- 1))" using cr e(6) by simp
  then obtain d' where d': "AddAmount (cf_PoolName config) (bal_Chain b) (bal_Address b) ''Paid balance to miner''
      (bal_Amount b * Fin (- 1)) e = (d', Ok ())" "usable_books d'" "same_but_ledger e d'"
    "rat_balance d' = (rat_balance e)(k := rat_balance e k + decimal_worth e (bal_Amount b * Fin (- 1)))"
    using AddAmount_rounds [OF e(2)] unfolding k by blast
  have "record_payment config confirmations b d = (d', Ok ())"
    using c address e(1) d'(1) by (simp add: record_payment_def bind_op_def lift_op_def)
  moreover have "decimal_worth e = decimal_worth d"
    using same_but_payouts_dec [OF e(3)] by (simp add: decimal_worth_def fun_eq_iff)
  moreover have "same_but_payouts e d'" "db_payments d' = db_payments e"
    using ledger_same_payouts [OF d'(3)] by simp_all
  ultimately show ?thesis
    using d'(2,4) e same_but_payouts_trans x address by (auto simp: payment_of_def)
qed

interpretation payments: ledger "\<lambda>k. record_payment config confirmations" usable_books rat_balance
  "recordable config confirmations" "\<lambda>d b. decimal_worth d (bal_Amount b * Fin (- 1))" same_but_payouts
  for config confirmations
proof unfold_locales
  fix d :: "'a db_scheme" and k b
  assume "usable_books d" "recordable config confirmations d k b"
  then show "\<exists>d'. record_payment config confirmations b d = (d', Ok ()) \<and> usable_books d' \<and> same_but_payouts d d'
      \<and> rat_balance d' = (rat_balance d)(k := rat_balance d k + decimal_worth d (bal_Amount b * Fin (- 1)))"
    using record_payment_value by blast
qed (auto simp: same_but_payouts_refl same_but_payouts_dec decimal_worth_def recordable_def creditable_def rat_balance_def
       intro: same_but_payouts_trans)

text \<open>All due balances are recorded: the ledger's law for the money, and one payment for each.\<close>

lemma record_payments:
  assumes "usable_books d" "distinct (map (debit_key config) bs)"
    and "\<forall>b \<in> set bs. recordable config confirmations d (debit_key config b) b"
  shows "\<exists>d' rows. for_op (record_payment config confirmations) bs d = (d', Ok ()) \<and> usable_books d'
    \<and> same_but_payouts d d'
    \<and> rat_balance d' = (\<lambda>k. rat_balance d k + (case map_of (map (\<lambda>b. (debit_key config b, b)) bs) k of
         None \<Rightarrow> 0 | Some b \<Rightarrow> decimal_worth d (bal_Amount b * Fin (- 1))))
    \<and> db_payments d' = db_payments d @ rows
    \<and> list_all2 (\<lambda>b r. \<exists>x. store_numeric (numeric_of (db_dec d) (bal_Amount b)) = Ok x \<and> payment_of config b x r) bs rows"
proof -
  let ?ps = "map (\<lambda>b. (debit_key config b, b)) bs"
  have keys: "distinct (map fst ?ps)" using assms(2) by (simp add: comp_def)
  have ok: "\<forall>(k, b) \<in> set ?ps. recordable config confirmations d k b" using assms(3) by auto
  have eq: "for_op (\<lambda>(k, b). record_payment config confirmations b) ?ps = for_op (record_payment config confirmations) bs"
    by (induction bs) simp_all
  obtain d' where d': "for_op (record_payment config confirmations) bs d = (d', Ok ())" "usable_books d'" "same_but_payouts d d'"
    "rat_balance d' = (\<lambda>k. rat_balance d k + (case map_of ?ps k of
         None \<Rightarrow> 0 | Some b \<Rightarrow> decimal_worth d (bal_Amount b * Fin (- 1))))"
    using payments.credits [OF assms(1) keys ok] unfolding eq by blast
  have "\<exists>rows. db_payments (fst (for_op (record_payment config confirmations) bs d)) = db_payments d @ rows
      \<and> list_all2 (\<lambda>b r. \<exists>x. store_numeric (numeric_of (db_dec d) (bal_Amount b)) = Ok x \<and> payment_of config b x r) bs rows"
    using assms
  proof (induction bs arbitrary: d)
    case (Cons b bs)
    obtain e r x where e: "record_payment config confirmations b d = (e, Ok ())" "usable_books e" "same_but_payouts d e"
      "rat_balance e = (rat_balance d)(debit_key config b := rat_balance d (debit_key config b)
          + decimal_worth d (bal_Amount b * Fin (- 1)))"
      "store_numeric (numeric_of (db_dec d) (bal_Amount b)) = Ok x"
      "db_payments e = db_payments d @ [r]" "payment_of config b x r"
      using record_payment_value [OF Cons.prems(1)] Cons.prems(3) by (metis list.set_intros(1))
    have "\<forall>c \<in> set bs. recordable config confirmations e (debit_key config c) c"
    proof
      fix c assume c: "c \<in> set bs"
      moreover have "debit_key config b \<notin> debit_key config ` set bs" using Cons.prems(2) by simp
      ultimately have "debit_key config c \<noteq> debit_key config b" by (metis imageI)
      then have "rat_balance e (debit_key config c) = rat_balance d (debit_key config c)" using e(4) by simp
      from payments.acceptable_frame [OF e(3) this] show "recordable config confirmations e (debit_key config c) c"
        using Cons.prems(3) c by simp
    qed
    with Cons.IH [OF e(2)] Cons.prems(2) obtain rows where
      "db_payments (fst (for_op (record_payment config confirmations) bs e)) = db_payments e @ rows"
      "list_all2 (\<lambda>b r. \<exists>x. store_numeric (numeric_of (db_dec e) (bal_Amount b)) = Ok x \<and> payment_of config b x r) bs rows"
      by auto
    then show ?case
      using e(1,5-7) same_but_payouts_dec [OF e(3)] by (intro exI [of _ "r # rows"]) (auto simp: bind_op_def)
  qed (simp add: return_op_def)
  then show ?thesis using d' by auto
qed

section \<open>What recording leaves alone\<close>

text \<open>Whatever fails on the way, recording touches the payments, the balances and their log only.\<close>

definition only_payouts :: "('z db_scheme, 'a) op \<Rightarrow> bool" where
  "only_payouts m \<longleftrightarrow> (\<forall>d. same_but_payouts d (fst (m d)))"

named_theorems payouts \<open>operations that change the tables of payouts only\<close>

lemma only_payouts_bind [payouts]:
  assumes "only_payouts m" "\<And>x. only_payouts (g x)"
  shows "only_payouts (bind_op m g)"
  unfolding only_payouts_def
proof
  fix d
  have m: "same_but_payouts d (fst (m d))" using assms(1) by (simp add: only_payouts_def)
  show "same_but_payouts d (fst (bind_op m g d))"
  proof (cases "m d")
    case (Pair e r)
    have "same_but_payouts e (fst (g x e))" for x using assms(2) by (simp add: only_payouts_def)
    then show ?thesis using m Pair same_but_payouts_trans by (cases r) (auto simp: bind_op_def)
  qed
qed

lemma only_payouts_basic [payouts]:
  "only_payouts (return_op x)" "only_payouts (fail_op e)" "only_payouts (lift_op r)" "only_payouts sql_call"
  by (auto simp: only_payouts_def return_op_def fail_op_def lift_op_def sql_call_def same_but_payouts_refl
      same_but_payouts_def split: list.splits option.splits)

lemma only_payouts_query [payouts]: "only_payouts (sql_query q)"
  unfolding sql_query_def by (intro payouts) (simp add: only_payouts_def same_but_payouts_refl)

lemma only_payouts_exec [payouts]:
  assumes "\<And>d d'. u d = Ok d' \<Longrightarrow> same_but_payouts d d'"
  shows "only_payouts (sql_exec u)"
  unfolding sql_exec_def
  by (intro payouts) (auto simp: only_payouts_def same_but_payouts_refl assms split: outcome.splits)

lemma only_payouts_if [payouts]: "only_payouts m \<Longrightarrow> only_payouts n \<Longrightarrow> only_payouts (if b then m else n)"
  by simp

lemma only_payouts_reads: "(\<And>x. only_payouts (m x)) \<Longrightarrow> only_payouts (\<lambda>d. m (g d) d)"
  by (simp add: only_payouts_def)

lemma only_payouts_AddAmount: "only_payouts (AddAmount p c a usage x)"
proof -
  have parts: "only_payouts (Balance_Insert b)" "only_payouts (Balance_Update b)" "only_payouts (GetBalance p c a)" for b
    unfolding Balance_Insert_def Balance_Update_def GetBalance_def
    by (intro payouts; auto simp: bind_out_eq_Ok same_but_payouts_def Let_def split: if_splits)+
  show ?thesis
    unfolding AddAmount_def Let_def
    by (rule only_payouts_reads, intro payouts parts) (auto simp: bind_out_eq_Ok same_but_payouts_def)
qed

lemma only_payouts_record: "only_payouts (record_payment config confs b)"
proof -
  have insert: "only_payouts (Payment_Insert p)" for p
    unfolding Payment_Insert_def by (intro payouts) (auto simp: bind_out_eq_Ok same_but_payouts_def)
  have credit: "only_payouts (bind_op (lift_op (findBalanceAddress b config)) (\<lambda>address.
      bind_op (Payment_Insert (p address)) (\<lambda>_.
        AddAmount (cf_PoolName config) (bal_Chain b) (bal_Address b) usage x)))" for p usage x
    by (intro payouts insert only_payouts_AddAmount)
  have "same_but_payouts d (fst (record_payment config confs b d))" for d
    by (cases "map_of confs (bal_Chain b)")
      (simp_all add: record_payment_def fail_op_def same_but_payouts_refl credit [unfolded only_payouts_def, rule_format])
  from this show ?thesis unfolding only_payouts_def by (intro allI)
qed

lemma recording_keeps_log:
  fixes w :: "'z rpc_world_scheme"
  shows "rw_log (fst (for_op (record_payment config confs) bs w)) = rw_log w"
proof -
  have "only_payouts (for_op (record_payment config confs) bs :: ('z rpc_world_scheme, unit) op)"
    by (induction bs) (simp_all add: payouts only_payouts_record)
  then obtain bs' cs' ps' n' fs' where "fst (for_op (record_payment config confs) bs w)
      = w\<lparr>db_balances := bs', db_changes := cs', db_payments := ps', db_serial := n', db_faults := fs'\<rparr>"
    unfolding only_payouts_def same_but_payouts_def by blast
  then show ?thesis by simp
qed

section \<open>Due balances\<close>

definition threshold :: "flt \<Rightarrow> 'z db_scheme \<Rightarrow> balance_row \<Rightarrow> numeric" where
  "threshold minimum d r =
     (case find (\<lambda>s. tr_poolid s = br_poolid r \<and> tr_address s = br_address r) (db_settings d) of
        Some s \<Rightarrow> tr_paymentthreshold s | None \<Rightarrow> numeric_of (db_dec d) minimum)"

definition due_rows :: "Config \<Rightarrow> 'z db_scheme \<Rightarrow> string \<Rightarrow> balance_row list" where
  "due_rows config d chain =
     (case map_of (cf_PayoutChains config) chain of
        None \<Rightarrow> []
      | Some pc \<Rightarrow> filter (\<lambda>r. br_poolid r = cf_PoolName config \<and> br_chain r = chain
          \<and> ge_numeric (br_amount r) (threshold (cp_MinerMinimumPayment pc) d r)) (db_balances d))"

definition one_setting :: "'z db_scheme \<Rightarrow> bool" where
  "one_setting d \<longleftrightarrow> distinct (map (\<lambda>s. (tr_poolid s, tr_address s)) (db_settings d))"

lemma filter_key_distinct:
  assumes "distinct (map f xs)"
  shows "filter (\<lambda>x. f x = k) xs = (case find (\<lambda>x. f x = k) xs of None \<Rightarrow> [] | Some x \<Rightarrow> [x])"
  using assms
proof (induction xs)
  case (Cons x xs)
  have "f x = k \<Longrightarrow> filter (\<lambda>x. f x = k) xs = []" using Cons.prems by (auto simp: filter_empty_conv image_iff)
  then show ?case using Cons by simp
qed simp

text \<open>The next \<open>n\<close> calls of the driver do not fail.\<close>

definition calm_calls :: "nat \<Rightarrow> 'z db_scheme \<Rightarrow> bool" where
  "calm_calls n d \<longleftrightarrow> set (take n (db_faults d)) \<subseteq> {None}"

lemma calm_calls_sql:
  assumes "calm_calls (Suc n) d"
  shows "sql_call d = (d\<lparr>db_faults := tl (db_faults d)\<rparr>, Ok ())" "calm_calls n (d\<lparr>db_faults := tl (db_faults d)\<rparr>)"
  using assms by (cases "db_faults d"; auto simp: calm_calls_def sql_call_def)+

lemma no_faults_calm:
  assumes "no_faults d"
  shows "calm_calls n d" "no_faults (d\<lparr>db_faults := drop n (db_faults d)\<rparr>)"
  using assms by (auto simp: calm_calls_def no_faults_def dest: in_set_takeD in_set_dropD)

lemma due_balances_rows:
  assumes "calm_calls 2 d" "one_setting d" "map_of (cf_PayoutChains config) chain = Some pc"
  shows "due_balances config chain d
    = (d\<lparr>db_faults := drop 2 (db_faults d)\<rparr>, Ok (map scan_balance (due_rows config d chain)))"
proof -
  have calm: "calm_calls (Suc (Suc 0)) d" using assms(1) by (simp add: numeral_2_eq_2)
  note call = calm_calls_sql [OF calm] calm_calls_sql(1) [OF calm_calls_sql(2) [OF calm]]
  let ?s = "\<lambda>r s. tr_poolid s = br_poolid r \<and> tr_address s = br_address r"
  have "join_settings (db_settings d) r = [(r, find (?s r) (db_settings d))]" for r
  proof -
    have "filter (?s r) (db_settings d) = (case find (?s r) (db_settings d) of None \<Rightarrow> [] | Some x \<Rightarrow> [x])"
      using filter_key_distinct [OF assms(2) [unfolded one_setting_def], of "(br_poolid r, br_address r)"] by simp
    then show ?thesis unfolding join_settings_def Let_def by (auto split: option.splits)
  qed
  then have join: "concat (map (join_settings (db_settings d)) rows) = map (\<lambda>r. (r, find (?s r) (db_settings d))) rows"
    for rows by (induction rows) simp_all
  have "tl (tl (db_faults d)) = drop 2 (db_faults d)" by (simp add: numeral_2_eq_2 drop_Suc)
  then show ?thesis
    using assms(3) call unfolding due_balances_def GetPoolBalancesOverThreshold_def
    by (simp add: bind_op_def sql_query_def join filter_map comp_def due_rows_def threshold_def
        case_prod_beta cong: option.case_cong)
qed

lemma due_rows_faults [simp]: "due_rows config (d\<lparr>db_faults := fs\<rparr>) = due_rows config d"
  by (rule ext) (simp add: due_rows_def threshold_def cong: filter_cong option.case_cong)

lemma all_due:
  assumes "calm_calls (2 * length cs) d" "one_setting d"
    and "\<forall>chain \<in> set cs. \<exists>pc. map_of (cf_PayoutChains config) chain = Some pc"
  shows "map_op (due_balances config) cs d
      = (d\<lparr>db_faults := drop (2 * length cs) (db_faults d)\<rparr>,
         Ok (map (\<lambda>chain. map scan_balance (due_rows config d chain)) cs))"
  using assms
proof (induction cs arbitrary: d)
  case Nil
  then show ?case by (simp add: return_op_def)
next
  case (Cons chain cs)
  let ?e = "d\<lparr>db_faults := drop 2 (db_faults d)\<rparr>"
  have n: "2 * length (chain # cs) = 2 + 2 * length cs" by simp
  have calm: "calm_calls 2 d" "calm_calls (2 * length cs) ?e"
    using Cons.prems(1) unfolding n calm_calls_def take_add by auto
  have "due_balances config chain d = (?e, Ok (map scan_balance (due_rows config d chain)))"
    using due_balances_rows [OF calm(1) Cons.prems(2)] Cons.prems(3) by auto
  moreover have "map_op (due_balances config) cs ?e
      = (?e\<lparr>db_faults := drop (2 * length cs) (db_faults ?e)\<rparr>,
         Ok (map (\<lambda>chain. map scan_balance (due_rows config ?e chain)) cs))"
    using Cons.IH [OF calm(2)] Cons.prems(2,3) by (simp add: one_setting_def)
  ultimately show ?case
    by (simp add: bind_op_def return_op_def drop_drop add.commute)
qed

section \<open>Sending\<close>

text \<open>The last due balance of an address sets what the address is sent.\<close>

definition payout_address :: "Config \<Rightarrow> Balance \<Rightarrow> string" where
  "payout_address config b = (case findBalanceAddress b config of Ok a \<Rightarrow> a | _ \<Rightarrow> '''')"

definition sent_amount :: "Config \<Rightarrow> Balance list \<Rightarrow> string \<Rightarrow> string \<Rightarrow> flt option" where
  "sent_amount config balances chain address =
     map_option bal_Amount (find (\<lambda>b. bal_Chain b = chain \<and> payout_address config b = address) (rev balances))"

lemma find_append: "find P (xs @ ys) = (case find P xs of None \<Rightarrow> find P ys | Some x \<Rightarrow> Some x)"
  by (induction xs) auto

lemma groups:
  assumes "\<forall>b \<in> set balances. is_ok (findBalanceAddress b config)"
  shows "\<exists>groups. fold_out (group_payment config) balances [] = Ok groups \<and> distinct (map fst groups)
    \<and> fst ` set groups = bal_Chain ` set balances
    \<and> (\<forall>chain m. map_of groups chain = Some m \<longrightarrow> map_of m = sent_amount config balances chain)"
  using assms
proof (induction balances rule: rev_induct)
  case Nil
  then show ?case by simp
next
  case (snoc b bs)
  then obtain groups where g: "fold_out (group_payment config) bs [] = Ok groups" "distinct (map fst groups)"
    "fst ` set groups = bal_Chain ` set bs"
    "\<forall>chain m. map_of groups chain = Some m \<longrightarrow> map_of m = sent_amount config bs chain" by auto
  obtain a where a: "findBalanceAddress b config = Ok a" using snoc.prems by (auto simp: is_ok_iff)
  let ?m = "case map_of groups (bal_Chain b) of Some m \<Rightarrow> m | None \<Rightarrow> []"
  let ?groups = "AList.update (bal_Chain b) (AList.update a (bal_Amount b) ?m) groups"
  have "map_of ?m = sent_amount config bs (bal_Chain b)"
  proof (cases "map_of groups (bal_Chain b)")
    case None
    then have "bal_Chain b \<notin> bal_Chain ` set bs" using g(3) by (metis map_of_eq_None_iff)
    then have "find (\<lambda>c. bal_Chain c = bal_Chain b \<and> payout_address config c = k) (rev bs) = None" for k
      unfolding find_None_iff by auto (metis imageI)
    then show ?thesis using None by (simp add: sent_amount_def fun_eq_iff)
  qed (use g(4) in simp)
  then have lookup: "map_of ?groups chain = Some m \<longrightarrow> map_of m = sent_amount config (bs @ [b]) chain" for chain m
    using g(4) a by (auto simp: update_conv fun_eq_iff sent_amount_def payout_address_def)
  have "group_payment config b groups = Ok ?groups" using a by (simp add: group_payment_def)
  then have run: "fold_out (group_payment config) (bs @ [b]) [] = Ok ?groups" using g(1) by (simp add: fold_out_append)
  have dom: "fst ` set ?groups = bal_Chain ` set (bs @ [b])" using g(3) by (simp add: dom_update)
  show ?case using run dom lookup distinct_update [OF g(2)] by (intro exI [of _ ?groups] conjI allI)
qed

text \<open>The nodes' answers to the sends: the transaction of each.\<close>

definition answer_id :: "string \<Rightarrow> http_reply" where
  "answer_id txid = HttpReply \<lparr>rs_Result = RawString txid, rs_ErrorCode = 0, rs_ErrorMessage = ''''\<rparr> 200"

definition reachable_nodes :: "(string \<times> Manager) list \<Rightarrow> string list \<Rightarrow> bool" where
  "reachable_nodes rpcManagers cs \<longleftrightarrow>
     (\<forall>chain \<in> set cs. \<exists>m client. map_of rpcManagers chain = Some m \<and> GetActiveClient m = Ok client)"

lemma send_groups:
  assumes "reachable_nodes rpcManagers (map fst groups)" "rw_replies w = map answer_id ids @ rest"
    and "length groups \<le> length ids"
  shows "\<exists>log confs. map_op (send_group rpcManagers) groups w
      = (w\<lparr>rw_replies := map answer_id (drop (length groups) ids) @ rest, rw_log := rw_log w @ log\<rparr>, Ok confs)
    \<and> map fst confs = map fst groups
    \<and> map snd log
        = map (\<lambda>(chain, m). (''sendmany'', [PString '''', PAmounts m])) groups"
  using assms
proof (induction groups arbitrary: w ids)
  case Nil
  then show ?case
    by (intro exI [of _ "[]"]) (simp add: return_op_def)
next
  case (Cons g groups)
  obtain chain m where g: "g = (chain, m)" by fastforce
  obtain txid ids' where ids: "ids = txid # ids'" using Cons.prems(3) by (cases ids) auto
  obtain mgr client where c: "map_of rpcManagers chain = Some mgr" "GetActiveClient mgr = Ok client"
    using Cons.prems(1) g by (auto simp: reachable_nodes_def)
  let ?entry = "(rpc_Name client, ''sendmany'', [PString '''', PAmounts m])"
  let ?w = "w\<lparr>rw_replies := map answer_id ids' @ rest, rw_log := rw_log w @ [?entry]\<rparr>"
  have "send_group rpcManagers g w = (?w, Ok (chain, txid))"
    using Cons.prems(2) c unfolding g ids
    by (simp add: send_group_def bind_op_def lift_op_def in_context_def try_op_def SendMany_def request_200_def
        doRequest_def answer_id_def unmarshal_with_def return_op_def Let_def)
  moreover have "\<exists>log confs. map_op (send_group rpcManagers) groups ?w
      = (?w\<lparr>rw_replies := map answer_id (drop (length groups) ids') @ rest, rw_log := rw_log ?w @ log\<rparr>, Ok confs) \<and> map fst confs = map fst groups
    \<and> map snd log = map (\<lambda>(chain, m). (''sendmany'', [PString [], PAmounts m])) groups"
    using Cons.prems(1,3) ids by (intro Cons.IH [of ?w ids']) (simp_all add: reachable_nodes_def)
  then obtain log confs where "map_op (send_group rpcManagers) groups ?w
      = (?w\<lparr>rw_replies := map answer_id (drop (length groups) ids') @ rest, rw_log := rw_log ?w @ log\<rparr>, Ok confs)" "map fst confs = map fst groups"
    "map snd log = map (\<lambda>(chain, m). (''sendmany'', [PString [], PAmounts m])) groups" by blast
  ultimately show ?case
    by (intro exI [of _ "?entry # log"] exI [of _ "(chain, txid) # confs"])
      (simp add: bind_op_def return_op_def g ids)
qed

section \<open>A round of payouts without failures\<close>

text \<open>A balance whose amount survives the way through a \<open>float64\<close> and back into a column.\<close>

definition exactly_payable :: "'z db_scheme \<Rightarrow> balance_row \<Rightarrow> bool" where
  "exactly_payable d r \<longleftrightarrow> (\<exists>a. br_amount r = Num a \<and> \<bar>a\<bar> < 10 ^ 20
     \<and> (\<exists>x. fl64 a = Fin x) \<and> db_dec d (fl64 a) = a
     \<and> (\<exists>y. fl64 a * Fin (- 1) = Fin y) \<and> db_dec d (fl64 a * Fin (- 1)) = - a)"

definition all_due_rows :: "Config \<Rightarrow> 'z db_scheme \<Rightarrow> balance_row list" where
  "all_due_rows config d = concat (map (due_rows config d) (cf_BlockChainOrder config))"

lemma due_rows_eq:
  assumes "db_balances e = db_balances d" "db_settings e = db_settings d" "db_dec e = db_dec d"
  shows "due_rows config e = due_rows config d"
proof (rule ext)
  have "threshold m e = threshold m d" for m unfolding threshold_def assms ..
  note eqs = this assms
  show "due_rows config e c = due_rows config d c" for c unfolding due_rows_def eqs ..
qed

lemma due_rows_in: "r \<in> set (due_rows config d chain)
    \<Longrightarrow> r \<in> set (db_balances d) \<and> br_poolid r = cf_PoolName config \<and> br_chain r = chain"
  by (auto simp: due_rows_def split: option.splits)

lemma scan_balance_key: "br_poolid r = cf_PoolName config \<Longrightarrow> debit_key config (scan_balance r) = balance_key r"
  by (simp add: debit_key_def scan_balance_def balance_key_def)

lemma all_due_in: "r \<in> set (all_due_rows config d) \<Longrightarrow> r \<in> set (db_balances d) \<and> br_poolid r = cf_PoolName config"
  using due_rows_in by (fastforce simp: all_due_rows_def)

lemma due_concat_distinct:
  assumes "unique_balances d" "distinct cs"
  shows "distinct (map balance_key (concat (map (due_rows config d) cs)))"
  using assms(2)
proof (induction cs)
  case (Cons chain cs)
  have one: "distinct (map balance_key (due_rows config d chain))"
    using assms(1) by (auto simp: due_rows_def unique_balances_def distinct_map_filter split: option.splits)
  have "balance_key r \<noteq> balance_key r'"
    if "r \<in> set (due_rows config d chain)" "r' \<in> set (due_rows config d c)" "c \<in> set cs" for r r' c
    using that(3) Cons.prems due_rows_in [OF that(1)] due_rows_in [OF that(2)] by (auto simp: balance_key_def)
  then show ?case using one Cons by fastforce
qed simp

lemma all_due_distinct:
  assumes "unique_balances d" "distinct (cf_BlockChainOrder config)"
  shows "distinct (map balance_key (all_due_rows config d))"
  unfolding all_due_rows_def using assms by (rule due_concat_distinct)

lemma row_balance:
  assumes "unique_balances d" "r \<in> set (db_balances d)"
  shows "balance_of d (balance_key r) = Some (br_amount r)"
  using assms by (auto simp: balance_of_def unique_balances_def comp_def intro!: map_of_is_SomeI)

lemma exactly_payable_recordable:
  assumes "usable_books d" "r \<in> set (all_due_rows config d)" "exactly_payable d r"
    and "is_ok (findBalanceAddress (scan_balance r) config)" "\<exists>c. map_of confs (br_chain r) = Some c"
  shows "recordable config confs d (balance_key r) (scan_balance r)"
    "store_numeric (numeric_of (db_dec d) (bal_Amount (scan_balance r))) = Ok (br_amount r)"
    "decimal_worth d (bal_Amount (scan_balance r) * Fin (- 1)) = - rat_balance d (balance_key r)"
proof -
  have r: "r \<in> set (db_balances d)" "br_poolid r = cf_PoolName config" using all_due_in [OF assms(2)] by simp_all
  obtain a where a: "br_amount r = Num a" "\<bar>a\<bar> < 10 ^ 20" "\<exists>x. fl64 a = Fin x" "db_dec d (fl64 a) = a"
    "\<exists>y. fl64 a * Fin (- 1) = Fin y" "db_dec d (fl64 a * Fin (- 1)) = - a"
    using assms(3) unfolding exactly_payable_def by blast
  have lc: "ledger_consistent d" using assms(1) by (simp add: usable_books_def)
  then have bal: "balance_of d (balance_key r) = Some (Num a)"
    using row_balance [OF _ r(1)] a(1) by (simp add: ledger_consistent_def)
  have "balance_of d (balance_key r) \<in> {None} \<union> (Some \<circ> Num) ` {r. eight_decimals r}"
    using lc unfolding ledger_consistent_def by blast
  then have e: "eight_decimals a" using bal by auto
  obtain i where "a = of_int i / 10 ^ 8" using e unfolding eight_decimals_iff by blast
  then have "- a = of_int (- i) / 10 ^ 8" by simp
  then have e': "eight_decimals (- a)" unfolding eight_decimals_iff by blast
  have amount: "bal_Amount (scan_balance r) = fl64 a" using a(1) by (simp add: scan_balance_def)
  obtain x where x: "fl64 a = Fin x" using a(3) by blast
  have n: "numeric_of (db_dec d) (fl64 a) = Num a" using a(4) x by (simp add: numeric_of_def)
  show store: "store_numeric (numeric_of (db_dec d) (bal_Amount (scan_balance r))) = Ok (br_amount r)"
    unfolding amount n using store_eight [OF e a(2)] a(1) by simp
  have cr: "creditable d (balance_key r) (fl64 a * Fin (- 1))"
    using a(2,5,6) e' bal unfolding creditable_def by (simp add: eight_decimals_def)
  show "recordable config confs d (balance_key r) (scan_balance r)"
    unfolding recordable_def amount using cr assms(4,5) store amount scan_balance_key [OF r(2)]
    by (simp add: scan_balance_def)
  show "decimal_worth d (bal_Amount (scan_balance r) * Fin (- 1)) = - rat_balance d (balance_key r)"
    unfolding amount decimal_worth_def rat_balance_def using a(6) e' bal by (simp add: eight_decimals_def)
qed


text \<open>Sending what is due to nodes that answer, one transaction per chain.\<close>

definition payout_groups :: "Config \<Rightarrow> balance_row list \<Rightarrow> payment_groups" where
  "payout_groups config rows =
     (case fold_out (group_payment config) (map scan_balance rows) [] of Ok groups \<Rightarrow> groups | _ \<Rightarrow> [])"

lemma try_payments:
  assumes "permutes_keys order" "reachable_nodes rpcManagers cs" "br_chain ` set rows \<subseteq> set cs"
    and "rw_replies w = map answer_id ids @ rest" "length cs \<le> length ids"
    and "\<forall>r \<in> set rows. is_ok (findBalanceAddress (scan_balance r) config)"
    and "sends = range_map order (payout_groups config rows)"
  shows "\<exists>log confs. bitcoinTryManyPayments order (map scan_balance rows) config rpcManagers w
      = (w\<lparr>rw_replies := map answer_id (drop (length sends) ids) @ rest, rw_log := rw_log w @ log\<rparr>, Ok confs)
    \<and> length sends \<le> length cs
    \<and> (\<forall>r \<in> set rows. \<exists>c. map_of confs (br_chain r) = Some c)
    \<and> map snd log = map (\<lambda>(chain, m). (''sendmany'', [PString [], PAmounts m])) sends
    \<and> distinct (map fst sends) \<and> fst ` set sends = br_chain ` set rows
    \<and> (\<forall>(chain, m) \<in> set sends. map_of m = sent_amount config (map scan_balance rows) chain)"
proof -
  let ?bs = "map scan_balance rows"
  have "\<forall>b \<in> set ?bs. is_ok (findBalanceAddress b config)" using assms(6) by simp
  from groups [OF this] obtain groups where g: "fold_out (group_payment config) ?bs [] = Ok groups"
    "distinct (map fst groups)" "fst ` set groups = bal_Chain ` set ?bs"
    "\<forall>chain m. map_of groups chain = Some m \<longrightarrow> map_of m = sent_amount config ?bs chain" by blast
  let ?sends = "range_map order groups"
  have same: "sends = ?sends" using g(1) assms(7) by (simp add: payout_groups_def)
  have sends: "set ?sends = set groups" "distinct (map fst ?sends)"
    using set_range_map [OF assms(1) g(2)] distinct_range_map [OF assms(1) g(2)] by simp_all
  have fsts: "set (map fst ?sends) = br_chain ` set rows"
    using sends(1) g(3) by (simp add: image_image scan_balance_def)
  have "length ?sends = card (set (map fst ?sends))" using sends(2) by (metis distinct_card length_map)
  also have "\<dots> \<le> card (set cs)" unfolding fsts by (intro card_mono assms(3)) simp
  also have "\<dots> \<le> length cs" by (rule card_length)
  finally have few: "length ?sends \<le> length cs" .
  then have len: "length ?sends \<le> length ids" using assms(5) by simp
  have reach: "reachable_nodes rpcManagers (map fst ?sends)"
    unfolding reachable_nodes_def fsts
    using assms(3) assms(2) [unfolded reachable_nodes_def] by (auto dest: subsetD)
  from send_groups [OF reach assms(4) len] obtain log confs where
    s: "map_op (send_group rpcManagers) ?sends w = (w\<lparr>rw_replies := map answer_id (drop (length ?sends) ids) @ rest, rw_log := rw_log w @ log\<rparr>, Ok confs)"
      "map fst confs = map fst ?sends"
      "map snd log = map (\<lambda>(chain, m). (''sendmany'', [PString [], PAmounts m])) ?sends" by blast
  have run: "bitcoinTryManyPayments order ?bs config rpcManagers w
      = (w\<lparr>rw_replies := map answer_id (drop (length ?sends) ids) @ rest, rw_log := rw_log w @ log\<rparr>, Ok confs)"
    using s(1) by (simp add: bitcoinTryManyPayments_def g(1) bind_op_def lift_op_def)
  have "set (map fst confs) = br_chain ` set rows" using s(2) fsts by simp
  then have conf: "\<forall>r \<in> set rows. \<exists>c. map_of confs (br_chain r) = Some c"
    by (metis imageI list.set_map map_of_eq_None_iff not_None_eq)
  have sent: "\<forall>(chain, m) \<in> set ?sends. map_of m = sent_amount config ?bs chain"
    using g(2,4) sends(1) by auto
  have fsts': "fst ` set ?sends = br_chain ` set rows" using fsts by simp
  show ?thesis unfolding same
    by (intro exI conjI) (rule run, rule few, rule conf, rule s(3), rule sends(2), rule fsts', rule sent)
qed

text \<open>What a payout has done when it starts to record the payments.\<close>

lemma payout_sends:
  assumes "calm_calls (2 * length (cf_BlockChainOrder config)) w" "one_setting w" "permutes_keys order"
    and "\<forall>chain \<in> set (cf_BlockChainOrder config). \<exists>pc. map_of (cf_PayoutChains config) chain = Some pc"
    and "reachable_nodes rpcManagers (cf_BlockChainOrder config)"
    and "rw_replies w = map answer_id ids @ rest" "length (cf_BlockChainOrder config) \<le> length ids"
    and "\<forall>r \<in> set (all_due_rows config w). is_ok (findBalanceAddress (scan_balance r) config)"
  defines "sends \<equiv> range_map order (payout_groups config (all_due_rows config w))"
  shows "\<exists>log confs w2.
      w2 = w\<lparr>db_faults := drop (2 * length (cf_BlockChainOrder config)) (db_faults w),
             rw_replies := map answer_id (drop (length sends) ids) @ rest, rw_log := rw_log w @ log\<rparr>
    \<and> length sends \<le> length (cf_BlockChainOrder config)
    \<and> payoutBalances order config rpcManagers w
        = for_op (record_payment config confs) (map scan_balance (all_due_rows config w)) w2
    \<and> (\<forall>r \<in> set (all_due_rows config w). \<exists>c. map_of confs (br_chain r) = Some c)
    \<and> map snd log = map (\<lambda>(chain, m). (''sendmany'', [PString [], PAmounts m])) sends
    \<and> distinct (map fst sends) \<and> fst ` set sends = br_chain ` set (all_due_rows config w)
    \<and> (\<forall>(chain, m) \<in> set sends. map_of m = sent_amount config (map scan_balance (all_due_rows config w)) chain)"
proof -
  let ?rows = "all_due_rows config w" and ?cs = "cf_BlockChainOrder config"
  let ?bs = "map scan_balance ?rows"
  let ?w1 = "w\<lparr>db_faults := drop (2 * length ?cs) (db_faults w)\<rparr>"
  note due = all_due [OF assms(1,2,4)]
  have bs: "concat (map (\<lambda>chain. map scan_balance (due_rows config w chain)) ?cs) = ?bs"
    by (simp add: all_due_rows_def map_concat comp_def)
  have in_order: "br_chain ` set ?rows \<subseteq> set ?cs" using due_rows_in by (fastforce simp: all_due_rows_def)
  have w1: "rw_replies ?w1 = map answer_id ids @ rest" using assms(6) by simp
  let ?w2 = "\<lambda>log. ?w1\<lparr>rw_replies := map answer_id (drop (length sends) ids) @ rest, rw_log := rw_log ?w1 @ log\<rparr>"
  obtain log confs where
    s: "bitcoinTryManyPayments order ?bs config rpcManagers ?w1 = (?w2 log, Ok confs)"
      "length sends \<le> length ?cs"
      "\<forall>r \<in> set ?rows. \<exists>c. map_of confs (br_chain r) = Some c"
      "map snd log = map (\<lambda>(chain, m). (''sendmany'', [PString [], PAmounts m])) sends"
      "distinct (map fst sends)" "fst ` set sends = br_chain ` set ?rows"
      "\<forall>(chain, m) \<in> set sends. map_of m = sent_amount config ?bs chain"
    using try_payments [OF assms(3,5) in_order w1 assms(7,8) sends_def [THEN meta_eq_to_obj_eq]] by (elim exE conjE) (rule that; assumption)
  have run: "payoutBalances order config rpcManagers w
      = for_op (record_payment config confs) ?bs (?w2 log)"
    using due s(1) unfolding payoutBalances_def Let_def bind_op_def by (simp add: bs)
  have w2: "?w2 log = w\<lparr>db_faults := drop (2 * length ?cs) (db_faults w),
      rw_replies := map answer_id (drop (length sends) ids) @ rest, rw_log := rw_log w @ log\<rparr>" by simp
  show ?thesis
    by (intro exI conjI) (rule refl, rule s(2), rule run [unfolded w2], rule s(3), rule s(4), rule s(5), rule s(6), rule s(7))
qed

lemma payout_groups_distinct:
  assumes "\<forall>r \<in> set rows. is_ok (findBalanceAddress (scan_balance r) config)"
  shows "distinct (map fst (payout_groups config rows))"
  using groups [of "map scan_balance rows" config] assms by (auto simp: payout_groups_def)

text \<open>Recording all due balances empties exactly those.\<close>

lemma due_recorded:
  assumes books: "usable_books w" and chains_once: "distinct (cf_BlockChainOrder config)"
    and due: "\<forall>r \<in> set (all_due_rows config w). exactly_payable w r \<and> is_ok (findBalanceAddress (scan_balance r) config)
      \<and> (\<exists>c. map_of confs (br_chain r) = Some c)"
  shows "\<exists>w' rows. for_op (record_payment config confs) (map scan_balance (all_due_rows config w)) w = (w', Ok ())
    \<and> usable_books w' \<and> same_but_payouts w w'
    \<and> (\<forall>k. rat_balance w' k = (if k \<in> balance_key ` set (all_due_rows config w) then 0 else rat_balance w k))
    \<and> db_payments w' = db_payments w @ rows
    \<and> list_all2 (\<lambda>r p. payment_of config (scan_balance r) (br_amount r) p) (all_due_rows config w) rows"
proof -
  let ?rows = "all_due_rows config w"
  let ?bs = "map scan_balance ?rows"
  have u: "unique_balances w" using books by (simp add: usable_books_def ledger_consistent_def)
  have keys: "map (debit_key config) ?bs = map balance_key ?rows"
    using all_due_in [of _ config w] scan_balance_key by simp
  have dist: "distinct (map (debit_key config) ?bs)" unfolding keys by (rule all_due_distinct [OF u chains_once])
  have row: "recordable config confs w (balance_key r) (scan_balance r)"
    "store_numeric (numeric_of (db_dec w) (bal_Amount (scan_balance r))) = Ok (br_amount r)"
    "decimal_worth w (bal_Amount (scan_balance r) * Fin (- 1)) = - rat_balance w (balance_key r)"
    if "r \<in> set ?rows" for r
  proof -
    have r: "exactly_payable w r" "is_ok (findBalanceAddress (scan_balance r) config)" "\<exists>c. map_of confs (br_chain r) = Some c"
      using due that by simp_all
    show "recordable config confs w (balance_key r) (scan_balance r)"
      "store_numeric (numeric_of (db_dec w) (bal_Amount (scan_balance r))) = Ok (br_amount r)"
      "decimal_worth w (bal_Amount (scan_balance r) * Fin (- 1)) = - rat_balance w (balance_key r)"
      by (rule exactly_payable_recordable [OF books that r])+
  qed
  have rec: "\<forall>b \<in> set ?bs. recordable config confs w (debit_key config b) b"
    using row(1) all_due_in [of _ config w] scan_balance_key by simp
  obtain w' rows where w': "for_op (record_payment config confs) ?bs w = (w', Ok ())" "usable_books w'"
    "same_but_payouts w w'"
    "rat_balance w' = (\<lambda>k. rat_balance w k + (case map_of (map (\<lambda>b. (debit_key config b, b)) ?bs) k of
         None \<Rightarrow> 0 | Some b \<Rightarrow> decimal_worth w (bal_Amount b * Fin (- 1))))"
    "db_payments w' = db_payments w @ rows"
    "list_all2 (\<lambda>b r. \<exists>x. store_numeric (numeric_of (db_dec w) (bal_Amount b)) = Ok x \<and> payment_of config b x r) ?bs rows"
    using record_payments [OF books dist rec] by blast
  have pairs: "map (\<lambda>b. (debit_key config b, b)) ?bs = map (\<lambda>r. (balance_key r, scan_balance r)) ?rows"
    using all_due_in [of _ config w] scan_balance_key by simp
  have settled: "rat_balance w' k = (if k \<in> balance_key ` set ?rows then 0 else rat_balance w k)" for k
  proof (cases "k \<in> balance_key ` set ?rows")
    case True
    then obtain r where r: "r \<in> set ?rows" "k = balance_key r" by blast
    have "map_of (map (\<lambda>r. (balance_key r, scan_balance r)) ?rows) k = Some (scan_balance r)"
      using r all_due_distinct [OF u chains_once] by (intro map_of_is_SomeI) (auto simp: comp_def)
    then show ?thesis using w'(4) row(3) [OF r(1)] r True unfolding pairs by simp
  next
    case False
    then have "map_of (map (\<lambda>r. (balance_key r, scan_balance r)) ?rows) k = None"
      by (auto simp: map_of_eq_None_iff)
    then show ?thesis using w'(4) False unfolding pairs by simp
  qed
  have "list_all2 (\<lambda>r p. \<exists>x. store_numeric (numeric_of (db_dec w) (bal_Amount (scan_balance r))) = Ok x
      \<and> payment_of config (scan_balance r) x p) ?rows rows" using w'(6) by (simp add: list.rel_map)
  then have recorded: "list_all2 (\<lambda>r p. payment_of config (scan_balance r) (br_amount r) p) ?rows rows"
    by (rule list.rel_mono_strong) (auto simp: row(2))
  show ?thesis using w' settled recorded by blast
qed

text \<open>
  C4. A payout that meets no failure settles the accounts. Exactly the balances over their
  threshold are sent, in one transaction per chain, each to its address on that chain; the
  balances that were sent are zero afterwards and all others are what they were; every one
  has its payment recorded with its amount. An address that two of the balances share is sent
  the amount of the last one only.
\<close>

theorem payout_settles:
  assumes "usable_books w" "one_setting w" "distinct (cf_BlockChainOrder config)" "permutes_keys order"
    and "\<forall>chain \<in> set (cf_BlockChainOrder config). \<exists>pc. map_of (cf_PayoutChains config) chain = Some pc"
    and "reachable_nodes rpcManagers (cf_BlockChainOrder config)"
    and "rw_replies w = map answer_id ids @ rest" "length (cf_BlockChainOrder config) \<le> length ids"
    and "\<forall>r \<in> set (all_due_rows config w). exactly_payable w r \<and> is_ok (findBalanceAddress (scan_balance r) config)"
  shows "\<exists>w' rows log sends. payoutBalances order config rpcManagers w = (w', Ok ())
    \<and> usable_books w'
    \<and> (\<forall>k. rat_balance w' k = (if k \<in> balance_key ` set (all_due_rows config w) then 0 else rat_balance w k))
    \<and> db_payments w' = db_payments w @ rows
    \<and> list_all2 (\<lambda>r p. payment_of config (scan_balance r) (br_amount r) p) (all_due_rows config w) rows
    \<and> rw_log w' = rw_log w @ log
    \<and> map snd log = map (\<lambda>(chain, m). (''sendmany'', [PString '''', PAmounts m])) sends
    \<and> distinct (map fst sends) \<and> fst ` set sends = br_chain ` set (all_due_rows config w)
    \<and> (\<forall>(chain, m) \<in> set sends. map_of m = sent_amount config (map scan_balance (all_due_rows config w)) chain)"
proof -
  let ?rows = "all_due_rows config w" and ?cs = "cf_BlockChainOrder config"
  have nf: "no_faults w" using assms(1) by (simp add: usable_books_def)
  have calm: "calm_calls (2 * length ?cs) w" by (rule no_faults_calm(1) [OF nf])
  have addresses: "\<forall>r \<in> set ?rows. is_ok (findBalanceAddress (scan_balance r) config)" using assms(9) by blast
  let ?sends = "range_map order (payout_groups config ?rows)"
  obtain log confs w2 where
    s: "w2 = w\<lparr>db_faults := drop (2 * length ?cs) (db_faults w),
             rw_replies := map answer_id (drop (length ?sends) ids) @ rest, rw_log := rw_log w @ log\<rparr>"
      "payoutBalances order config rpcManagers w = for_op (record_payment config confs) (map scan_balance ?rows) w2"
      "\<forall>r \<in> set ?rows. \<exists>c. map_of confs (br_chain r) = Some c"
      "map snd log = map (\<lambda>(chain, m). (''sendmany'', [PString [], PAmounts m])) ?sends"
      "distinct (map fst ?sends)" "fst ` set ?sends = br_chain ` set ?rows"
      "\<forall>(chain, m) \<in> set ?sends. map_of m = sent_amount config (map scan_balance ?rows) chain"
    using payout_sends [OF calm assms(2,4,5,6,7,8) addresses] by (elim exE conjE) (rule that; assumption)
  have "due_rows config w2 = due_rows config w" by (rule due_rows_eq) (simp_all add: s(1))
  then have due2: "all_due_rows config w2 = ?rows" by (simp add: all_due_rows_def)
  have w2: "usable_books w2" "rat_balance w2 = rat_balance w" "db_payments w2 = db_payments w" "rw_log w2 = rw_log w @ log"
    using assms(1) no_faults_calm(2) [OF nf, of "2 * length ?cs"]
    by (auto simp: s(1) usable_books_def ledger_consistent_def unique_balances_def balance_of_def rat_balance_def fun_eq_iff
        no_faults_def)
  have "exactly_payable w2 = exactly_payable w" by (rule ext) (simp add: exactly_payable_def s(1))
  then have "\<forall>r \<in> set (all_due_rows config w2). exactly_payable w2 r \<and> is_ok (findBalanceAddress (scan_balance r) config)
      \<and> (\<exists>c. map_of confs (br_chain r) = Some c)" unfolding due2 using assms(9) s(3) by simp
  from due_recorded [OF w2(1) assms(3) this]
  obtain w' rows where w': "for_op (record_payment config confs) (map scan_balance ?rows) w2 = (w', Ok ())" "usable_books w'"
    "same_but_payouts w2 w'" "\<forall>k. rat_balance w' k = (if k \<in> balance_key ` set ?rows then 0 else rat_balance w k)"
    "db_payments w' = db_payments w @ rows"
    "list_all2 (\<lambda>r p. payment_of config (scan_balance r) (br_amount r) p) ?rows rows"
    unfolding due2 w2(2,3) by blast
  obtain bs' cs' ps' n' fs' where "w' = w2\<lparr>db_balances := bs', db_changes := cs', db_payments := ps',
      db_serial := n', db_faults := fs'\<rparr>" using w'(3) unfolding same_but_payouts_def by blast
  then have log: "rw_log w' = rw_log w @ log" using w2(4) by simp
  have run: "payoutBalances order config rpcManagers w = (w', Ok ())" unfolding s(2) by (rule w'(1))
  show ?thesis
    by (intro exI conjI) (rule run, rule w'(2), rule w'(4), rule w'(5), rule w'(6), rule log,
      rule s(4), rule s(5), rule s(6), rule s(7))
qed

section \<open>A concrete payout\<close>

definition payout_config :: Config where
  "payout_config = \<lparr>cf_PoolName = ''p'', cf_BlockSignature = '''',
     cf_BlockchainNodes = [], cf_BlockChainOrder = [''dogecoin''], cf_PoolDifficulty = Fin 1,
     cf_PayoutScheme = ''PROP'',
     cf_PayoutChains = [(''dogecoin'', \<lparr>cp_Name = '''', cp_RewardFrom = ''pool'', cp_MinerMinimumPayment = Fin 1, cp_PoolRewardRecipients = []\<rparr>)],
     cf_ShareFlushInterval = ''1s'', cf_HashrateWindow = ''1m'', cf_PoolStatsInterval = ''1m'',
     cf_Port = ''3333'', cf_MaxConnections = 100, cf_ConnectionTimeout = ''1m'',
     cf_Persister = example_persister, cf_API = \<lparr>ac_Port = ''8001''\<rparr>, cf_PayoutInterval = ''1h'', cf_AppStatsInterval = ''1h''\<rparr>"

definition bob_row :: balance_row where
  "bob_row = \<lparr>br_poolid = ''p'', br_chain = ''dogecoin'', br_address = ''bob'', br_amount = Num (5 / 2),
     br_created = 0, br_updated = 0\<rparr>"

lemma example_world_tables [simp]:
  "db_balances (example_world rs) = [bob_row]" "db_settings (example_world rs) = []"
  "db_dec (example_world rs) = (\<lambda>x. case x of Fin r \<Rightarrow> r | _ \<Rightarrow> 0)" "db_faults (example_world rs) = []"
  "db_payments (example_world rs) = []"
  by (simp_all add: example_world_def rpc_world.defs db.defs example_db_def bob_row_def)

lemma example_world_books: "usable_books (example_world rs)" "one_setting (example_world rs)"
proof -
  have "balance_of (example_world rs) = balance_of example_db"
    by (simp add: balance_of_def example_world_def rpc_world.defs db.defs example_db_def)
  moreover have "db_changes (example_world rs) = db_changes example_db"
    "db_balances (example_world rs) = db_balances example_db"
    by (simp_all add: example_world_def rpc_world.defs db.defs example_db_def)
  ultimately show "usable_books (example_world rs)"
    using example_db_consistent by (simp add: usable_books_def ledger_consistent_def unique_balances_def)
qed (simp add: one_setting_def)

lemma payout_config_due: "all_due_rows payout_config (example_world rs) = [bob_row]"
  by (simp add: all_due_rows_def due_rows_def payout_config_def threshold_def numeric_of_def bob_row_def)

lemma payout_config_ready:
  "distinct (cf_BlockChainOrder payout_config)"
  "\<forall>chain \<in> set (cf_BlockChainOrder payout_config). \<exists>pc. map_of (cf_PayoutChains payout_config) chain = Some pc"
  "reachable_nodes [(''dogecoin'', example_manager)] (cf_BlockChainOrder payout_config)"
  "length (cf_BlockChainOrder payout_config) \<le> length [''tx'']"
  "findBalanceAddress (scan_balance bob_row) payout_config = Ok ''bob''"
  by (simp_all add: payout_config_def reachable_nodes_def GetActiveClient_def example_manager_def nth_out_def
      findBalanceAddress_def scan_balance_def bob_row_def)

lemma bob_exactly_payable: "exactly_payable (example_world rs) bob_row"
proof -
  have half: "fl64 (5 / 2) = Fin (5 / 2)"
    using fl64_dyadic [of "5 / 2" 5 "- 1"] by (simp add: pow2_def)
  have minus: "fl64 (- (5 / 2)) = Fin (- (5 / 2))"
    using fl64_dyadic [of "- (5 / 2)" "- 5" "- 1"] by (simp add: pow2_def)
  have "Fin (5 / 2) * Fin (- 1) = Fin (- (5 / 2))"
    using minus by (simp add: times_flt_def)
  then show ?thesis unfolding exactly_payable_def by (intro exI [of _ "5 / 2"]) (simp add: bob_row_def half, rule exI [of _ "5 / 2"], simp)
qed

theorem payout_settles_witness:
  "\<exists>w' row. payoutBalances rev payout_config [(''dogecoin'', example_manager)] (example_world [answer_id ''tx'']) = (w', Ok ())
    \<and> rat_balance w' (''p'', ''dogecoin'', ''bob'') = 0
    \<and> db_payments w' = [row] \<and> pr_amount row = Num (5 / 2) \<and> pr_address row = ''bob''"
proof -
  let ?w = "example_world [answer_id ''tx'']"
  have bob: "\<forall>r \<in> set (all_due_rows payout_config ?w). exactly_payable ?w r \<and> is_ok (findBalanceAddress (scan_balance r) payout_config)"
    unfolding payout_config_due using bob_exactly_payable payout_config_ready(5) by (simp add: is_ok_iff)
  have replies: "rw_replies ?w = map answer_id [''tx''] @ []" by simp
  have key: "balance_key bob_row = (''p'', ''dogecoin'', ''bob'')" by (simp add: bob_row_def balance_key_def)
  obtain w' rows where
    w': "payoutBalances rev payout_config [(''dogecoin'', example_manager)] ?w = (w', Ok ())"
    "\<forall>k. rat_balance w' k = (if k \<in> balance_key ` set (all_due_rows payout_config ?w) then 0 else rat_balance ?w k)"
    "db_payments w' = db_payments ?w @ rows"
    "list_all2 (\<lambda>r p. payment_of payout_config (scan_balance r) (br_amount r) p) (all_due_rows payout_config ?w) rows"
    using payout_settles [OF example_world_books(1,2) payout_config_ready(1) permutes_keys_examples(2)
        payout_config_ready(2,3) replies payout_config_ready(4) bob] by blast
  obtain row where row: "rows = [row]" "payment_of payout_config (scan_balance bob_row) (br_amount bob_row) row"
    using w'(4) unfolding payout_config_due by (auto simp: list_all2_Cons1)
  have "pr_address row = ''bob''" using row(2) payout_config_ready(5) by (simp add: payment_of_def)
  moreover have "pr_amount row = Num (5 / 2)" using row(2) by (simp add: payment_of_def bob_row_def)
  moreover have "rat_balance w' (''p'', ''dogecoin'', ''bob'') = 0"
    using w'(2) unfolding payout_config_due by (simp add: key)
  ultimately show ?thesis using w'(1,3) row(1) by simp
qed

section \<open>A failure after the coins were sent\<close>

text \<open>
  C18. When the first statement after the sends fails, the coins are on their way and nothing
  of it is in the database: the round is an error, no balance is debited, no payment recorded,
  and the same balances are due again. The next round, in whatever order it visits the chains,
  asks the nodes for the very same transactions a second time: the same chains, addresses and
  amounts, whatever becomes of that round afterwards.
\<close>

theorem payout_failure_pays_again:
  assumes "one_setting w" "permutes_keys order" "permutes_keys order'"
    and "\<forall>chain \<in> set (cf_BlockChainOrder config). \<exists>pc. map_of (cf_PayoutChains config) chain = Some pc"
    and "reachable_nodes rpcManagers (cf_BlockChainOrder config)"
    and "rw_replies w = map answer_id ids @ rest" "2 * length (cf_BlockChainOrder config) \<le> length ids"
    and "\<forall>r \<in> set (all_due_rows config w). is_ok (findBalanceAddress (scan_balance r) config)"
    and "all_due_rows config w \<noteq> []"
    and "db_faults w = replicate (2 * length (cf_BlockChainOrder config)) None @ Some e
      # replicate (2 * length (cf_BlockChainOrder config)) None @ fs"
  shows "\<exists>w' log sends w'' log' sends' r. payoutBalances order config rpcManagers w = (w', Err e)
    \<and> db_balances w' = db_balances w \<and> db_changes w' = db_changes w \<and> db_payments w' = db_payments w
    \<and> all_due_rows config w' = all_due_rows config w
    \<and> rw_log w' = rw_log w @ log
    \<and> map snd log = map (\<lambda>(chain, m). (''sendmany'', [PString [], PAmounts m])) sends
    \<and> distinct (map fst sends) \<and> fst ` set sends = br_chain ` set (all_due_rows config w)
    \<and> (\<forall>(chain, m) \<in> set sends. map_of m = sent_amount config (map scan_balance (all_due_rows config w)) chain)
    \<and> payoutBalances order' config rpcManagers w' = (w'', r)
    \<and> rw_log w'' = rw_log w' @ log'
    \<and> map snd log' = map (\<lambda>(chain, m). (''sendmany'', [PString [], PAmounts m])) sends'
    \<and> mset sends' = mset sends"
proof -
  let ?rows = "all_due_rows config w" and ?cs = "cf_BlockChainOrder config"
  let ?sends = "range_map order (payout_groups config ?rows)" and ?sends' = "range_map order' (payout_groups config ?rows)"
  have enough: "length ?cs \<le> length ids" using assms(7) by simp
  have calm: "calm_calls (2 * length ?cs) w" using assms(10) by (simp add: calm_calls_def set_replicate_conv_if)
  obtain log confs w2 where
    s: "w2 = w\<lparr>db_faults := drop (2 * length ?cs) (db_faults w),
             rw_replies := map answer_id (drop (length ?sends) ids) @ rest, rw_log := rw_log w @ log\<rparr>"
      "payoutBalances order config rpcManagers w = for_op (record_payment config confs) (map scan_balance ?rows) w2"
      "\<forall>r \<in> set ?rows. \<exists>c. map_of confs (br_chain r) = Some c"
      "map snd log = map (\<lambda>(chain, m). (''sendmany'', [PString [], PAmounts m])) ?sends"
      "distinct (map fst ?sends)" "fst ` set ?sends = br_chain ` set ?rows" "length ?sends \<le> length ?cs"
      "\<forall>(chain, m) \<in> set ?sends. map_of m = sent_amount config (map scan_balance ?rows) chain"
    using payout_sends [OF calm assms(1,2,4,5,6) enough assms(8)] by (elim exE conjE) (rule that; assumption)
  obtain r rows where r: "?rows = r # rows" using assms(9) by (cases ?rows) auto
  obtain c a where c: "map_of confs (br_chain r) = Some c" "findBalanceAddress (scan_balance r) config = Ok a"
    using s(3) assms(8) r by (auto simp: is_ok_iff)
  have faults: "db_faults w2 = Some e # replicate (2 * length ?cs) None @ fs" unfolding s(1) by (simp add: assms(10))
  define w' where "w' = w2\<lparr>db_faults := replicate (2 * length ?cs) None @ fs\<rparr>"
  have call: "sql_call w2 = (w', Err e)" using faults by (simp add: sql_call_def w'_def)
  have chain: "bal_Chain (scan_balance r) = br_chain r" by (simp add: scan_balance_def)
  have "Payment_Insert p w2 = (w', Err e)" for p by (simp add: Payment_Insert_def bind_op_def call)
  then have "record_payment config confs (scan_balance r) w2 = (w', Err e)"
    using c by (simp add: record_payment_def bind_op_def lift_op_def chain)
  then have run: "payoutBalances order config rpcManagers w = (w', Err e)"
    unfolding s(2) r by (simp add: bind_op_def)
  have "due_rows config w' = due_rows config w" by (rule due_rows_eq) (simp_all add: w'_def s(1))
  then have due: "all_due_rows config w' = ?rows" by (simp add: all_due_rows_def)
  have same: "db_balances w' = db_balances w" "db_changes w' = db_changes w" "db_payments w' = db_payments w"
    "rw_log w' = rw_log w @ log" by (simp_all add: w'_def s(1))
  have calm': "calm_calls (2 * length ?cs) w'" by (simp add: w'_def calm_calls_def set_replicate_conv_if)
  have one: "one_setting w'" using assms(1) by (simp add: w'_def s(1) one_setting_def)
  have replies: "rw_replies w' = map answer_id (drop (length ?sends) ids) @ rest" by (simp add: w'_def s(1))
  have still: "length ?cs \<le> length (drop (length ?sends) ids)" using s(7) assms(7) by simp
  have addresses: "\<forall>r \<in> set (all_due_rows config w'). is_ok (findBalanceAddress (scan_balance r) config)"
    using assms(8) unfolding due .
  obtain log' confs' w3 where
    t: "w3 = w'\<lparr>db_faults := drop (2 * length ?cs) (db_faults w'),
             rw_replies := map answer_id (drop (length ?sends') (drop (length ?sends) ids)) @ rest, rw_log := rw_log w' @ log'\<rparr>"
      "payoutBalances order' config rpcManagers w' = for_op (record_payment config confs') (map scan_balance ?rows) w3"
      "map snd log' = map (\<lambda>(chain, m). (''sendmany'', [PString [], PAmounts m])) ?sends'"
      "distinct (map fst ?sends')"
    using payout_sends [OF calm' one assms(3,4,5) replies still addresses] unfolding due
    by (elim exE conjE) (rule that; assumption)
  obtain w'' res where again: "for_op (record_payment config confs') (map scan_balance ?rows) w3 = (w'', res)" by fastforce
  have log'': "rw_log w'' = rw_log w' @ log'" using recording_keeps_log [of config confs' "map scan_balance ?rows" w3] again
    by (simp add: t(1))
  have "set ?sends' = set ?sends"
    by (simp add: set_range_map [OF assms(2) payout_groups_distinct [OF assms(8)]]
        set_range_map [OF assms(3) payout_groups_distinct [OF assms(8)]])
  moreover have "distinct ?sends" "distinct ?sends'" using s(5) t(4) by (simp_all add: distinct_map)
  ultimately have "mset ?sends' = mset ?sends" by (simp add: set_eq_iff_mset_eq_distinct)
  then show ?thesis
    using run same due s(4,5,6,8) t(2,3) again log'' by (intro exI conjI) (assumption | simp only:)+
qed

text \<open>Two rounds, the first of which fails: Bob's coins are sent twice.\<close>

theorem payout_failure_pays_again_witness:
  "\<exists>w' w'' r send. payoutBalances rev payout_config [(''dogecoin'', example_manager)]
       ((example_world [answer_id ''tx'', answer_id ''tx2''])\<lparr>db_faults := [None, None, Some (ErrText ''down''), None, None]\<rparr>)
       = (w', Err (ErrText ''down''))
    \<and> db_payments w' = [] \<and> all_due_rows payout_config w' = [bob_row]
    \<and> payoutBalances rev payout_config [(''dogecoin'', example_manager)] w' = (w'', r)
    \<and> map snd (rw_log w'') = [send, send] \<and> fst send = ''sendmany''"
proof -
  let ?w = "(example_world [answer_id ''tx'', answer_id ''tx2''])\<lparr>db_faults := [None, None, Some (ErrText ''down''), None, None]\<rparr>"
  let ?pay = "payoutBalances rev payout_config [(''dogecoin'', example_manager)]"
  have due: "all_due_rows payout_config ?w = [bob_row]"
    using payout_config_due [of "[answer_id ''tx'', answer_id ''tx2'']"] by (simp add: all_due_rows_def)
  have w: "one_setting ?w" "rw_replies ?w = map answer_id [''tx'', ''tx2''] @ []"
    "db_faults ?w = replicate (2 * length (cf_BlockChainOrder payout_config)) None @ Some (ErrText ''down'')
      # replicate (2 * length (cf_BlockChainOrder payout_config)) None @ []"
    "2 * length (cf_BlockChainOrder payout_config) \<le> length [''tx'', ''tx2'']"
    by (simp_all add: one_setting_def payout_config_def numeral_2_eq_2)
  have bob: "\<forall>r \<in> set (all_due_rows payout_config ?w). is_ok (findBalanceAddress (scan_balance r) payout_config)"
    unfolding due using payout_config_ready(5) by (simp add: is_ok_iff)
  have some: "all_due_rows payout_config ?w \<noteq> []" unfolding due by simp
  obtain w' log sends w'' log' sends' r where w': "?pay ?w = (w', Err (ErrText ''down''))"
    "db_payments w' = db_payments ?w" "all_due_rows payout_config w' = all_due_rows payout_config ?w"
    "rw_log w' = rw_log ?w @ log"
    "map snd log = map (\<lambda>(chain, m). (''sendmany'', [PString [], PAmounts m])) sends"
    "distinct (map fst sends)" "fst ` set sends = br_chain ` set (all_due_rows payout_config ?w)"
    "?pay w' = (w'', r)" "rw_log w'' = rw_log w' @ log'"
    "map snd log' = map (\<lambda>(chain, m). (''sendmany'', [PString [], PAmounts m])) sends'" "mset sends' = mset sends"
    using payout_failure_pays_again [OF w(1) permutes_keys_examples(2,2) payout_config_ready(2,3) w(2,4) bob some w(3)]
    by (elim exE conjE) (rule that; assumption)
  have "length sends = card (set (map fst sends))" using w'(6) by (metis distinct_card length_map)
  also have "\<dots> = 1" using w'(7) unfolding due by simp
  finally obtain send where sends: "sends = [send]" by (cases sends) auto
  then have "sends' = [send]" using w'(11) by simp
  then have "map snd (rw_log w'') = [(''sendmany'', [PString [], PAmounts (snd send)]), (''sendmany'', [PString [], PAmounts (snd send)])]"
    using w'(4,5,9,10) sends by (simp add: case_prod_beta)
  then show ?thesis using w'(1-3,8) unfolding due by (intro exI conjI) (assumption | simp)+
qed

end
