(* ===== verification/PoolServer.thy ===== *)
theory PoolServer
  imports AuxPow Target Config Blocks Failover
begin

text \<open>
  The pool server's state and its dealings with the nodes: \<open>src/pool/server.go\<close>,
  \<open>nodes.go\<close>, \<open>pairs.go\<close>, \<open>policy.go\<close>, \<open>session.go\<close> and \<open>extraNonce.go\<close>. The state extends
  the database and the nodes' script by the server's fields and the package's variables. A
  pointer to a client is its number in the list of clients. What the outside decides is in
  the state too: the fresh session ids, the random numbers, the outcome of each write to a
  connection. Log lines are not kept; \<open>log.Fatal\<close> ends the program like a panic.
\<close>

section \<open>State\<close>

record blockChainNode =
  bn_NotifyURL :: string
  bn_RPC :: "RPCClient option"
  bn_ChainName :: string
  bn_Network :: string
  bn_RewardPubScriptKey :: string
  bn_RewardTo :: string
  bn_NetworkDifficulty :: flt

definition zero_blockChainNode :: blockChainNode where
  "zero_blockChainNode = \<lparr>bn_NotifyURL = '''', bn_RPC = None, bn_ChainName = '''', bn_Network = '''',
     bn_RewardPubScriptKey = '''', bn_RewardTo = '''', bn_NetworkDifficulty = 0\<rparr>"

record Pair =
  pair_BitcoinBlock :: BitcoinBlock
  pair_AuxBlocks :: "AuxBlock list"

definition Pair_GetPrimary :: "Pair \<Rightarrow> BitcoinBlock" where
  "Pair_GetPrimary p = pair_BitcoinBlock p"

definition minus_one :: "nat \<Rightarrow> nat outcome" where
  "minus_one n = (if n = 0 then Panic (PanicText ''index out of range [-1]'') else Ok (n - 1))"

definition Pair_GetAuxN :: "Pair \<Rightarrow> nat \<Rightarrow> AuxBlock outcome" where
  "Pair_GetAuxN p n = bind_out (minus_one n) (nth_out (pair_AuxBlocks p))"

record stratumClient =
  sc_ip :: string
  sc_login :: string
  sc_extranonce1 :: string
  sc_userAgent :: string
  sc_sessionID :: string

text \<open>What is written to a connection: \<open>json.RawMessage\<close> ids are kept as their text.\<close>

datatype packet =
    NotifyPacket Work
  | DifficultyPacket "flt option"
  | AuthorizePacket string bool
  | SubscribePacket string string string
  | SubmitPacket string bool
  | EmptyResponse
  | NullPacket

record pool_world = rpc_world +
  pw_activeNodes :: "(string \<times> blockChainNode) list"
  pw_rpcManagers :: "(string \<times> Manager) list"
  pw_templates :: Pair
  pw_workCache :: Work
  pw_jobCounter :: u64
  pw_shareBuffer :: "Share list"
  pw_clients :: "stratumClient list"
  pw_sessions :: "(string \<times> nat) list"
  pw_extranonces :: "string list"
  pw_numberOfConnections :: int
  pw_sent :: "(nat \<times> packet) list"
  pw_writes :: "go_error option list"
  pw_uuids :: "nat \<Rightarrow> string"
  pw_uuid_next :: nat
  pw_rand :: "nat \<Rightarrow> nat"
  pw_rand_next :: nat

type_synonym ('z, 'a) pool_op = "('z pool_world_scheme, 'a) op"

definition get_op :: "('w \<Rightarrow> 'a) \<Rightarrow> ('w, 'a) op" where
  "get_op f w = (w, Ok (f w))"

definition put_op :: "('w \<Rightarrow> 'w) \<Rightarrow> ('w, unit) op" where
  "put_op f w = (f w, Ok ())"

lemma get_op_bind [op_simps]: "bind_op (get_op f) g w = g (f w) w"
  by (simp add: bind_op_def get_op_def)

lemma put_op_bind [op_simps]: "bind_op (put_op f) g w = g () (f w)"
  by (simp add: bind_op_def put_op_def)

lemma lift_op_bind [op_simps]:
  "bind_op (lift_op r) g w = (case r of Ok x \<Rightarrow> g x w | Err e \<Rightarrow> (w, Err e) | Panic p \<Rightarrow> (w, Panic p))"
  by (simp add: bind_op_def lift_op_def)

text \<open>An error that ends the program: \<open>panicOnError\<close> and \<open>logFatalOnError\<close>.\<close>

definition panicOnError :: "('w, 'a) op \<Rightarrow> ('w, 'a) op" where
  "panicOnError f w = (case f w of (w', Err e) \<Rightarrow> (w', Panic (PanicError '''' e)) | r \<Rightarrow> r)"

text \<open>An error that is only logged: the caller goes on without the result.\<close>

definition logOnError :: "('w, 'a) op \<Rightarrow> ('w, 'a option) op" where
  "logOnError f = bind_op (try_op f) (\<lambda>r. return_op (case r of Inl _ \<Rightarrow> None | Inr x \<Rightarrow> Some x))"

section \<open>src/pool/nodes.go\<close>

definition active_node :: "string \<Rightarrow> 'z pool_world_scheme \<Rightarrow> blockChainNode" where
  "active_node chain w = (case map_of (pw_activeNodes w) chain of Some n \<Rightarrow> n | None \<Rightarrow> zero_blockChainNode)"

definition GetPrimaryNode :: "Config \<Rightarrow> ('z, blockChainNode) pool_op" where
  "GetPrimaryNode config =
     bind_op (lift_op (GetPrimary (cf_BlockChainOrder config))) (\<lambda>name. get_op (active_node name))"

definition GetAuxNNode :: "Config \<Rightarrow> nat \<Rightarrow> ('z, blockChainNode) pool_op" where
  "GetAuxNNode config n = get_op (active_node (GetAuxN (cf_BlockChainOrder config) n))"

definition load_node :: "Config \<Rightarrow> string \<Rightarrow> ('z, unit) pool_op" where
  "load_node config blockChainName =
     bind_op (get_op pw_rpcManagers) (\<lambda>managers.
     case map_of managers blockChainName of
       None \<Rightarrow> panic_op (PanicText (''Blockchain not found for: '' @ blockChainName))
     | Some rpcManager \<Rightarrow>
         bind_op (lift_op (GetActiveClient rpcManager)) (\<lambda>rpcClient.
         bind_op (lift_op (nth_out (case map_of (cf_BlockchainNodes config) blockChainName of
                             Some ns \<Rightarrow> ns | None \<Rightarrow> []) (GetIndex rpcManager))) (\<lambda>nodeConfig.
         bind_op (panicOnError (GetBlockChainInfo rpcClient)) (\<lambda>chainInfo.
         bind_op (panicOnError (ValidateAddress rpcClient (cn_RewardTo nodeConfig))) (\<lambda>rewardPubScriptKey.
         let newNode = \<lparr>bn_NotifyURL = cn_NotifyURL nodeConfig, bn_RPC = Some rpcClient,
               bn_ChainName = blockChainName, bn_Network = bi_Chain chainInfo,
               bn_RewardPubScriptKey = rewardPubScriptKey, bn_RewardTo = cn_RewardTo nodeConfig,
               bn_NetworkDifficulty = bi_NetworkDifficulty chainInfo\<rparr>
         in put_op (\<lambda>w. w\<lparr>pw_activeNodes := AList.update blockChainName newNode (pw_activeNodes w)\<rparr>))))))"

definition loadBlockchainNodes :: "Config \<Rightarrow> ('z, unit) pool_op" where
  "loadBlockchainNodes config =
     bind_op (put_op (\<lambda>w. w\<lparr>pw_activeNodes := []\<rparr>)) (\<lambda>_.
       for_op (load_node config) (cf_BlockChainOrder config))"

definition submitBlockToChain :: "Config \<Rightarrow> BitcoinBlock \<Rightarrow> ('z, unit) pool_op" where
  "submitBlockToChain config block =
     bind_op (lift_op (Submit block)) (\<lambda>submission.
     bind_op (GetPrimaryNode config) (\<lambda>node.
     bind_op (lift_op (deref (bn_RPC node))) (\<lambda>client.
     bind_op (try_op (SubmitBlock client [submission])) (\<lambda>r.
     case r of
       Inl err \<Rightarrow> fail_op (ErrWrap (bn_ChainName node @ '' primary node rejection: '') err)
     | Inr success \<Rightarrow>
         if \<not> success then panic_op PanicNil else return_op ()))))"

definition submitAuxBlock :: "Config \<Rightarrow> nat \<Rightarrow> BitcoinBlock \<Rightarrow> ('z, unit) pool_op" where
  "submitAuxBlock config n primaryBlock =
     bind_op (lift_op (MakeAuxPow primaryBlock n)) (\<lambda>auxpow.
     bind_op (GetAuxNNode config n) (\<lambda>node.
     bind_op (lift_op (deref (bb_Template primaryBlock))) (\<lambda>t.
     bind_op (lift_op (bind_out (minus_one n) (nth_out (tpl_AuxBlocks t)))) (\<lambda>auxBlock.
     bind_op (lift_op (AuxPow_Serialize auxpow)) (\<lambda>proof_text.
     bind_op (lift_op (deref (bn_RPC node))) (\<lambda>client.
     bind_op (try_op (SubmitAuxBlock client (aux_Hash auxBlock) proof_text)) (\<lambda>r.
     case r of
       Inl err \<Rightarrow> fail_op (ErrWrap (bn_ChainName node @ '' node failed to submit aux block: '') err)
     | Inr success \<Rightarrow>
         if \<not> success then panic_op PanicNil else return_op ())))))))"

text \<open>The managers are visited in the map's iteration order; the first that fails ends the loop.\<close>

fun recover_loop :: "string list \<Rightarrow> ('z, unit) pool_op" where
  "recover_loop [] = return_op ()"
| "recover_loop (coin # coins) =
     bind_op (get_op pw_rpcManagers) (\<lambda>managers.
     case map_of managers coin of
       None \<Rightarrow> recover_loop coins
     | Some manager \<Rightarrow>
         bind_op (CheckAndRecoverRPCs manager) (\<lambda>(manager, _, err).
         bind_op (put_op (\<lambda>w. w\<lparr>pw_rpcManagers := AList.update coin manager (pw_rpcManagers w)\<rparr>)) (\<lambda>_.
         case err of
           Some e \<Rightarrow> fail_op (ErrJoin (ErrText coin) e)
         | None \<Rightarrow> recover_loop coins)))"

definition Pool_CheckAndRecoverRPCs :: "(string list \<Rightarrow> string list) \<Rightarrow> ('z, unit) pool_op" where
  "Pool_CheckAndRecoverRPCs order =
     bind_op (get_op (\<lambda>w. order (map fst (pw_rpcManagers w)))) recover_loop"

section \<open>src/pool/server.go\<close>

definition zero_Template :: Template where
  "zero_Template = \<lparr>tpl_Version = 0, tpl_PrevBlockHash = '''', tpl_Height = 0, tpl_CoinBaseValue = 0,
     tpl_DefaultWitnessCommitment = '''', tpl_Bits = '''', tpl_Target = '''', tpl_Transactions = [],
     tpl_CurrentTime = 0, tpl_MimbleWimble = '''', tpl_AuxBlocks = []\<rparr>"

definition zero_AuxBlock :: AuxBlock where
  "zero_AuxBlock = \<lparr>aux_Hash = '''', aux_OtherHash = '''', aux_ChainID = 0, aux_PreviousBlockHash = '''',
     aux_CoinbaseHash = '''', aux_CoinbaseValue = 0, aux_Bits = '''', aux_Height = 0, aux_Target = '''',
     aux_Target2 = ''''\<rparr>"

definition use_target2 :: "AuxBlock \<Rightarrow> AuxBlock" where
  "use_target2 a = (if 0 < length (aux_Target2 a) then a\<lparr>aux_Target := aux_Target2 a\<rparr> else a)"

text \<open>The auxiliary chains from position \<open>i\<close> on; \<open>None\<close> is the early return without auxiliary
  blocks when a node creates none.\<close>

fun fetch_aux :: "Config \<Rightarrow> nat \<Rightarrow> string list \<Rightarrow> ('z, AuxBlock list option) pool_op" where
  "fetch_aux config i [] = return_op (Some [])"
| "fetch_aux config i (chainName # rest) =
     (if GetAuxN (cf_BlockChainOrder config) 1 = '''' then fetch_aux config (i + 1) rest
      else
        bind_op (GetAuxNNode config i) (\<lambda>node.
        bind_op (lift_op (deref (bn_RPC node))) (\<lambda>client.
        bind_op (try_op (CreateAuxBlock client (bn_RewardTo node))) (\<lambda>r.
        case r of
          Inl err \<Rightarrow> return_op None
        | Inr response \<Rightarrow>
            bind_op (lift_op (unmarshal_with raw_aux zero_AuxBlock response)) (\<lambda>auxBlock.
            bind_op (fetch_aux config (i + 1) rest) (\<lambda>others.
              return_op (map_option (\<lambda>auxs. use_target2 auxBlock # auxs) others)))))))"

definition fetchAllBlockTemplatesFromRPC :: "Config \<Rightarrow> ('z, Template \<times> AuxBlock list) pool_op" where
  "fetchAllBlockTemplatesFromRPC config =
     bind_op (GetPrimaryNode config) (\<lambda>node.
     bind_op (lift_op (deref (bn_RPC node))) (\<lambda>client.
     bind_op (map_err_op (ErrWrap ''RPC error: '') (GetBlockTemplate client)) (\<lambda>response.
     bind_op (lift_op (unmarshal_with raw_template zero_Template response)) (\<lambda>template.
     bind_op (fetch_aux config 1 (tl (cf_BlockChainOrder config))) (\<lambda>auxblocks.
       return_op (template, case auxblocks of None \<Rightarrow> [] | Some auxs \<Rightarrow> auxs))))))"

section \<open>src/pool/policy.go, src/pool/session.go, src/pool/network.go: sendPacket\<close>

definition isBanned :: "string \<Rightarrow> bool" where
  "isBanned ip = (if 0 < length ip then False else False)"

definition initiateSessions :: "('z, unit) pool_op" where
  "initiateSessions = put_op (\<lambda>w. w\<lparr>pw_sessions := []\<rparr>)"

definition client_at :: "nat \<Rightarrow> ('z, stratumClient) pool_op" where
  "client_at c = bind_op (get_op pw_clients) (\<lambda>clients. lift_op (nth_out clients c))"

definition addSession :: "nat \<Rightarrow> ('z, unit) pool_op" where
  "addSession c = bind_op (client_at c) (\<lambda>client.
     put_op (\<lambda>w. w\<lparr>pw_sessions := AList.update (sc_sessionID client) c (pw_sessions w)\<rparr>))"

definition removeSession :: "string \<Rightarrow> ('z, unit) pool_op" where
  "removeSession sessionID = put_op (\<lambda>w. w\<lparr>pw_sessions := AList.delete sessionID (pw_sessions w)\<rparr>)"

definition banClient :: "nat \<Rightarrow> ('z, unit) pool_op" where
  "banClient c = bind_op (client_at c) (\<lambda>client. removeSession (sc_sessionID client))"

definition sendPacket :: "packet \<Rightarrow> nat \<Rightarrow> ('z, unit) pool_op" where
  "sendPacket p c w =
     (case pw_writes w of
        Some e # ws \<Rightarrow> (w\<lparr>pw_writes := ws\<rparr>, Err e)
      | ws \<Rightarrow> (w\<lparr>pw_writes := tl ws, pw_sent := pw_sent w @ [(c, p)]\<rparr>, Ok ()))"

definition notifyAllSessions :: "(string list \<Rightarrow> string list) \<Rightarrow> packet \<Rightarrow> ('z, unit) pool_op" where
  "notifyAllSessions order request =
     bind_op (get_op (\<lambda>w. range_map order (pw_sessions w))) (\<lambda>entries.
       for_op (\<lambda>(_, c). bind_op (logOnError (sendPacket request c)) (\<lambda>_. return_op ())) entries)"

section \<open>src/pool/extraNonce.go\<close>

definition hex_chars :: string where "hex_chars = ''0123456789abcdef''"

definition random_hex_at :: "(nat \<Rightarrow> nat) \<Rightarrow> nat \<Rightarrow> nat \<Rightarrow> string" where
  "random_hex_at rand strlen i = map (\<lambda>k. hex_chars ! (rand (i + k) mod length hex_chars)) [0..<strlen]"

definition randomHex :: "nat \<Rightarrow> ('z, string) pool_op" where
  "randomHex strlen w =
     (w\<lparr>pw_rand_next := pw_rand_next w + strlen\<rparr>, Ok (random_hex_at (pw_rand w) strlen (pw_rand_next w)))"

text \<open>The loop may run forever: it has no value then.\<close>

partial_function (option) unique_loop ::
    "string list \<Rightarrow> nat \<Rightarrow> string \<Rightarrow> 'z pool_world_scheme \<Rightarrow> ('z pool_world_scheme \<times> string) option" where
  "unique_loop used len extranonce w =
     (if extranonce \<in> set used
      then (case randomHex len w of (w', Ok e) \<Rightarrow> unique_loop used len e w' | _ \<Rightarrow> None)
      else Some (w, extranonce))"

definition uniqueExtranonce :: "nat \<Rightarrow> 'z pool_world_scheme \<Rightarrow> ('z pool_world_scheme \<times> string) option" where
  "uniqueExtranonce len w =
     (case randomHex len w of
        (w, Ok e) \<Rightarrow>
          map_option (\<lambda>(w, e). (w\<lparr>pw_extranonces := e # pw_extranonces w\<rparr>, e))
            (unique_loop (pw_extranonces w) len e w)
      | _ \<Rightarrow> None)"

section \<open>Frames\<close>

text \<open>
  Operations all of whose steps stay within a preorder: \<open>keeps f\<close> leave a part \<open>f\<close> of the
  state alone, \<open>grows f\<close> only append to a list.
\<close>

definition stays :: "('w \<Rightarrow> 'w \<Rightarrow> bool) \<Rightarrow> ('w, 'a) op \<Rightarrow> bool" where
  "stays R m \<longleftrightarrow> (\<forall>w. R w (fst (m w)))"

definition same_part :: "('w \<Rightarrow> 'b) \<Rightarrow> 'w \<Rightarrow> 'w \<Rightarrow> bool" where
  "same_part f w w' \<longleftrightarrow> f w' = f w"

definition longer :: "('w \<Rightarrow> 'b list) \<Rightarrow> 'w \<Rightarrow> 'w \<Rightarrow> bool" where
  "longer f w w' \<longleftrightarrow> (\<exists>l. f w' = f w @ l)"

abbreviation keeps :: "('w \<Rightarrow> 'b) \<Rightarrow> ('w, 'a) op \<Rightarrow> bool" where
  "keeps f \<equiv> stays (same_part f)"

abbreviation grows :: "('w \<Rightarrow> 'b list) \<Rightarrow> ('w, 'a) op \<Rightarrow> bool" where
  "grows f \<equiv> stays (longer f)"

named_theorems frames \<open>operations that stay within a preorder\<close>

lemma preorders [frames]:
  "reflp (same_part f)" "transp (same_part f)" "reflp (longer g)" "transp (longer g)"
  by (auto simp: same_part_def longer_def intro!: reflpI transpI)

lemma keeps_def: "keeps f m \<longleftrightarrow> (\<forall>w. f (fst (m w)) = f w)"
  by (simp add: stays_def same_part_def)

lemma grows_def: "grows f m \<longleftrightarrow> (\<forall>w. \<exists>l. f (fst (m w)) = f w @ l)"
  by (simp add: stays_def longer_def)

lemma staysD: "stays R m \<Longrightarrow> m w = (w', r) \<Longrightarrow> R w w'"
  by (metis fst_conv stays_def)

lemma keepsD: "keeps f m \<Longrightarrow> m w = (w', r) \<Longrightarrow> f w' = f w"
  by (drule (1) staysD) (simp add: same_part_def)

lemma stays_bind [frames]:
  assumes "transp R" "stays R m" "\<And>x. stays R (g x)"
  shows "stays R (bind_op m g)"
proof -
  have "R w (fst (bind_op m g w))" for w
  proof (cases "m w")
    case (Pair v r)
    then have v: "R w v" using assms(2) by (metis staysD)
    show ?thesis
    proof (cases r)
      case (Ok x)
      have "R v (fst (g x v))" using assms(3) by (simp add: stays_def)
      then show ?thesis using Pair Ok v transpD [OF assms(1)] by (auto simp: bind_op_def)
    qed (use Pair v in \<open>simp_all add: bind_op_def\<close>)
  qed
  then show ?thesis by (simp add: stays_def)
qed

lemma stays_basic [frames]:
  "reflp R \<Longrightarrow> stays R (return_op x)" "reflp R \<Longrightarrow> stays R (fail_op e)" "reflp R \<Longrightarrow> stays R (panic_op p)"
  "reflp R \<Longrightarrow> stays R (lift_op r)" "reflp R \<Longrightarrow> stays R (get_op g)"
  by (simp_all add: stays_def return_op_def fail_op_def panic_op_def lift_op_def get_op_def reflpD)

lemma stays_try [frames]: "stays R m \<Longrightarrow> stays R (try_op m)"
  by (auto simp: stays_def try_op_def split: prod.splits outcome.splits) (metis fst_conv)+

lemma stays_map_err [frames]: "stays R m \<Longrightarrow> stays R (map_err_op h m)"
  by (auto simp: stays_def map_err_op_def split: prod.splits) (metis fst_conv)

lemma stays_log [frames]: "reflp R \<Longrightarrow> transp R \<Longrightarrow> stays R m \<Longrightarrow> stays R (logOnError m)"
  unfolding logOnError_def by (intro frames)

lemma stays_panicOnError [frames]: "stays R m \<Longrightarrow> stays R (panicOnError m)"
  by (auto simp: stays_def panicOnError_def split: prod.splits outcome.splits) (metis fst_conv)+

lemma stays_if [frames]: "stays R m \<Longrightarrow> stays R n \<Longrightarrow> stays R (if b then m else n)"
  by simp

lemma stays_option [frames]:
  "stays R m \<Longrightarrow> (\<And>x. stays R (g x)) \<Longrightarrow> stays R (case x of None \<Rightarrow> m | Some x \<Rightarrow> g x)"
  by (cases x) simp_all

lemma stays_sum [frames]:
  "(\<And>e. stays R (m e)) \<Longrightarrow> (\<And>x. stays R (g x)) \<Longrightarrow> stays R (case x of Inl e \<Rightarrow> m e | Inr x \<Rightarrow> g x)"
  by (cases x) simp_all

lemma stays_prod [frames]: "(\<And>a b. stays R (g a b)) \<Longrightarrow> stays R (case p of (a, b) \<Rightarrow> g a b)"
  by (cases p) simp

lemma stays_let [frames]: "(\<And>x. stays R (g x)) \<Longrightarrow> stays R (let x = t in g x)"
  by simp

lemma stays_for [frames]:
  assumes "reflp R" "transp R" "\<And>x. stays R (g x)"
  shows "stays R (for_op g xs)"
  by (induction xs) (simp_all add: frames assms)

lemma stays_put: "(\<And>w. R w (g w)) \<Longrightarrow> stays R (put_op g)"
  by (simp add: stays_def put_op_def)

lemma keeps_put: "(\<And>w. f (g w) = f w) \<Longrightarrow> keeps f (put_op g)"
  by (intro stays_put) (simp add: same_part_def)

lemma keeps_call: "(\<And>w fs. f (w\<lparr>db_faults := fs\<rparr>) = f w) \<Longrightarrow> keeps f sql_call"
  by (auto simp: keeps_def sql_call_def split: list.splits option.splits)

lemma keeps_exec:
  assumes "\<And>w fs. f (w\<lparr>db_faults := fs\<rparr>) = f w" "\<And>w w'. u w = Ok w' \<Longrightarrow> f w' = f w"
  shows "keeps f (sql_exec u)"
proof -
  have "keeps f (\<lambda>d. case u d of Ok d' \<Rightarrow> (d', Ok ()) | Err e \<Rightarrow> (d, Err e) | Panic p \<Rightarrow> (d, Panic p))"
    using assms(2) by (auto simp: keeps_def split: outcome.splits)
  then show ?thesis unfolding sql_exec_def by (intro stays_bind frames keeps_call assms(1))
qed

text \<open>A request to a node changes nothing but the script and its log, to which it adds.\<close>

definition no_request :: "('z rpc_world_scheme \<Rightarrow> 'b) \<Rightarrow> bool" where
  "no_request f \<longleftrightarrow> (\<forall>w r. f (w\<lparr>rw_replies := r\<rparr>) = f w) \<and> (\<forall>w l. f (w\<lparr>rw_log := l\<rparr>) = f w)"

definition request_order :: "('z rpc_world_scheme \<Rightarrow> 'z rpc_world_scheme \<Rightarrow> bool) \<Rightarrow> bool" where
  "request_order R \<longleftrightarrow> reflp R \<and> transp R \<and> (\<forall>r m ps. stays R (doRequest r m ps))"

lemma keeps_request_order: "no_request f \<Longrightarrow> request_order (same_part f)"
  by (auto simp: request_order_def preorders keeps_def doRequest_def no_request_def Let_def
      split: list.splits http_reply.splits)

lemma grows_request_order: "request_order (longer rw_log)"
  by (auto simp: request_order_def preorders grows_def doRequest_def Let_def split: list.splits http_reply.splits)

lemma stays_rpc:
  assumes "request_order R"
  shows "stays R (GetBlockTemplate c)" "stays R (CreateAuxBlock c a)" "stays R (SubmitBlock c s)"
    "stays R (SubmitAuxBlock c h p)" "stays R (ValidateAddress c a)" "stays R (GetBlockChainInfo c)" "stays R (Check c)"
proof -
  have o: "reflp R" "transp R" "\<And>r m ps. stays R (doRequest r m ps)" using assms by (simp_all add: request_order_def)
  have r: "stays R (request_200 r m ps)" for r m ps
    unfolding request_200_def by (intro frames o)
  show "stays R (GetBlockTemplate c)" "stays R (CreateAuxBlock c a)"
    unfolding GetBlockTemplate_def CreateAuxBlock_def by (rule r)+
  then show "stays R (Check c)" unfolding Check_def by (intro frames o) (simp add: GetBlockTemplate_def r)
  show "stays R (SubmitBlock c s)" "stays R (SubmitAuxBlock c h p)" "stays R (ValidateAddress c a)" "stays R (GetBlockChainInfo c)"
    unfolding SubmitBlock_def SubmitAuxBlock_def ValidateAddress_def GetBlockChainInfo_def
    by (intro frames o)+
qed

lemma request_order_preorder: "request_order R \<Longrightarrow> reflp R" "request_order R \<Longrightarrow> transp R"
  by (simp_all add: request_order_def)

lemmas requests = frames stays_rpc request_order_preorder

lemma stays_find_healthy: "request_order R \<Longrightarrow> stays R (find_healthy n m)"
proof (induction n arbitrary: m)
  case (Suc n)
  then show ?case
    unfolding find_healthy.simps checkActiveNodeHealth_def by (intro requests) simp_all
qed (simp add: frames request_order_def)

lemma stays_recover: "request_order R \<Longrightarrow> stays R (CheckAndRecoverRPCs m)"
  unfolding CheckAndRecoverRPCs_def FindHealthyNode_def by (intro requests stays_find_healthy)

lemma stays_fetch_aux: "request_order R \<Longrightarrow> stays R (fetch_aux config i cs)"
proof (induction cs arbitrary: i)
  case (Cons c cs)
  then show ?case unfolding fetch_aux.simps GetAuxNNode_def by (intro requests)
qed (simp add: frames request_order_def)

lemma stays_fetchAll: "request_order R \<Longrightarrow> stays R (fetchAllBlockTemplatesFromRPC config)"
  unfolding fetchAllBlockTemplatesFromRPC_def GetPrimaryNode_def
  by (intro requests stays_fetch_aux)

lemma stays_recover_loop:
  assumes "request_order R" "\<And>w m. R w (w\<lparr>pw_rpcManagers := m w\<rparr>)"
  shows "stays R (recover_loop coins)"
proof (induction coins)
  case (Cons c cs)
  then show ?case using assms(1) unfolding recover_loop.simps by (intro requests stays_recover stays_put assms(2))
qed (use assms(1) in \<open>simp add: frames request_order_def\<close>)

section \<open>An example\<close>

definition example_node :: "string \<Rightarrow> blockChainNode" where
  "example_node n = \<lparr>bn_NotifyURL = '''', bn_RPC = Some (example_client n), bn_ChainName = n, bn_Network = ''main'',
     bn_RewardPubScriptKey = '''', bn_RewardTo = n @ '' reward'', bn_NetworkDifficulty = 0\<rparr>"

text \<open>A pool of the given chains, each with one node named after it.\<close>

definition example_pool :: "string list \<Rightarrow> http_reply list \<Rightarrow> Pair \<Rightarrow> pool_world" where
  "example_pool order replies templates = rpc_world.extend (example_world replies)
     (pool_world.fields (map (\<lambda>n. (n, example_node n)) order)
        (map (\<lambda>n. (n, \<lparr>mg_chainName = n, mg_activeIndex = 0, mg_clients = [example_client n, example_client (n @ ''2'')],
           mg_primaryCheckInterval = 1\<rparr>)) order)
        templates [] 0 [] [] [] [] 0 [] [] (\<lambda>n. show_dec n) 0 (\<lambda>n. n) 0)"

lemma example_pool_simps [simp]:
  "rw_replies (example_pool order rs p) = rs" "rw_log (example_pool order rs p) = []"
  "db_faults (example_pool order rs p) = []" "db_shares (example_pool order rs p) = []"
  "db_blocks (example_pool order rs p) = []" "db_now (example_pool order rs p) = 1000"
  "pw_templates (example_pool order rs p) = p" "pw_shareBuffer (example_pool order rs p) = []"
  "pw_sessions (example_pool order rs p) = []" "pw_clients (example_pool order rs p) = []"
  "pw_extranonces (example_pool order rs p) = []" "pw_numberOfConnections (example_pool order rs p) = 0"
  "pw_sent (example_pool order rs p) = []" "pw_writes (example_pool order rs p) = []"
  "pw_activeNodes (example_pool order rs p) = map (\<lambda>n. (n, example_node n)) order"
  "pw_rand (example_pool order rs p) = (\<lambda>n. n)" "pw_rand_next (example_pool order rs p) = 0"
  "pw_rpcManagers (example_pool order rs p) = map (\<lambda>n. (n, \<lparr>mg_chainName = n, mg_activeIndex = 0,
      mg_clients = [example_client n, example_client (n @ ''2'')], mg_primaryCheckInterval = 1\<rparr>)) order"
  by (simp_all add: example_pool_def rpc_world.defs pool_world.defs example_world_def db.defs example_db_def)

end
