(* ===== verification/Receive.thy ===== *)
theory Receive
  imports PoolServer
begin

text \<open>
  \<open>src/pool/work.go\<close>: fetching templates and caching the work made from them, and what the
  server does with a submission. Its parts run one after the other here; the lock around the
  share buffer and the concurrent flush are theory \<open>ShareBuffer\<close>. A returned error's text
  leaves out the formatted floats.
\<close>

section \<open>Work for the clients\<close>

definition fetch_templates ::
    "(string list \<Rightarrow> string list) \<Rightarrow> Config \<Rightarrow> ('z, Template \<times> AuxBlock list) pool_op" where
  "fetch_templates order config =
     bind_op (try_op (fetchAllBlockTemplatesFromRPC config)) (\<lambda>r.
     case r of
       Inr fetched \<Rightarrow> return_op fetched
     | Inl _ \<Rightarrow>
         bind_op (Pool_CheckAndRecoverRPCs order) (\<lambda>_. fetchAllBlockTemplatesFromRPC config))"

definition cache_work ::
    "(bytes \<Rightarrow> bytes \<Rightarrow> bytes) \<Rightarrow> (bytes \<Rightarrow> bytes) \<Rightarrow> Config \<Rightarrow> Template \<Rightarrow> AuxBlock list \<Rightarrow> ('z, unit) pool_op" where
  "cache_work scryptKey ripemd config template auxblocks =
     bind_op (put_op (\<lambda>w. w\<lparr>pw_templates := (pw_templates w)\<lparr>pair_AuxBlocks := auxblocks\<rparr>\<rparr>)) (\<lambda>_.
     let template = template\<lparr>tpl_AuxBlocks := auxblocks\<rparr> in
     bind_op (lift_op (createMergedMiningCoinbase auxblocks 0)) (\<lambda>scriptSig.
     bind_op (lift_op (hexStringToByteString scriptSig)) (\<lambda>commitment.
     let auxillary = cf_BlockSignature config @ commitment in
     bind_op (lift_op (GetPrimary (cf_BlockChainOrder config))) (\<lambda>primaryName.
     bind_op (GetPrimaryNode config) (\<lambda>node.
     bind_op (get_op pw_jobCounter) (\<lambda>jobCounter.
     bind_op (try_op (lift_op (GenerateWork scryptKey ripemd jobCounter (Some template) primaryName auxillary
                                 (bn_RewardPubScriptKey node) 8))) (\<lambda>r.
     case r of
       Inl _ \<Rightarrow> bind_op (put_op (\<lambda>w. w\<lparr>pw_workCache := []\<rparr>)) (\<lambda>_. panic_op PanicNil)
     | Inr (jobCounter, block, work) \<Rightarrow>
         put_op (\<lambda>w. w\<lparr>pw_jobCounter := jobCounter, pw_workCache := work,
                       pw_templates := (pw_templates w)\<lparr>pair_BitcoinBlock := block\<rparr>\<rparr>))))))))"

definition fetchRpcBlockTemplatesAndCacheWork ::
    "(bytes \<Rightarrow> bytes \<Rightarrow> bytes) \<Rightarrow> (bytes \<Rightarrow> bytes) \<Rightarrow> (string list \<Rightarrow> string list) \<Rightarrow> Config \<Rightarrow> ('z, unit) pool_op" where
  "fetchRpcBlockTemplatesAndCacheWork scryptKey ripemd order config =
     bind_op (fetch_templates order config) (\<lambda>(template, auxblocks).
       cache_work scryptKey ripemd config template auxblocks)"

definition generateWorkFromCache :: "bool \<Rightarrow> ('z, Work) pool_op" where
  "generateWorkFromCache refresh = get_op (\<lambda>w. pw_workCache w @ [WBool refresh])"

section \<open>src/pool/requests.go, src/pool/server.go: broadcastWork\<close>

definition miningNotify :: "Work \<Rightarrow> packet" where
  "miningNotify work = NotifyPacket work"

text \<open>JSON has no NaN and no infinities: the error is logged and the parameters stay nil.\<close>

definition miningSetDifficulty :: "flt \<Rightarrow> packet" where
  "miningSetDifficulty difficulty =
     DifficultyPacket (case difficulty of Fin _ \<Rightarrow> Some difficulty | _ \<Rightarrow> None)"

definition broadcastWork :: "(string list \<Rightarrow> string list) \<Rightarrow> Work \<Rightarrow> ('z, unit) pool_op" where
  "broadcastWork order work = notifyAllSessions order (miningNotify work)"

section \<open>A submission\<close>

definition work_string :: "Work \<Rightarrow> nat \<Rightarrow> string outcome" where
  "work_string share slot =
     bind_out (nth_out share slot) (\<lambda>item. case item of WString s \<Rightarrow> Ok s | _ \<Rightarrow> Panic PanicType)"

text \<open>The header goes into the handler's copy of the block, which the result carries.\<close>

definition read_submission ::
    "BitcoinBlock \<Rightarrow> Work \<Rightarrow> stratumClient \<Rightarrow> (string \<times> string \<times> BitcoinBlock) outcome" where
  "read_submission block share client =
     bind_out (work_string share 0) (\<lambda>workerString.
     let parts = split_on CHR ''.'' workerString in
     if length parts < 2 then Err (ErrText ''invalid miner address'')
     else
     bind_out (work_string share NonceSubmissionSlot) (\<lambda>nonce.
     bind_out (work_string share (fst Extranonce2SubmissionSlot)) (\<lambda>extranonce2.
     bind_out (work_string share NonceTimeSubmissionSlot) (\<lambda>nonceTime.
     case MakeHeader block (sc_extranonce1 client @ extranonce2) nonce nonceTime of
       (block, Ok _) \<Rightarrow> Ok (parts ! 0, parts ! 1, block)
     | (_, Err e) \<Rightarrow> Err e
     | (_, Panic p) \<Rightarrow> Panic p))))"

definition weigh_submission ::
    "Config \<Rightarrow> BitcoinBlock \<Rightarrow> string \<Rightarrow> stratumClient \<Rightarrow> (BitcoinBlock \<times> nat \<times> bool list \<times> flt \<times> flt) outcome" where
  "weigh_submission config block rigID client =
     bind_out (validateAndWeighShare block (cf_PoolDifficulty config)) (\<lambda>(block, status, candidate, shareDifficulty).
     bind_out (deref (bb_Template block)) (\<lambda>t.
     if status = shareInvalid
     then Err (ErrText (''Invalid share for block '' @ show_dec (unat (tpl_Height t)) @ '' from '' @ sc_ip client
            @ '' ['' @ rigID @ ''] ['' @ sc_userAgent client @ '']''))
     else
     bind_out (ToDifficulty (tpl_Target t)) (\<lambda>difficulty.
     bind_out (BitcoinBlock_ShareMultiplier block) (\<lambda>multiplier.
       Ok (block, status, candidate, shareDifficulty, difficulty * multiplier)))))"

definition share_of ::
    "Config \<Rightarrow> u64 \<Rightarrow> string \<Rightarrow> string \<Rightarrow> stratumClient \<Rightarrow> flt \<Rightarrow> flt \<Rightarrow> int \<Rightarrow> Share" where
  "share_of config height minerAddress rigID client shareDifficulty blockDifficulty now =
     \<lparr>sh_PoolID = cf_PoolName config, sh_BlockHeight = height, sh_Miner = minerAddress, sh_Worker = rigID,
      sh_UserAgent = sc_userAgent client, sh_Difficulty = shareDifficulty,
      sh_NetworkDifficulty = blockDifficulty, sh_IpAddress = sc_ip client, sh_Created = now\<rparr>"

definition record_primary ::
    "Config \<Rightarrow> BitcoinBlock \<Rightarrow> u64 \<Rightarrow> flt \<Rightarrow> Found \<Rightarrow> ('z, Found) pool_op" where
  "record_primary config block height blockDifficulty found =
     bind_op (lift_op (GetPrimary (cf_BlockChainOrder config))) (\<lambda>chain.
     bind_op (logOnError (lift_op (HeaderHashed block))) (\<lambda>hash.
     bind_op (logOnError (lift_op (CoinbaseHashed block))) (\<lambda>coinbase.
     bind_op (get_op db_now) (\<lambda>now.
     let found = found\<lparr>fd_Chain := chain, fd_Created := now,
           fd_Hash := (case hash of Some h \<Rightarrow> h | None \<Rightarrow> ''''),
           fd_NetworkDifficulty := blockDifficulty, fd_BlockHeight := height,
           fd_TransactionConfirmationData := (case coinbase of Some c \<Rightarrow> c | None \<Rightarrow> '''')\<rparr> in
     bind_op (logOnError (Found_Insert found)) (\<lambda>_.
       return_op (found\<lparr>fd_Chain := ''''\<rparr>))))))"

definition primary_candidate ::
    "Config \<Rightarrow> BitcoinBlock \<Rightarrow> u64 \<Rightarrow> flt \<Rightarrow> Found \<Rightarrow> ('z, Found) pool_op" where
  "primary_candidate config block height blockDifficulty found =
     bind_op (submitBlockToChain config block) (\<lambda>_. record_primary config block height blockDifficulty found)"

definition aux_candidate ::
    "(bytes \<Rightarrow> bytes \<Rightarrow> bytes) \<Rightarrow> Config \<Rightarrow> BitcoinBlock \<Rightarrow> nat \<Rightarrow> string \<Rightarrow> AuxBlock \<Rightarrow> Found \<Rightarrow> ('z, Found) pool_op" where
  "aux_candidate scryptKey config block i chainName auxBlock found =
     bind_op (try_op (submitAuxBlock config i block)) (\<lambda>r.
     case r of
       Inl err \<Rightarrow> return_op found
     | Inr _ \<Rightarrow>
         bind_op (lift_op (pool_reverseHexBytes (aux_Target auxBlock))) (\<lambda>aux1Target.
         bind_op (lift_op (ToDifficulty aux1Target)) (\<lambda>auxDifficulty.
         bind_op (lift_op (GetChain scryptKey chainName)) (\<lambda>chain.
         bind_op (get_op db_now) (\<lambda>now.
         bind_op (lift_op (pool_reverseHexBytes (aux_CoinbaseHash auxBlock))) (\<lambda>coinbase.
         let found = found\<lparr>fd_Chain := chainName, fd_Created := now, fd_Hash := aux_Hash auxBlock,
               fd_NetworkDifficulty := auxDifficulty * ShareMultiplier chain,
               fd_BlockHeight := aux_Height auxBlock, fd_TransactionConfirmationData := coinbase\<rparr> in
         bind_op (logOnError (Found_Insert found)) (\<lambda>_. return_op found)))))))"

fun aux_loop ::
    "(bytes \<Rightarrow> bytes \<Rightarrow> bytes) \<Rightarrow> Config \<Rightarrow> BitcoinBlock \<Rightarrow> bool list \<Rightarrow> nat \<Rightarrow> string list \<Rightarrow> Found \<Rightarrow> ('z, unit) pool_op" where
  "aux_loop scryptKey config block candidate i [] found = return_op ()"
| "aux_loop scryptKey config block candidate i (chainName # rest) found =
     bind_op (get_op pw_templates) (\<lambda>templates.
     bind_op (lift_op (Pair_GetAuxN templates i)) (\<lambda>auxBlock.
     bind_op (lift_op (nth_out candidate i)) (\<lambda>c.
     bind_op (if c then aux_candidate scryptKey config block i chainName auxBlock found
              else return_op found) (\<lambda>found.
       aux_loop scryptKey config block candidate (i + 1) rest found))))"

definition candidate_found :: "Config \<Rightarrow> bool list \<Rightarrow> string \<Rightarrow> Found" where
  "candidate_found config candidate minerAddress =
     zero_Found\<lparr>fd_PoolID := cf_PoolName config, fd_Status := StatusPending,
       fd_Type := show_dec (length (filter (\<lambda>c. c) candidate)) @ '' candidates'', fd_Miner := minerAddress\<rparr>"

definition submit_candidates ::
    "(bytes \<Rightarrow> bytes \<Rightarrow> bytes) \<Rightarrow> Config \<Rightarrow> BitcoinBlock \<Rightarrow> u64 \<Rightarrow> bool list \<Rightarrow> string \<Rightarrow> flt \<Rightarrow> ('z, unit) pool_op" where
  "submit_candidates scryptKey config block height candidate minerAddress blockDifficulty =
     bind_op (lift_op (nth_out candidate 0)) (\<lambda>primary.
     bind_op (if primary
              then primary_candidate config block height blockDifficulty
                     (candidate_found config candidate minerAddress)
              else return_op (candidate_found config candidate minerAddress)) (\<lambda>found.
       aux_loop scryptKey config block candidate 1 (tl (cf_BlockChainOrder config)) found))"

definition recieveWorkFromClient ::
    "(bytes \<Rightarrow> bytes \<Rightarrow> bytes) \<Rightarrow> Config \<Rightarrow> Work \<Rightarrow> stratumClient \<Rightarrow> ('z, unit) pool_op" where
  "recieveWorkFromClient scryptKey config share client =
     bind_op (get_op (\<lambda>w. Pair_GetPrimary (pw_templates w))) (\<lambda>block.
     case bb_Template block of
       None \<Rightarrow> fail_op (ErrText ''primary block template not yet set'')
     | Some t \<Rightarrow>
         bind_op (lift_op (read_submission block share client)) (\<lambda>(minerAddress, rigID, block).
         bind_op (lift_op (weigh_submission config block rigID client))
           (\<lambda>(block, status, candidate, shareDifficulty, blockDifficulty).
         bind_op (put_op (\<lambda>w. w\<lparr>pw_shareBuffer := pw_shareBuffer w @
                    [share_of config (tpl_Height t) minerAddress rigID client shareDifficulty blockDifficulty (db_now w)]\<rparr>)) (\<lambda>_.
         if status = shareValid then return_op ()
         else
         submit_candidates scryptKey config block (tpl_Height t) candidate minerAddress blockDifficulty))))"

lemma recieve_refused:
  assumes "bb_Template (Pair_GetPrimary (pw_templates w)) = Some t"
  shows "read_submission (Pair_GetPrimary (pw_templates w)) share client = Err e
      \<Longrightarrow> recieveWorkFromClient k config share client w = (w, Err e)"
    "read_submission (Pair_GetPrimary (pw_templates w)) share client = Panic p
      \<Longrightarrow> recieveWorkFromClient k config share client w = (w, Panic p)"
    "read_submission (Pair_GetPrimary (pw_templates w)) share client = Ok (m, rig, b)
      \<Longrightarrow> weigh_submission config b rig client = Err e
      \<Longrightarrow> recieveWorkFromClient k config share client w = (w, Err e)"
    "read_submission (Pair_GetPrimary (pw_templates w)) share client = Ok (m, rig, b)
      \<Longrightarrow> weigh_submission config b rig client = Panic p
      \<Longrightarrow> recieveWorkFromClient k config share client w = (w, Panic p)"
  using assms by (simp_all add: recieveWorkFromClient_def get_op_bind lift_op_bind)

lemma recieve_no_template:
  "bb_Template (Pair_GetPrimary (pw_templates w)) = None
    \<Longrightarrow> recieveWorkFromClient k config share client w = (w, Err (ErrText ''primary block template not yet set''))"
  by (simp add: recieveWorkFromClient_def get_op_bind fail_op_def)

lemma recieve_accepted:
  assumes "bb_Template (Pair_GetPrimary (pw_templates w)) = Some t"
    and "read_submission (Pair_GetPrimary (pw_templates w)) share client = Ok (m, rig, b)"
    and "weigh_submission config b rig client = Ok (b', st, cand, sd, bd)"
  shows "recieveWorkFromClient k config share client w =
     (let w1 = w\<lparr>pw_shareBuffer := pw_shareBuffer w @ [share_of config (tpl_Height t) m rig client sd bd (db_now w)]\<rparr>
      in if st = shareValid then (w1, Ok ()) else submit_candidates k config b' (tpl_Height t) cand m bd w1)"
  using assms by (simp add: recieveWorkFromClient_def get_op_bind lift_op_bind put_op_bind return_op_def Let_def)

end
