(* ===== verification/ShareBuffer.thy ===== *)
theory ShareBuffer
  imports Receive
begin

text \<open>
  The share buffer between the clients' handlers and the database: \<open>src/pool/buffer.go\<close> and
  the locked section of \<open>recieveWorkFromClient\<close>. The handlers and the flushing goroutine
  interleave at the boundaries of the locked sections: a step of \<open>buffer_step\<close> runs the handler
  \<open>recieveWorkFromClient\<close> or one half of the flush, \<open>take_buffer\<close> or \<open>write_shares\<close>. The theorems say
  that no share is lost or stored twice on the way.
\<close>

section \<open>src/pool/buffer.go\<close>

definition take_buffer :: "('z, Share list) pool_op" where
  "take_buffer =
     bind_op (get_op pw_shareBuffer) (\<lambda>sharesToWrite.
     bind_op (put_op (\<lambda>w. w\<lparr>pw_shareBuffer := []\<rparr>)) (\<lambda>_. return_op sharesToWrite))"

definition write_shares :: "Share list \<Rightarrow> ('z, unit) pool_op" where
  "write_shares sharesToWrite =
     bind_op (try_op (Share_InsertBatch sharesToWrite)) (\<lambda>r.
     case r of
       Inl err \<Rightarrow> put_op (\<lambda>w. w\<lparr>pw_shareBuffer := pw_shareBuffer w @ sharesToWrite\<rparr>)
     | Inr _ \<Rightarrow> return_op ())"

text \<open>One round of \<open>flushShareBufferAtInterval\<close>, without the sleep.\<close>

definition flushShareBuffer :: "('z, unit) pool_op" where
  "flushShareBuffer = bind_op take_buffer write_shares"

section \<open>What a handler does to the buffer\<close>

definition share_view :: "'z pool_world_scheme \<Rightarrow> Share list \<times> share_row list" where
  "share_view w = (pw_shareBuffer w, db_shares w)"

lemma share_view_order: "request_order (same_part share_view)"
  by (intro keeps_request_order) (simp add: no_request_def share_view_def)

lemma keeps_Found_Insert: "keeps share_view (Found_Insert b)"
  unfolding Found_Insert_def Let_def
  by (intro keeps_exec) (auto simp: share_view_def bind_out_eq_Ok split: if_splits)

lemma keeps_candidates:
  "keeps share_view (primary_candidate config block h bd found)"
  "keeps share_view (aux_candidate k config block i c a found)"
  unfolding primary_candidate_def record_primary_def submitBlockToChain_def GetPrimaryNode_def aux_candidate_def submitAuxBlock_def GetAuxNNode_def
  by (intro requests share_view_order keeps_Found_Insert)+

lemma keeps_aux_loop: "keeps share_view (aux_loop k config block cs i names found)"
proof (induction names arbitrary: i found)
  case (Cons c names)
  then show ?case unfolding aux_loop.simps by (intro frames keeps_candidates)
qed (simp add: frames)

text \<open>What a handler adds to the buffer is decided by the cached work, the submission and the client.\<close>

definition accepted_share :: "Config \<Rightarrow> Pair \<Rightarrow> Work \<Rightarrow> stratumClient \<Rightarrow> (int \<Rightarrow> Share) option" where
  "accepted_share config templates share client =
     Option.bind (bb_Template (Pair_GetPrimary templates)) (\<lambda>t.
     case read_submission (Pair_GetPrimary templates) share client of
       Ok (m, rig, b) \<Rightarrow>
         (case weigh_submission config b rig client of
            Ok (b', st, cand, sd, bd) \<Rightarrow> Some (share_of config (tpl_Height t) m rig client sd bd)
          | _ \<Rightarrow> None)
     | _ \<Rightarrow> None)"

lemma recieve_buffers:
  fixes w :: "'z pool_world_scheme"
  shows "share_view (fst (recieveWorkFromClient k config share client w))
    = (pw_shareBuffer w @ (case accepted_share config (pw_templates w) share client of
         None \<Rightarrow> [] | Some s \<Rightarrow> [s (db_now w)]), db_shares w)"
proof (cases "bb_Template (Pair_GetPrimary (pw_templates w))")
  case None
  then show ?thesis using recieve_no_template [OF None] by (simp add: accepted_share_def share_view_def)
next
  case (Some t)
  show ?thesis
  proof (cases "read_submission (Pair_GetPrimary (pw_templates w)) share client")
    case (Ok sub)
    obtain m rig b where sub: "read_submission (Pair_GetPrimary (pw_templates w)) share client = Ok (m, rig, b)"
      using Ok by (cases sub) auto
    show ?thesis
    proof (cases "weigh_submission config b rig client")
      case (Ok weight)
      obtain b' st cand sd bd where weight: "weigh_submission config b rig client = Ok (b', st, cand, sd, bd)"
        using Ok by (cases weight) auto
      have "keeps share_view (submit_candidates k config b' (tpl_Height t) cand m bd :: ('z, unit) pool_op)"
        unfolding submit_candidates_def by (intro frames keeps_candidates keeps_aux_loop)
      then have same: "share_view (fst (submit_candidates k config b' (tpl_Height t) cand m bd v)) = share_view v"
        for v :: "'z pool_world_scheme"
        by (simp add: keeps_def)
      define w1 where "w1 = w\<lparr>pw_shareBuffer := pw_shareBuffer w @ [share_of config (tpl_Height t) m rig client sd bd (db_now w)]\<rparr>"
      have "share_view (fst (recieveWorkFromClient k config share client w)) = share_view w1"
        using recieve_accepted [OF Some sub weight, of k] same [of w1] by (simp add: Let_def w1_def)
      then show ?thesis by (simp add: Some sub weight accepted_share_def share_view_def w1_def)
    qed (use recieve_refused(3,4) [OF Some sub] Some sub in \<open>simp_all add: accepted_share_def share_view_def\<close>)
  qed (use recieve_refused(1,2) [OF Some] Some in \<open>simp_all add: accepted_share_def share_view_def\<close>)
qed

section \<open>Handlers and the flush, interleaved\<close>

text \<open>
  A state of the two: the world, the shares the flush holds, and (what the program does not
  keep) the shares received and the shares stored so far. The steps run the program's own
  operations: a handler judges a submission, the flush takes the buffer, the flush writes what
  it took. Between the flush's two halves handlers run any number of times. A share that comes
  between a failed batch and the lock the flush then waits for stands in the same buffer as one
  that came just before the batch. \<open>bf_received\<close> gains what the specification
  \<open>accepted_share\<close> says the submission is worth, \<open>bf_stored\<close> gains the batch when the
  insert reports no error.
\<close>

record buffering =
  bf_world :: "unit pool_world_scheme"
  bf_flight :: "Share list option"
  bf_received :: "Share list"
  bf_stored :: "Share list"

definition received_share :: "Config \<Rightarrow> Work \<Rightarrow> stratumClient \<Rightarrow> 'z pool_world_scheme \<Rightarrow> Share list" where
  "received_share config share client w =
     (case accepted_share config (pw_templates w) share client of None \<Rightarrow> [] | Some s \<Rightarrow> [s (db_now w)])"

definition stored_batch :: "Share list \<Rightarrow> 'z db_scheme \<Rightarrow> Share list" where
  "stored_batch shares d = (case snd (Share_InsertBatch shares d) of Ok _ \<Rightarrow> shares | _ \<Rightarrow> [])"

inductive buffer_step :: "(bytes \<Rightarrow> bytes \<Rightarrow> bytes) \<Rightarrow> Config \<Rightarrow> buffering \<Rightarrow> buffering \<Rightarrow> bool"
  for scryptKey :: "bytes \<Rightarrow> bytes \<Rightarrow> bytes" and config :: Config where
  receive: "recieveWorkFromClient scryptKey config share client (bf_world s) = (w', r) \<Longrightarrow>
    buffer_step scryptKey config s
      (s\<lparr>bf_world := w', bf_received := bf_received s @ received_share config share client (bf_world s)\<rparr>)"
| take_all: "bf_flight s = None \<Longrightarrow> take_buffer (bf_world s) = (w', Ok shares) \<Longrightarrow>
    buffer_step scryptKey config s (s\<lparr>bf_world := w', bf_flight := Some shares\<rparr>)"
| writes: "bf_flight s = Some shares \<Longrightarrow> write_shares shares (bf_world s) = (w', r) \<Longrightarrow>
    buffer_step scryptKey config s
      (s\<lparr>bf_world := w', bf_flight := None, bf_stored := bf_stored s @ stored_batch shares (bf_world s)\<rparr>)"
| other: "pw_shareBuffer w' = pw_shareBuffer (bf_world s) \<Longrightarrow> db_shares w' = db_shares (bf_world s) \<Longrightarrow>
    buffer_step scryptKey config s (s\<lparr>bf_world := w'\<rparr>)"

definition in_flight :: "buffering \<Rightarrow> Share list" where
  "in_flight s = (case bf_flight s of None \<Rightarrow> [] | Some shares \<Rightarrow> shares)"

definition shares_conserved :: "share_row list \<Rightarrow> buffering \<Rightarrow> bool" where
  "shares_conserved initial s \<longleftrightarrow>
     mset (bf_received s) = mset (pw_shareBuffer (bf_world s)) + mset (in_flight s) + mset (bf_stored s)
   \<and> (\<exists>rows. db_shares (bf_world s) = initial @ rows \<and> traverse share_to_row (bf_stored s) = Ok rows)"

lemma take_buffer_value: "take_buffer w = (w\<lparr>pw_shareBuffer := []\<rparr>, Ok (pw_shareBuffer w))"
  by (simp add: take_buffer_def op_simps return_op_def)

lemma traverse_append:
  "traverse f xs = Ok ys \<Longrightarrow> traverse f zs = Ok us \<Longrightarrow> traverse f (xs @ zs) = Ok (ys @ us)"
  by (induction xs arbitrary: ys) (auto simp: bind_out_eq_Ok)

text \<open>Writing a batch stores all of it, or puts all of it back into the buffer.\<close>

lemma write_shares_outcome:
  fixes w :: "'z pool_world_scheme"
  shows "\<exists>fs. (stored_batch shares w = shares \<and> (\<exists>rows. traverse share_to_row shares = Ok rows
        \<and> write_shares shares w = (w\<lparr>db_shares := db_shares w @ rows, db_faults := fs\<rparr>, Ok ())))
    \<or> (stored_batch shares w = []
        \<and> write_shares shares w = (w\<lparr>pw_shareBuffer := pw_shareBuffer w @ shares, db_faults := fs\<rparr>, Ok ()))"
proof -
  obtain d r where run: "Share_InsertBatch shares w = (d, r)" by (cases "Share_InsertBatch shares w")
  obtain fs where fs: "case (d, r) of
      (d', Ok _) \<Rightarrow> (\<exists>rows. traverse share_to_row shares = Ok rows \<and> d' = w\<lparr>db_shares := db_shares w @ rows, db_faults := fs\<rparr>)
    | (d', Err e) \<Rightarrow> d' = w\<lparr>db_faults := fs\<rparr> | (d', Panic p) \<Rightarrow> False"
    using InsertBatch_outcome [of shares w] unfolding run by blast
  show ?thesis
    by (rule exI [of _ fs], use fs run in \<open>cases r\<close>)
      (auto simp: write_shares_def stored_batch_def bind_op_def try_op_def put_op_def return_op_def)
qed

lemma conserved_step:
  assumes "buffer_step scryptKey config s s'" "shares_conserved initial s"
  shows "shares_conserved initial s'"
  using assms
proof (cases rule: buffer_step.cases)
  case (receive share client w' r)
  have "share_view w' = (pw_shareBuffer (bf_world s) @ received_share config share client (bf_world s), db_shares (bf_world s))"
    using recieve_buffers [of scryptKey config share client "bf_world s"] receive(2) by (simp add: received_share_def)
  then show ?thesis
    using assms(2) receive(1) by (simp add: shares_conserved_def in_flight_def share_view_def)
next
  case (writes shares w' r)
  obtain stored where stored: "db_shares (bf_world s) = initial @ stored" "traverse share_to_row (bf_stored s) = Ok stored"
    using assms(2) unfolding shares_conserved_def by blast
  show ?thesis
    using write_shares_outcome [of shares "bf_world s"] assms(2) writes stored traverse_append [OF stored(2), of shares]
    by (auto simp: shares_conserved_def in_flight_def ac_simps)
next
  case (take_all w' shares)
  then have "w' = (bf_world s)\<lparr>pw_shareBuffer := []\<rparr>" "shares = pw_shareBuffer (bf_world s)"
    by (simp_all add: take_buffer_value)
  then show ?thesis using assms(2) take_all(1,2) by (simp add: shares_conserved_def in_flight_def)
qed (simp add: shares_conserved_def in_flight_def)

definition start_buffering :: "unit pool_world_scheme \<Rightarrow> buffering" where
  "start_buffering w = \<lparr>bf_world = w, bf_flight = None, bf_received = pw_shareBuffer w, bf_stored = []\<rparr>"

lemma conserved_start: "shares_conserved (db_shares w) (start_buffering w)"
  by (simp add: shares_conserved_def start_buffering_def in_flight_def)

text \<open>
  C3. No received share is lost or stored twice. However the handlers' judging of submissions,
  the flush and its failing batches interleave, every share whose submission was accepted is at
  any time in exactly one of three places: the buffer, the hands of the flush, the table of
  shares; and the rows the table has gained are exactly those of the shares whose batch was
  inserted. In particular a batch that fails goes back into the buffer whole.
\<close>

theorem every_share_in_one_place:
  assumes "(buffer_step scryptKey config)\<^sup>*\<^sup>* (start_buffering w) s"
  shows "mset (bf_received s) = mset (pw_shareBuffer (bf_world s)) + mset (in_flight s) + mset (bf_stored s)
    \<and> (\<exists>rows. db_shares (bf_world s) = db_shares w @ rows \<and> traverse share_to_row (bf_stored s) = Ok rows)"
proof -
  from assms have "shares_conserved (db_shares w) s"
  proof (induction rule: rtranclp_induct)
    case base
    show ?case by (rule conserved_start)
  next
    case (step t u)
    show ?case using conserved_step [OF step(2)] step.IH .
  qed
  then show ?thesis unfolding shares_conserved_def .
qed

section \<open>A round of the flush\<close>

lemma map_op_Cons:
  "f x w = (w1, Ok y) \<Longrightarrow> map_op f xs w1 = (w2, Ok ys) \<Longrightarrow> map_op f (x # xs) w = (w2, Ok (y # ys))"
  by (simp add: bind_op_def return_op_def)

lemma calm_rows:
  assumes "no_faults d" "traverse share_to_row shares = Ok rows"
  shows "\<exists>fs. map_op (\<lambda>share. bind_op sql_call (\<lambda>_. lift_op (share_to_row share))) shares d
      = (d\<lparr>db_faults := fs\<rparr>, Ok rows) \<and> no_faults (d\<lparr>db_faults := fs\<rparr>)"
  using assms
proof (induction shares arbitrary: d rows)
  case Nil
  then show ?case by (intro exI [of _ "db_faults d"]) (simp add: return_op_def)
next
  case (Cons x xs)
  obtain r rs where r: "share_to_row x = Ok r" "traverse share_to_row xs = Ok rs" "rows = r # rs"
    using Cons.prems(2) by (auto simp: bind_out_eq_Ok)
  have nf: "no_faults (d\<lparr>db_faults := tl (db_faults d)\<rparr>)" using Cons.prems(1) by simp
  let ?f = "\<lambda>share. bind_op sql_call (\<lambda>_. lift_op (share_to_row share))"
  have head: "?f x d = (d\<lparr>db_faults := tl (db_faults d)\<rparr>, Ok r)"
    using Cons.prems(1) r(1) by (simp add: bind_op_def sql_call_ok lift_op_def)
  obtain fs where fs: "map_op ?f xs (d\<lparr>db_faults := tl (db_faults d)\<rparr>) = (d\<lparr>db_faults := fs\<rparr>, Ok rs)"
      "no_faults (d\<lparr>db_faults := fs\<rparr>)"
    using Cons.IH [OF nf r(2)] by auto
  have "map_op ?f (x # xs) d = (d\<lparr>db_faults := fs\<rparr>, Ok rows)"
    unfolding r(3) using head fs(1) by (rule map_op_Cons)
  then show ?case using fs(2) by blast
qed

lemma calm_InsertBatch:
  assumes "no_faults d" "traverse share_to_row shares = Ok rows"
  shows "\<exists>fs. Share_InsertBatch shares d = (d\<lparr>db_shares := db_shares d @ rows, db_faults := fs\<rparr>, Ok ())"
proof -
  let ?d = "\<lambda>d. d\<lparr>db_faults := tl (db_faults d)\<rparr>"
  have nf: "no_faults (?d d)" "no_faults (?d (?d d))" using assms(1) by (simp_all add: no_faults_def in_set_tlD)
  define put_rows :: "('a db_scheme, share_row list) op"
    where "put_rows = map_op (\<lambda>share. bind_op sql_call (\<lambda>_. lift_op (share_to_row share))) shares"
  obtain fs where fs: "put_rows (?d (?d d))
      = (d\<lparr>db_faults := fs\<rparr>, Ok rows)" "no_faults (d\<lparr>db_faults := fs\<rparr>)"
    using calm_rows [OF nf(2) assms(2)] unfolding put_rows_def by auto
  have nf': "no_faults (d\<lparr>db_faults := tl fs\<rparr>)" "no_faults (d\<lparr>db_faults := tl (tl fs)\<rparr>)"
    using fs(2) by (auto simp: no_faults_def dest: in_set_tlD)
  show ?thesis
    using assms(1) nf fs nf'
    by (intro exI [of _ "tl (tl (tl fs))"]) (simp add: Share_InsertBatch_def put_rows_def [symmetric] bind_op_def sql_call_ok sql_exec_ok Let_def)
qed

definition writable :: "Share \<Rightarrow> bool" where
  "writable s \<longleftrightarrow> unat (sh_BlockHeight s) < 2 ^ 63"

lemma writable_rows: "(\<exists>rows. traverse share_to_row shares = Ok rows) \<longleftrightarrow> (\<forall>s \<in> set shares. writable s)"
proof (induction shares)
  case (Cons s ss)
  have "(\<exists>r. share_to_row s = Ok r) \<longleftrightarrow> writable s" by (auto simp: share_to_row_def writable_def not_less)
  then show ?case using Cons by (auto simp: bind_out_eq_Ok)
qed simp

text \<open>
  C15. The flush makes progress: in whatever way a state was reached, when the flush holds
  nothing, the driver accepts the buffered shares and the database answers, one more round
  leaves the buffer empty, and then every share ever received is stored.
\<close>

theorem flush_stores_everything:
  assumes "(buffer_step scryptKey config)\<^sup>*\<^sup>* (start_buffering w) s" "bf_flight s = None" "no_faults (bf_world s)"
    and "\<forall>share \<in> set (pw_shareBuffer (bf_world s)). writable share"
  shows "\<exists>s'. (buffer_step scryptKey config)\<^sup>*\<^sup>* s s' \<and> flushShareBuffer (bf_world s) = (bf_world s', Ok ())
    \<and> pw_shareBuffer (bf_world s') = [] \<and> in_flight s' = [] \<and> bf_received s' = bf_received s
    \<and> mset (bf_received s') = mset (bf_stored s')"
proof -
  let ?w = "bf_world s" and ?shares = "pw_shareBuffer (bf_world s)"
  let ?w1 = "?w\<lparr>pw_shareBuffer := []\<rparr>"
  obtain rows where rows: "traverse share_to_row ?shares = Ok rows" using writable_rows assms(4) by blast
  have "no_faults ?w1" using assms(3) by (simp add: no_faults_def)
  then obtain w2 where w2: "Share_InsertBatch ?shares ?w1 = (w2, Ok ())" "pw_shareBuffer w2 = []"
    using calm_InsertBatch [OF _ rows] by fastforce
  let ?s1 = "s\<lparr>bf_world := ?w1, bf_flight := Some ?shares\<rparr>"
  let ?s2 = "s\<lparr>bf_world := w2, bf_flight := None, bf_stored := bf_stored s @ ?shares\<rparr>"
  have writes: "write_shares ?shares ?w1 = (w2, Ok ())"
    using w2(1) by (simp add: write_shares_def bind_op_def try_op_def return_op_def)
  have one: "buffer_step scryptKey config s ?s1"
    by (rule buffer_step.take_all) (simp_all add: assms(2) take_buffer_value)
  have two: "buffer_step scryptKey config ?s1 ?s2"
    using buffer_step.writes [of ?s1 ?shares w2 "Ok ()"] writes w2(1) by (simp add: stored_batch_def)
  have steps: "(buffer_step scryptKey config)\<^sup>*\<^sup>* s ?s2"
    using one two by (meson rtranclp.rtrancl_into_rtrancl rtranclp.rtrancl_refl)
  have run: "flushShareBuffer ?w = (w2, Ok ())"
    by (simp add: flushShareBuffer_def bind_op_def take_buffer_value writes)
  have "shares_conserved (db_shares w) s"
    using assms(1) by (induction rule: rtranclp_induct) (auto intro: conserved_step conserved_start)
  then have "mset (bf_received s) = mset (bf_stored s @ ?shares)"
    using assms(2) by (simp add: shares_conserved_def in_flight_def)
  then show ?thesis using steps run w2(2) by (intro exI [of _ ?s2]) (simp add: in_flight_def)
qed

text \<open>
  One share that the driver refuses blocks the buffer: as long as it is in the buffer no
  round stores anything, whatever the database does, and the buffer keeps every share.
\<close>

theorem unwritable_share_blocks_the_flush:
  assumes "s \<in> set (pw_shareBuffer w)" "\<not> writable s"
  shows "\<exists>w' r. flushShareBuffer w = (w', r) \<and> db_shares w' = db_shares w \<and> pw_shareBuffer w' = pw_shareBuffer w \<and> r = Ok ()"
proof -
  let ?w1 = "w\<lparr>pw_shareBuffer := []\<rparr>"
  have none: "traverse share_to_row (pw_shareBuffer w) \<noteq> Ok rows" for rows using writable_rows assms by blast
  obtain w2 r where run: "Share_InsertBatch (pw_shareBuffer w) ?w1 = (w2, r)" by (cases "Share_InsertBatch (pw_shareBuffer w) ?w1")
  then obtain fs e where w2: "w2 = ?w1\<lparr>db_faults := fs\<rparr>" "r = Err e"
    using InsertBatch_outcome [of "pw_shareBuffer w" ?w1] none by (cases r) auto
  show ?thesis
    using run w2 by (simp add: flushShareBuffer_def bind_op_def take_buffer_value write_shares_def try_op_def put_op_def)
qed

section \<open>A concrete run\<close>

definition example_buffered :: Share where
  "example_buffered = \<lparr>sh_PoolID = ''p'', sh_BlockHeight = 7, sh_Miner = ''bob'', sh_Worker = ''rig'', sh_UserAgent = '''',
     sh_Difficulty = 1, sh_NetworkDifficulty = 1, sh_IpAddress = '''', sh_Created = 1000\<rparr>"

definition empty_pool :: pool_world where
  "empty_pool = example_pool [] [] \<lparr>pair_BitcoinBlock = empty_block, pair_AuxBlocks = []\<rparr>"

definition buffered_pool :: "Share list \<Rightarrow> pool_world" where
  "buffered_pool shares = empty_pool\<lparr>pw_shareBuffer := shares\<rparr>"

theorem unwritable_share_blocks_the_flush_witness:
  "\<exists>w' r. flushShareBuffer (buffered_pool [example_buffered, example_buffered\<lparr>sh_BlockHeight := 2 ^ 63\<rparr>]) = (w', r)
     \<and> db_shares w' = [] \<and> length (pw_shareBuffer w') = 2"
proof -
  let ?bad = "example_buffered\<lparr>sh_BlockHeight := 2 ^ 63\<rparr>"
  let ?w = "buffered_pool [example_buffered, ?bad]"
  have "?bad \<in> set (pw_shareBuffer ?w)" "\<not> writable ?bad" "db_shares ?w = []" "length (pw_shareBuffer ?w) = 2"
    by (simp_all add: buffered_pool_def writable_def empty_pool_def)
  then show ?thesis using unwritable_share_blocks_the_flush [of ?bad ?w] by metis
qed

end
