(* ===== verification/Submission.thy ===== *)
theory Submission
  imports ShareBuffer
begin

text \<open>
  From a template to a stored share: what the work the server serves is worth when a miner
  returns it, and what goes wrong on the way: submissions that bring the server down, shares
  that count twice, blocks that are lost.
\<close>

section \<open>Serving and judging work\<close>

lemma Sum_keeps: "Sum b = (b', r) \<Longrightarrow> bb_Template b' = bb_Template b \<and> bb_chain b' = bb_chain b \<and> bb_header b' = bb_header b"
  by (auto simp: Generator.Sum_def split: option.splits if_splits outcome.splits)

lemma pool_target_of_pos: "pool_target d = Some pt \<Longrightarrow> \<exists>x. d / Fin 65536 = Fin x \<and> 0 < x \<and> pt = target_of x"
  by (auto simp: pool_target_def split: flt.splits if_splits)

lemma weigh_submission_value:
  assumes "Sum b = (b', Ok s)" "bb_Template b' = Some t" "bb_chain b' = Some chain"
    and "ShareMultiplier chain = Fin 65536" "pool_target (cf_PoolDifficulty config) = Some pt"
    and "ToBig (tpl_Target t) = Some nt" "\<forall>a \<in> set (tpl_AuxBlocks t). aux_target a \<noteq> None"
  shows "let cand = (int s \<le> nt) # map (\<lambda>a. int s \<le> the (aux_target a)) (tpl_AuxBlocks t) in
    if True \<in> set cand \<or> int s \<le> pt
    then \<exists>status. weigh_submission config b rig client
       = Ok (b', status, cand, difficulty_of pt, difficulty_of nt * Fin 65536)
       \<and> (status = shareValid \<longleftrightarrow> True \<notin> set cand)
    else \<exists>m. weigh_submission config b rig client = Err (ErrText m)"
  using validateAndWeighShare_value [OF assms] ToDifficulty_big [OF assms(6)] assms(2-4)
  by (auto simp: weigh_submission_def Let_def BitcoinBlock_ShareMultiplier_def shareValid_def shareInvalid_def
      shareCandidate_def image_iff)

lemma cache_work_run:
  assumes "createMergedMiningCoinbase auxs 0 = Ok sig" "hexStringToByteString sig = Ok commitment"
    and "cf_BlockChainOrder config = primary # names"
    and "GenerateWork scryptKey ripemd (pw_jobCounter w) (Some (t\<lparr>tpl_AuxBlocks := auxs\<rparr>)) primary
      (cf_BlockSignature config @ commitment) (bn_RewardPubScriptKey (active_node primary w)) 8 = Ok (j, b, work)"
  shows "cache_work scryptKey ripemd config t auxs w
    = (w\<lparr>pw_templates := \<lparr>pair_BitcoinBlock = b, pair_AuxBlocks = auxs\<rparr>, pw_jobCounter := j, pw_workCache := work\<rparr>, Ok ())"
proof -
  let ?w = "w\<lparr>pw_templates := (pw_templates w)\<lparr>pair_AuxBlocks := auxs\<rparr>\<rparr>"
  have "active_node primary ?w = active_node primary w" by (simp add: active_node_def)
  then show ?thesis
    using assms
    by (simp add: cache_work_def put_op_bind get_op_bind lift_op_bind GetPrimaryNode_def GetPrimary_def bind_op_assoc
        put_op_def, cases "pw_templates w") (simp add: bind_op_def try_op_def lift_op_def put_op_def)
qed

definition submission :: "string \<Rightarrow> string \<Rightarrow> string \<Rightarrow> string \<Rightarrow> string \<Rightarrow> string \<Rightarrow> Work" where
  "submission miner rig job extranonce2 nTime nonce =
     [WString (miner @ ''.'' @ rig), WString job, WString extranonce2, WString nTime, WString nonce]"

lemma read_submission_value:
  assumes "CHR ''.'' \<notin> set miner" "CHR ''.'' \<notin> set rig"
    and "MakeHeader b (sc_extranonce1 client @ extranonce2) nonce nTime = (b', Ok h)"
  shows "read_submission b (submission miner rig job extranonce2 nTime nonce) client = Ok (miner, rig, b')"
  using assms by (simp add: read_submission_def submission_def work_string_def split_on_append split_on_none
      NonceSubmissionSlot_def NonceTimeSubmissionSlot_def Extranonce2SubmissionSlot_def)

text \<open>What the pool adds to its signature: the commitment to the auxiliary blocks.\<close>

definition aux_commitment :: "AuxBlock list \<Rightarrow> string" where
  "aux_commitment auxs =
     (case bind_out (createMergedMiningCoinbase auxs 0) hexStringToByteString of Ok s \<Rightarrow> s | _ \<Rightarrow> '''')"

lemma aux_commitment_value:
  assumes "list_all (\<lambda>a. valid_hex (aux_Hash a)) auxs" "length auxs \<le> 8"
  shows "\<exists>sig. createMergedMiningCoinbase auxs 0 = Ok sig \<and> hexStringToByteString sig = Ok (aux_commitment auxs)"
proof -
  obtain bs where "createMergedMiningCoinbase auxs 0 = Ok (EncodeToString bs)"
    using commitment_value [OF assms] by blast
  then show ?thesis by (simp add: aux_commitment_def hexStringToByteString_def)
qed

text \<open>A submission that was rebuilt is judged by the value of its header's hash.\<close>

lemma judged_submission:
  fixes w :: "'z pool_world_scheme"
  assumes template: "bb_Template (Pair_GetPrimary (pw_templates w)) = Some t"
    and read: "read_submission (Pair_GetPrimary (pw_templates w)) share client = Ok (miner, rig, b)"
    and sum: "Sum b = (b', Ok s)" "bb_Template b' = Some t" "bb_chain b' = Some chain"
    and chain: "GetChain scryptKey name = Ok chain" and pool: "pool_target (cf_PoolDifficulty config) = Some pt"
    and nets: "ToBig (tpl_Target t) = Some nt" "\<forall>a \<in> set (tpl_AuxBlocks t). aux_target a \<noteq> None"
  shows "if int s \<le> pt \<or> int s \<le> nt \<or> (\<exists>a \<in> set (tpl_AuxBlocks t). int s \<le> the (aux_target a))
    then pw_shareBuffer (fst (recieveWorkFromClient scryptKey config share client w))
      = pw_shareBuffer w @ [share_of config (tpl_Height t) miner rig client (difficulty_of pt) (difficulty_of nt * Fin 65536) (db_now w)]
    else fst (recieveWorkFromClient scryptKey config share client w) = w
      \<and> (\<exists>e. snd (recieveWorkFromClient scryptKey config share client w) = Err e)"
proof -
  let ?cand = "(int s \<le> nt) # map (\<lambda>a. int s \<le> the (aux_target a)) (tpl_AuxBlocks t)"
  let ?ok = "int s \<le> pt \<or> int s \<le> nt \<or> (\<exists>a \<in> set (tpl_AuxBlocks t). int s \<le> the (aux_target a))"
  have ok: "?ok \<longleftrightarrow> True \<in> set ?cand \<or> int s \<le> pt" by auto
  note weigh = weigh_submission_value [OF sum blockchain.share_multiplier [OF GetChain_blockchain [OF chain]] pool nets,
      unfolded Let_def, of rig client, simplified]
  let ?run = "recieveWorkFromClient scryptKey config share client w"
  show ?thesis
  proof (cases ?ok)
    case True
    then obtain status where status: "weigh_submission config b rig client
       = Ok (b', status, ?cand, difficulty_of pt, difficulty_of nt * Fin 65536)"
      using weigh by (auto split: if_splits)
    define w1 where "w1 = w\<lparr>pw_shareBuffer := pw_shareBuffer w @ [share_of config (tpl_Height t) miner rig client
        (difficulty_of pt) (difficulty_of nt * Fin 65536) (db_now w)]\<rparr>"
    have "?run = (if status = shareValid then (w1, Ok ())
        else submit_candidates scryptKey config b' (tpl_Height t) ?cand miner (difficulty_of nt * Fin 65536) w1)"
      unfolding w1_def using recieve_accepted [OF template read status] by (simp add: Let_def)
    moreover have "keeps share_view (submit_candidates scryptKey config b' (tpl_Height t) ?cand miner (difficulty_of nt * Fin 65536))"
      unfolding submit_candidates_def by (intro frames keeps_candidates keeps_aux_loop)
    ultimately have "share_view (fst ?run) = share_view w1" by (auto simp: keeps_def)
    then show ?thesis using True by (simp add: share_view_def w1_def)
  next
    case False
    then obtain m where "weigh_submission config b rig client = Err (ErrText m)"
      using weigh by (auto split: if_splits)
    then show ?thesis using False recieve_refused(3) [OF template read] by simp
  qed
qed

text \<open>
  C1. The server judges its own work by what it is. Work is made from a template and
  auxiliary blocks, and a miner completes the coinbase by putting the session's and its own
  extranonce, eight bytes together, between the two halves in the work it was sent, and
  chooses a time and a nonce. The share is accepted exactly when the value of the chain's hash
  of the header of that very coinbase is at most the pool's target, the primary chain's or
  that of one of the auxiliary blocks; then exactly one share is buffered for the named miner
  and rig, weighed with the pool's difficulty, and otherwise nothing changes and the miner's
  work is an error. The header commits to the completed coinbase, which reads as a
  transaction with the height, the miner's extranonce, the signature and commitment and the
  outputs, and to every transaction of the template; with fields of the protocol's sizes
  it has 80 bytes.
\<close>

theorem served_work_is_judged:
  fixes w :: "'z pool_world_scheme"
  assumes "list_all (\<lambda>a. valid_hex (aux_Hash a)) auxs" "length auxs \<le> 8"
    and "cf_BlockChainOrder config = primary # names" "GetChain scryptKey primary = Ok chain"
    and "workable ripemd (t\<lparr>tpl_AuxBlocks := auxs\<rparr>) (cf_BlockSignature config @ aux_commitment auxs)
      (bn_RewardPubScriptKey (active_node primary w)) kb wb"
    and "DecodeString (sc_extranonce1 client @ extranonce2) = Ok eb" "length eb = 8"
    and "decodes (map tx_ID (tpl_Transactions t)) ids"
    and "DecodeString (tpl_PrevBlockHash t) = Ok pb" "DecodeString nTime = Ok tb"
    and "DecodeString (tpl_Bits t) = Ok bits" "DecodeString nonce = Ok nb"
    and "CHR ''.'' \<notin> set miner" "CHR ''.'' \<notin> set rig"
    and "pool_target (cf_PoolDifficulty config) = Some pt" "ToBig (tpl_Target t) = Some nt"
    and "\<forall>a \<in> set auxs. aux_target a \<noteq> None"
  shows "\<exists>w' coinbase1 coinbase2 h cb header. cache_work scryptKey ripemd config t auxs w = (w', Ok ())
    \<and> pw_workCache w' ! 2 = WString coinbase1 \<and> pw_workCache w' ! 3 = WString coinbase2
    \<and> DecodeString (coinbase1 @ sc_extranonce1 client @ extranonce2 @ coinbase2) = Ok cb
    \<and> encodeNumber (tpl_Height t) = Ok h
    \<and> read_coinbase cb = Some (pool_coinbase h eb (cf_BlockSignature config @ aux_commitment auxs)
        (coinbase_outs (ripemd (Sum256 kb)) kb wb (tpl_CoinBaseValue t)), [])
    \<and> header = le_bytes 4 (ucast (tpl_Version t) :: u32) @ rev pb
       @ tree_root doubleSha256Bytes (doubleSha256Bytes cb # map rev ids) @ rev tb @ rev bits @ rev nb
    \<and> (length pb = 32 \<and> length tb = 4 \<and> length bits = 4 \<and> length nb = 4 \<longrightarrow> length header = 80)
    \<and> (let s = int (le_value (scryptKey header header));
           run = recieveWorkFromClient scryptKey config (submission miner rig job extranonce2 nTime nonce) client w' in
       if s \<le> pt \<or> s \<le> nt \<or> (\<exists>a \<in> set auxs. s \<le> the (aux_target a))
       then pw_shareBuffer (fst run) = pw_shareBuffer w @ [share_of config (tpl_Height t) miner rig client
              (difficulty_of pt) (difficulty_of nt * Fin 65536) (db_now w)]
       else fst run = w' \<and> (\<exists>e. snd run = Err e))"
proof -
  let ?t = "t\<lparr>tpl_AuxBlocks := auxs\<rparr>" and ?sig = "cf_BlockSignature config @ aux_commitment auxs"
  let ?extranonce = "sc_extranonce1 client @ extranonce2"
  obtain sig where sig: "createMergedMiningCoinbase auxs 0 = Ok sig" "hexStringToByteString sig = Ok (aux_commitment auxs)"
    using aux_commitment_value [OF assms(1,2)] by blast
  have t: "decodes (map tx_ID (tpl_Transactions ?t)) ids" "DecodeString (tpl_PrevBlockHash ?t) = Ok pb"
    "DecodeString (tpl_Bits ?t) = Ok bits" "ToBig (tpl_Target ?t) = Some nt" "\<forall>a \<in> set (tpl_AuxBlocks ?t). aux_target a \<noteq> None"
    using assms(8,9,11,16,17) by simp_all
  obtain b work b' h cb header where g:
    "GenerateWork scryptKey ripemd (pw_jobCounter w) (Some ?t) primary ?sig
       (bn_RewardPubScriptKey (active_node primary w)) 8 = Ok (pw_jobCounter w + 1, b, work)"
    "work ! 2 = WString (bb_coinbaseInitial b)" "work ! 3 = WString (bb_coinbaseFinal b)"
    "bb_Template b = Some ?t" "bb_Template b' = Some ?t" "bb_chain b' = Some chain"
    "encodeNumber (tpl_Height ?t) = Ok h"
    "DecodeString (bb_coinbaseInitial b @ ?extranonce @ bb_coinbaseFinal b) = Ok cb"
    "read_coinbase cb = Some (pool_coinbase h eb ?sig
        (coinbase_outs (ripemd (Sum256 kb)) kb wb (tpl_CoinBaseValue ?t)), [])"
    "header = header_bytes (tpl_Version ?t) pb cb ids tb bits nb"
    "MakeHeader b ?extranonce nonce nTime = (b', Ok (EncodeToString header))"
    "snd (Sum b') = Ok (le_value (scryptKey header header))"
    by (rule mined_header [OF assms(5,4,6,7) t(1,2) assms(10) t(3) assms(12), where jobs = "pw_jobCounter w"])
  let ?s = "le_value (scryptKey header header)"
  obtain b2 where sum: "Sum b' = (b2, Ok ?s)" using g(12) by (cases "Sum b'") auto
  then have b2: "Sum b' = (b2, Ok ?s)" "bb_Template b2 = Some ?t" "bb_chain b2 = Some chain"
    using Sum_keeps [OF sum] g(5,6) by simp_all
  define w' where "w' = w\<lparr>pw_templates := \<lparr>pair_BitcoinBlock = b, pair_AuxBlocks = auxs\<rparr>,
    pw_jobCounter := pw_jobCounter w + 1, pw_workCache := work\<rparr>"
  have run: "cache_work scryptKey ripemd config t auxs w = (w', Ok ())"
    unfolding w'_def by (rule cache_work_run [OF sig assms(3) g(1)])
  have cache: "pw_workCache w' ! 2 = WString (bb_coinbaseInitial b)" "pw_workCache w' ! 3 = WString (bb_coinbaseFinal b)"
    using g(2,3) by (simp_all add: w'_def)
  have block: "Pair_GetPrimary (pw_templates w') = b" by (simp add: w'_def Pair_GetPrimary_def)
  have template: "bb_Template (Pair_GetPrimary (pw_templates w')) = Some ?t" using g(4) block by simp
  have read: "read_submission (Pair_GetPrimary (pw_templates w')) (submission miner rig job extranonce2 nTime nonce) client
      = Ok (miner, rig, b')"
    unfolding block using read_submission_value [OF assms(13,14) g(11)] .
  have same: "pw_shareBuffer w' = pw_shareBuffer w" "db_now w' = db_now w" "tpl_Height ?t = tpl_Height t" "tpl_AuxBlocks ?t = auxs"
    by (simp_all add: w'_def)
  have size: "length pb = 32 \<and> length tb = 4 \<and> length bits = 4 \<and> length nb = 4 \<longrightarrow> length header = 80"
    unfolding g(10) by (simp add: header_bytes_length)
  note judged = judged_submission [OF template read b2 assms(4,15) t(4,5), unfolded same]
  show ?thesis
    unfolding Let_def
    by (rule exI [of _ w'], rule exI [of _ "bb_coinbaseInitial b"], rule exI [of _ "bb_coinbaseFinal b"],
        rule exI [of _ h], rule exI [of _ cb], rule exI [of _ header])
      (intro conjI, rule run, rule cache, rule cache, use g(8) in simp, use g(7) in simp, use g(9) in simp,
       use g(10) in \<open>simp add: header_bytes_def\<close>, rule size, rule judged)
qed

section \<open>Submissions that bring the server down\<close>





section \<open>The same share again\<close>

lemma accepted_share_time:
  assumes "accepted_share config templates share client = Some g"
  shows "(g now)\<lparr>sh_Created := now'\<rparr> = g now'"
proof -
  obtain t where t: "bb_Template (Pair_GetPrimary templates) = Some t"
    using assms by (auto simp: accepted_share_def bind_eq_Some_conv)
  obtain m rig b where sub: "read_submission (Pair_GetPrimary templates) share client = Ok (m, rig, b)"
    using assms t by (cases "read_submission (Pair_GetPrimary templates) share client") (auto simp: accepted_share_def)
  show ?thesis
    using assms t sub by (cases "weigh_submission config b rig client") (auto simp: accepted_share_def share_of_def)
qed

text \<open>
  C30. Submissions are not compared with earlier ones. Whatever share a submission added to
  the buffer, the same submission adds again at any later time, as long as the cached work is
  the same, and so does everyone who sends it with the same extranonce.
\<close>

theorem replayed_submission_counts_again:
  assumes "pw_shareBuffer (fst (recieveWorkFromClient k config share client w)) = pw_shareBuffer w @ [s]"
    and "pw_templates v = pw_templates w"
  shows "pw_shareBuffer (fst (recieveWorkFromClient k config share client v))
    = pw_shareBuffer v @ [s\<lparr>sh_Created := db_now v\<rparr>]"
proof -
  let ?a = "accepted_share config (pw_templates w) share client"
  have w: "pw_shareBuffer (fst (recieveWorkFromClient k config share client w))
      = pw_shareBuffer w @ (case ?a of None \<Rightarrow> [] | Some s \<Rightarrow> [s (db_now w)])"
    using recieve_buffers [of k config share client w] by (simp add: share_view_def)
  have v: "pw_shareBuffer (fst (recieveWorkFromClient k config share client v))
      = pw_shareBuffer v @ (case ?a of None \<Rightarrow> [] | Some s \<Rightarrow> [s (db_now v)])"
    using recieve_buffers [of k config share client v] assms(2) by (simp add: share_view_def)
  obtain g where g: "?a = Some g" "s = g (db_now w)" using w assms(1) by (auto split: option.splits)
  have "(g now)\<lparr>sh_Created := now'\<rparr> = g now'" for now now'
    using accepted_share_time [OF g(1)] .
  then show ?thesis using v g by simp
qed

section \<open>Blocks that are lost\<close>

definition log_view :: "'z pool_world_scheme \<Rightarrow> (string \<times> string \<times> rpc_param list) list" where
  "log_view w = rw_log w"

lemma submitBlockToChain_asks:
  assumes "cf_BlockChainOrder config = primary # names" "bn_RPC (active_node primary w) = Some client" "Submit b = Ok sub"
    and "rw_replies w = reply # rest"
  defines "w1 \<equiv> w\<lparr>rw_log := rw_log w @ [(rpc_Name client, ''submitblock'', [PString sub])], rw_replies := rest\<rparr>"
  shows "submitBlockToChain config b w = (w1,
    case reply of
      TransportError e \<Rightarrow> Err (ErrWrap (bn_ChainName (active_node primary w) @ '' primary node rejection: '') e)
    | HttpReply resp status \<Rightarrow>
        if status \<noteq> 200 \<or> rs_Result resp \<noteq> RawNull
        then Err (ErrWrap (bn_ChainName (active_node primary w) @ '' primary node rejection: '')
               (ErrText (''HTTP ('' @ show_dec status @ '') error-msg: '' @ rs_ErrorMessage resp)))
        else Ok ())"
  unfolding w1_def using assms(1-4)
  by (cases reply)
    (simp_all add: submitBlockToChain_def GetPrimaryNode_def GetPrimary_def get_op_def bind_op_def lift_op_def
      SubmitBlock_def doRequest_def try_op_def fail_op_def return_op_def Let_def)

lemma keeps_blocks_log: "keeps rw_log (logOnError (Found_Insert f))"
  unfolding Found_Insert_def Let_def by (intro frames keeps_exec) (auto simp: bind_out_eq_Ok split: if_splits)

lemma aux_loop_no_aux:
  assumes "pair_AuxBlocks (pw_templates w) = []"
  shows "aux_loop k config b cand 1 (c # cs) f w = (w, Panic (PanicIndex 0 0))"
  using assms by (simp add: get_op_bind lift_op_bind Pair_GetAuxN_def minus_one_def)

lemma keeps_templates:
  "keeps pw_templates (submitBlockToChain config b)" "keeps pw_templates (logOnError (Found_Insert f))"
proof -
  have "request_order (same_part pw_templates)" by (intro keeps_request_order) (simp add: no_request_def)
  then show "keeps pw_templates (submitBlockToChain config b)"
    unfolding submitBlockToChain_def GetPrimaryNode_def by (intro requests)
  show "keeps pw_templates (logOnError (Found_Insert f))"
    unfolding Found_Insert_def Let_def by (intro frames keeps_exec) (auto simp: bind_out_eq_Ok split: if_splits)
qed

text \<open>
  C19. A rejected primary block takes the auxiliary blocks with it. When a share is a
  candidate for the primary chain and the primary node refuses the block, the handler returns
  at once: nothing more is asked of any node, whatever other chains the share is a candidate
  for, and no block is recorded.
\<close>

theorem rejected_primary_loses_aux_blocks:
  assumes "bb_Template (Pair_GetPrimary (pw_templates w)) = Some t"
    and "read_submission (Pair_GetPrimary (pw_templates w)) share client = Ok (m, rig, b)"
    and "weigh_submission config b rig client = Ok (b', st, True # aux, sd, bd)" "st \<noteq> shareValid"
    and "cf_BlockChainOrder config = primary # names" "bn_RPC (active_node primary w) = Some node"
    and "Submit b' = Ok sub" "rw_replies w = HttpReply resp status # rest" "status \<noteq> 200 \<or> rs_Result resp \<noteq> RawNull"
  shows "\<exists>w' e. recieveWorkFromClient k config share client w = (w', Err e)
    \<and> rw_log w' = rw_log w @ [(rpc_Name node, ''submitblock'', [PString sub])] \<and> db_blocks w' = db_blocks w"
proof -
  let ?w = "w\<lparr>pw_shareBuffer := pw_shareBuffer w @ [share_of config (tpl_Height t) m rig client sd bd (db_now w)]\<rparr>"
  have "bn_RPC (active_node primary ?w) = Some node" "rw_replies ?w = HttpReply resp status # rest"
    using assms(6,8) by (simp_all add: active_node_def)
  note submit = submitBlockToChain_asks [OF assms(5) this(1) assms(7) this(2)]
  have "recieveWorkFromClient k config share client w
      = submit_candidates k config b' (tpl_Height t) (True # aux) m bd ?w"
    using recieve_accepted [OF assms(1-3)] assms(4) by (simp add: Let_def)
  then show ?thesis
    using submit assms(9)
    by (simp add: submit_candidates_def lift_op_bind primary_candidate_def) (simp add: bind_op_def)
qed

text \<open>After the node took the block only panics can stop the handler from reaching the loop.\<close>

definition never_Err :: "('w, 'a) op \<Rightarrow> bool" where
  "never_Err m \<longleftrightarrow> (\<forall>w e. snd (m w) \<noteq> Err e)"

lemma never_Err_bind: "never_Err m \<Longrightarrow> (\<And>x. never_Err (g x)) \<Longrightarrow> never_Err (bind_op m g)"
  unfolding never_Err_def bind_op_def by (auto split: prod.splits outcome.splits) (metis snd_conv)+

lemma never_Err_basic: "never_Err (return_op x)" "never_Err (get_op f)" "never_Err (logOnError m)"
  by (auto simp: never_Err_def return_op_def get_op_def logOnError_def try_op_def bind_op_def split: prod.splits outcome.splits)

lemma record_primary_outcome:
  assumes "cf_BlockChainOrder config = primary # names"
  shows "never_Err (record_primary config block h bd found)" "keeps rw_log (record_primary config block h bd found)"
    "keeps pw_templates (record_primary config block h bd found)"
proof -
  show "never_Err (record_primary config block h bd found)"
    unfolding record_primary_def Let_def using assms
    by (intro never_Err_bind never_Err_basic) (simp add: never_Err_def lift_op_def GetPrimary_def)
  show "keeps rw_log (record_primary config block h bd found)" "keeps pw_templates (record_primary config block h bd found)"
    unfolding record_primary_def by (intro frames keeps_blocks_log keeps_templates)+
qed

text \<open>The node has the block, then the loop over the chains reads the first of no auxiliary blocks.\<close>

lemma candidate_without_aux:
  assumes "bb_Template (Pair_GetPrimary (pw_templates w)) = Some t" "pair_AuxBlocks (pw_templates w) = []"
    and "read_submission (Pair_GetPrimary (pw_templates w)) share client = Ok (m, rig, b)"
    and "weigh_submission config b rig client = Ok (b', st, True # aux, sd, bd)" "st \<noteq> shareValid"
    and "cf_BlockChainOrder config = primary # aux1 # names" "bn_RPC (active_node primary w) = Some node"
    and "Submit b' = Ok sub" "rw_replies w = ok_reply RawNull # rest"
  shows "\<exists>w' p. recieveWorkFromClient k config share client w = (w', Panic p)
    \<and> rw_log w' = rw_log w @ [(rpc_Name node, ''submitblock'', [PString sub])]"
proof -
  let ?w = "w\<lparr>pw_shareBuffer := pw_shareBuffer w @ [share_of config (tpl_Height t) m rig client sd bd (db_now w)]\<rparr>"
  define v0 where "v0 = ?w\<lparr>rw_log := rw_log ?w @ [(rpc_Name node, ''submitblock'', [PString sub])], rw_replies := rest\<rparr>"
  let ?found = "candidate_found config (True # aux) m"
  have "bn_RPC (active_node primary ?w) = Some node" "rw_replies ?w = ok_reply RawNull # rest"
    using assms(7,9) by (simp_all add: active_node_def)
  from submitBlockToChain_asks [OF assms(6) this(1) assms(8) this(2)]
  have submit: "submitBlockToChain config b' ?w = (v0, Ok ())" by (simp add: ok_reply_def v0_def)
  obtain v r where rest: "record_primary config b' (tpl_Height t) bd ?found v0 = (v, r)"
    by (cases "record_primary config b' (tpl_Height t) bd ?found v0")
  note out = record_primary_outcome [OF assms(6), of b' "tpl_Height t" bd ?found]
  have log: "rw_log v = rw_log w @ [(rpc_Name node, ''submitblock'', [PString sub])]"
    using keepsD [OF out(2) rest] by (simp add: v0_def)
  have aux: "pair_AuxBlocks (pw_templates v) = []" using keepsD [OF out(3) rest] assms(2) by (simp add: v0_def)
  have "recieveWorkFromClient k config share client w
      = submit_candidates k config b' (tpl_Height t) (True # aux) m bd ?w"
    using recieve_accepted [OF assms(1,3,4)] assms(5) by (simp add: Let_def)
  also have "\<dots> = (case (v, r) of (v, Ok found) \<Rightarrow> aux_loop k config b' (True # aux) 1 (aux1 # names) found v
      | (v, Err e) \<Rightarrow> (v, Err e) | (v, Panic p) \<Rightarrow> (v, Panic p))"
    unfolding submit_candidates_def lift_op_bind primary_candidate_def
    by (simp add: bind_op_def submit rest assms(6) del: aux_loop.simps)
  finally have run: "recieveWorkFromClient k config share client w
      = (case r of Ok found \<Rightarrow> aux_loop k config b' (True # aux) 1 (aux1 # names) found v
         | Err e \<Rightarrow> (v, Err e) | Panic p \<Rightarrow> (v, Panic p))" by (simp only: prod.case)
  have no_err: "r \<noteq> Err e" for e using out(1) rest unfolding never_Err_def by (metis snd_conv)
  show ?thesis
  proof (cases r)
    case (Ok found)
    have "recieveWorkFromClient k config share client w = (v, Panic (PanicIndex 0 0))"
      unfolding run Ok by (simp only: outcome.case aux_loop_no_aux [OF aux])
    then show ?thesis using log by blast
  next
    case (Panic p)
    have "recieveWorkFromClient k config share client w = (v, Panic p)"
      unfolding run Panic by (simp only: outcome.case)
    then show ?thesis using log by blast
  qed (use no_err in simp)
qed

section \<open>An outage of an auxiliary chain\<close>

definition refusal :: "http_reply \<Rightarrow> bool" where
  "refusal reply = (case reply of TransportError _ \<Rightarrow> True | HttpReply _ status \<Rightarrow> status \<noteq> 200)"

definition aux_request :: "'z pool_world_scheme \<Rightarrow> string \<Rightarrow> string \<times> string \<times> rpc_param list" where
  "aux_request w c = (rpc_Name (the (bn_RPC (active_node c w))), ''createauxblock'', [PString (bn_RewardTo (active_node c w))])"

lemma CreateAuxBlock_replies:
  "rw_replies w = ok_reply r # rs \<Longrightarrow> CreateAuxBlock client reward w
     = (w\<lparr>rw_log := rw_log w @ [(rpc_Name client, ''createauxblock'', [PString reward])], rw_replies := rs\<rparr>, Ok r)"
  "rw_replies w = bad # rs \<Longrightarrow> refusal bad \<Longrightarrow> \<exists>e. CreateAuxBlock client reward w
     = (w\<lparr>rw_log := rw_log w @ [(rpc_Name client, ''createauxblock'', [PString reward])], rw_replies := rs\<rparr>, Err e)"
  by (auto simp: CreateAuxBlock_def request_200_def doRequest_def bind_op_def ok_reply_def return_op_def fail_op_def
      refusal_def Let_def split: http_reply.splits)

text \<open>The chains before the one that fails are asked, those after it are not, and no block is kept.\<close>

lemma fetch_aux_outage:
  assumes "GetAuxN (cf_BlockChainOrder config) 1 \<noteq> ''''" "refusal bad"
    and "\<forall>k \<le> length before. GetAuxN (cf_BlockChainOrder config) (i + k) = (before @ [failing]) ! k"
    and "\<forall>c \<in> set (before @ [failing]). bn_RPC (active_node c w) \<noteq> None"
    and "length auxs = length before"
    and "rw_replies w = map (\<lambda>a. ok_reply (RawAux a)) auxs @ bad # rest"
  shows "fetch_aux config i (before @ failing # after) w
    = (w\<lparr>rw_log := rw_log w @ map (aux_request w) (before @ [failing]), rw_replies := rest\<rparr>, Ok None)"
  using assms(3-6)
proof (induction before arbitrary: i w auxs)
  case Nil
  have name: "GetAuxN (cf_BlockChainOrder config) i = failing" using Nil.prems(1) by simp
  obtain client where client: "bn_RPC (active_node failing w) = Some client" using Nil.prems(2) by auto
  have "rw_replies w = bad # rest" using Nil.prems(3,4) by simp
  from CreateAuxBlock_replies(2) [OF this assms(2), of client "bn_RewardTo (active_node failing w)"]
  obtain e where "try_op (CreateAuxBlock client (bn_RewardTo (active_node failing w))) w
      = (w\<lparr>rw_log := rw_log w @ [aux_request w failing], rw_replies := rest\<rparr>, Ok (Inl e))"
    by (auto simp: try_op_def aux_request_def client)
  then show ?case
    using assms(1) name client
    by (simp add: GetAuxNNode_def get_op_bind lift_op_bind deref_def bind_op_def [of "try_op _"] return_op_def)
next
  case (Cons c before)
  obtain a auxs' where auxs: "auxs = a # auxs'" "length auxs' = length before"
    using Cons.prems(3) by (cases auxs) auto
  have name: "GetAuxN (cf_BlockChainOrder config) i = c" using Cons.prems(1) [rule_format, of 0] by simp
  obtain client where client: "bn_RPC (active_node c w) = Some client" using Cons.prems(2) by auto
  define w1 where "w1 = w\<lparr>rw_log := rw_log w @ [aux_request w c],
    rw_replies := map (\<lambda>a. ok_reply (RawAux a)) auxs' @ bad # rest\<rparr>"
  have nodes: "active_node n w1 = active_node n w" for n by (simp add: w1_def active_node_def)
  have names: "\<forall>k \<le> length before. GetAuxN (cf_BlockChainOrder config) ((i + 1) + k) = (before @ [failing]) ! k"
    using Cons.prems(1) by (metis Suc_le_mono add.assoc append_Cons length_Cons nth_Cons_Suc plus_1_eq_Suc)
  have others: "fetch_aux config (i + 1) (before @ failing # after) w1
      = (w1\<lparr>rw_log := rw_log w1 @ map (aux_request w1) (before @ [failing]), rw_replies := rest\<rparr>, Ok None)"
    by (rule Cons.IH [OF names _ auxs(2)]) (use Cons.prems(2) nodes in \<open>auto simp: w1_def\<close>)
  have "aux_request w1 = aux_request w" by (rule ext) (simp add: aux_request_def nodes)
  then have others: "fetch_aux config (i + 1) (before @ failing # after) w1
      = (w\<lparr>rw_log := rw_log w @ map (aux_request w) ((c # before) @ [failing]), rw_replies := rest\<rparr>, Ok None)"
    using others by (simp add: w1_def)
  have "rw_replies w = ok_reply (RawAux a) # map (\<lambda>a. ok_reply (RawAux a)) auxs' @ bad # rest"
    using Cons.prems(4) auxs(1) by simp
  from CreateAuxBlock_replies(1) [OF this, of client "bn_RewardTo (active_node c w)"]
  have "try_op (CreateAuxBlock client (bn_RewardTo (active_node c w))) w = (w1, Ok (Inr (RawAux a)))"
    by (simp add: try_op_def w1_def aux_request_def client)
  then show ?case
    using assms(1) name client others
    by (simp add: GetAuxNNode_def get_op_bind lift_op_bind deref_def bind_op_def [of "try_op _"] unmarshal_with_def)
      (simp add: bind_op_def return_op_def)
qed

lemma fetchAll_outage:
  assumes "cf_BlockChainOrder config = primary # before @ failing # after" "hd (before @ [failing]) \<noteq> ''''"
    and "\<forall>c \<in> set (primary # before @ [failing]). bn_RPC (active_node c w) \<noteq> None"
    and "length auxs = length before" "refusal bad"
    and "rw_replies w = ok_reply (RawTemplate t) # map (\<lambda>a. ok_reply (RawAux a)) auxs @ bad # rest"
  shows "fetchAllBlockTemplatesFromRPC config w = (w\<lparr>rw_log := rw_log w
      @ (rpc_Name (the (bn_RPC (active_node primary w))), ''getblocktemplate'', [PRules])
      # map (aux_request w) (before @ [failing]), rw_replies := rest\<rparr>, Ok (t, []))"
proof -
  obtain node where node: "bn_RPC (active_node primary w) = Some node" using assms(3) by auto
  define w1 where "w1 = w\<lparr>rw_log := rw_log w @ [(rpc_Name node, ''getblocktemplate'', [PRules])],
    rw_replies := map (\<lambda>a. ok_reply (RawAux a)) auxs @ bad # rest\<rparr>"
  have nodes: "active_node n w1 = active_node n w" for n by (simp add: w1_def active_node_def)
  have same: "aux_request w1 = aux_request w" by (rule ext) (simp add: aux_request_def nodes)
  have "GetAuxN (cf_BlockChainOrder config) 1 = hd (before @ [failing])"
    using assms(1) by (cases before) (simp_all add: GetAuxN_def)
  then have one: "GetAuxN (cf_BlockChainOrder config) 1 \<noteq> ''''" using assms(2) by simp
  have names: "\<forall>k \<le> length before. GetAuxN (cf_BlockChainOrder config) (1 + k) = (before @ [failing]) ! k"
    using assms(1) by (auto simp: GetAuxN_def nth_append)
  have clients: "\<forall>c \<in> set (before @ [failing]). bn_RPC (active_node c w1) \<noteq> None" using assms(3) nodes by simp
  have script: "rw_replies w1 = map (\<lambda>a. ok_reply (RawAux a)) auxs @ bad # rest" by (simp add: w1_def)
  have aux: "fetch_aux config 1 (before @ failing # after) w1
      = (w1\<lparr>rw_log := rw_log w1 @ map (aux_request w) (before @ [failing]), rw_replies := rest\<rparr>, Ok None)"
    by (rule fetch_aux_outage [OF one assms(5) names clients assms(4) script, unfolded same])
  have "GetBlockTemplate node w = (w1, Ok (RawTemplate t))"
    using assms(6) by (simp add: GetBlockTemplate_def request_200_def doRequest_def bind_op_def ok_reply_def return_op_def
        w1_def Let_def)
  then have template: "map_err_op (ErrWrap ''RPC error: '') (GetBlockTemplate node) w = (w1, Ok (RawTemplate t))"
    by (simp add: map_err_op_def)
  have "fetchAllBlockTemplatesFromRPC config w
      = bind_op (map_err_op (ErrWrap ''RPC error: '') (GetBlockTemplate node)) (\<lambda>response.
     bind_op (lift_op (unmarshal_with raw_template zero_Template response)) (\<lambda>template.
     bind_op (fetch_aux config 1 (before @ failing # after)) (\<lambda>auxblocks.
       return_op (template, case auxblocks of None \<Rightarrow> [] | Some auxs \<Rightarrow> auxs)))) w"
    using assms(1) node
    by (simp only: fetchAllBlockTemplatesFromRPC_def GetPrimaryNode_def GetPrimary_def get_op_bind lift_op_bind deref_def
        bind_op_assoc list.sel list.distinct list.case option.case outcome.case if_False if_True)
      (simp add: lift_op_bind)
  also have "\<dots> = bind_op (fetch_aux config 1 (before @ failing # after)) (\<lambda>auxblocks.
       return_op (t, case auxblocks of None \<Rightarrow> [] | Some auxs \<Rightarrow> auxs)) w1"
    by (simp only: bind_op_def [of "map_err_op _ _"] template prod.case outcome.case) (simp add: lift_op_bind unmarshal_with_def)
  also have "\<dots> = (w\<lparr>rw_log := rw_log w @ (rpc_Name node, ''getblocktemplate'', [PRules])
      # map (aux_request w) (before @ [failing]), rw_replies := rest\<rparr>, Ok (t, []))"
    by (simp only: bind_op_def aux prod.case outcome.case) (simp add: return_op_def w1_def)
  finally show ?thesis by (simp add: node)
qed

lemma GenerateWork_template:
  "GenerateWork scryptKey ripemd jobs (Some t) name arbitrary key n = Ok (j, b, work) \<Longrightarrow> bb_Template b = Some t"
  by (auto simp: GenerateWork_def outcome_simps Let_def BitcoinBlock_init_def)

lemma cache_work_result:
  assumes "cache_work scryptKey ripemd config t auxs w = (w', Ok ())"
  shows "pair_AuxBlocks (pw_templates w') = auxs" "rw_log w' = rw_log w"
    "bb_Template (Pair_GetPrimary (pw_templates w')) = Some (t\<lparr>tpl_AuxBlocks := auxs\<rparr>)"
  using assms
  by (auto simp: cache_work_def put_op_bind get_op_bind lift_op_bind GetPrimaryNode_def bind_op_assoc Let_def Pair_GetPrimary_def
      try_op_def put_op_def get_op_def panic_op_def bind_op_def lift_op_def GenerateWork_template
      split: outcome.splits prod.splits sum.splits)

text \<open>
  C20. When one auxiliary chain's node creates no block, the pool loses all of them and then
  itself. While templates are fetched the chains before the one that fails are asked and
  answer, those after it are not asked, and the work that is cached has no auxiliary block of
  any chain. As long as this work is cached, a block found with it brings the pool down: the
  node has the block, then the loop over the chains reads the first of no auxiliary blocks.
\<close>

theorem aux_outage_panics:
  fixes w v :: "'z pool_world_scheme"
  assumes "cf_BlockChainOrder config = primary # before @ failing # after" "hd (before @ [failing]) \<noteq> ''''"
    and "\<forall>c \<in> set (primary # before @ [failing]). bn_RPC (active_node c w) \<noteq> None"
    and "length auxs = length before" "refusal bad"
    and "rw_replies w = ok_reply (RawTemplate t) # map (\<lambda>a. ok_reply (RawAux a)) auxs @ bad # rest"
    and "fetchRpcBlockTemplatesAndCacheWork scryptKey ripemd order config w = (w1, Ok ())"
    and "pw_templates v = pw_templates w1" "bn_RPC (active_node primary v) = Some node"
    and "read_submission (Pair_GetPrimary (pw_templates v)) share client = Ok (m, rig, b)"
    and "weigh_submission config b rig client = Ok (b', st, True # aux, sd, bd)" "st \<noteq> shareValid"
    and "Submit b' = Ok sub" "rw_replies v = ok_reply RawNull # rest'"
  shows "rw_log w1 = rw_log w @ (rpc_Name (the (bn_RPC (active_node primary w))), ''getblocktemplate'', [PRules])
        # map (aux_request w) (before @ [failing])
    \<and> pair_AuxBlocks (pw_templates w1) = []
    \<and> (\<exists>v' p. recieveWorkFromClient k config share client v = (v', Panic p)
        \<and> rw_log v' = rw_log v @ [(rpc_Name node, ''submitblock'', [PString sub])])"
proof -
  let ?requests = "(rpc_Name (the (bn_RPC (active_node primary w))), ''getblocktemplate'', [PRules])
      # map (aux_request w) (before @ [failing])"
  have "fetch_templates order config w = (w\<lparr>rw_log := rw_log w @ ?requests, rw_replies := rest\<rparr>, Ok (t, []))"
    by (simp only: fetch_templates_def bind_op_def try_op_def fetchAll_outage [OF assms(1-6)] prod.case outcome.case sum.case)
      (simp add: return_op_def)
  then have cached: "cache_work scryptKey ripemd config t [] (w\<lparr>rw_log := rw_log w @ ?requests, rw_replies := rest\<rparr>) = (w1, Ok ())"
    using assms(7) by (simp add: fetchRpcBlockTemplatesAndCacheWork_def bind_op_def)
  have log: "rw_log w1 = rw_log w @ ?requests" using cache_work_result(2) [OF cached] by simp
  have none: "pair_AuxBlocks (pw_templates w1) = []" using cache_work_result(1) [OF cached] .
  obtain aux1 names where order: "cf_BlockChainOrder config = primary # aux1 # names"
    using assms(1) by (cases before) auto
  have template: "bb_Template (Pair_GetPrimary (pw_templates v)) = Some (t\<lparr>tpl_AuxBlocks := []\<rparr>)"
    using cache_work_result(3) [OF cached] assms(8) by simp
  have "\<exists>v' p. recieveWorkFromClient k config share client v = (v', Panic p)
      \<and> rw_log v' = rw_log v @ [(rpc_Name node, ''submitblock'', [PString sub])]"
    using candidate_without_aux [OF template _ assms(10-12) order assms(9,13,14)] none assms(8) by simp
  then show ?thesis using log none by blast
qed

section \<open>Recovery\<close>

lemma fetchAll_asks:
  assumes "cf_BlockChainOrder config = primary # names" "bn_RPC (active_node primary w) = Some client"
  shows "\<exists>l. rw_log (fst (fetchAllBlockTemplatesFromRPC config w))
    = rw_log w @ (rpc_Name client, ''getblocktemplate'', [PRules]) # l"
proof -
  obtain v r where v: "GetBlockTemplate client w = (v, r)" by (cases "GetBlockTemplate client w")
  then have log: "rw_log v = rw_log w @ [(rpc_Name client, ''getblocktemplate'', [PRules])]"
    by (auto simp: GetBlockTemplate_def request_200_def doRequest_def bind_op_def Let_def fail_op_def return_op_def
        split: list.splits http_reply.splits if_splits)
  define rest :: "'a pool_world_scheme \<Rightarrow> 'a pool_world_scheme \<times> (Template \<times> AuxBlock list) outcome" where
    "rest = bind_op (lift_op r) (\<lambda>response.
     bind_op (lift_op (unmarshal_with raw_template zero_Template response)) (\<lambda>template.
     bind_op (fetch_aux config 1 (tl (cf_BlockChainOrder config))) (\<lambda>auxblocks.
       return_op (template, case auxblocks of None \<Rightarrow> [] | Some auxs \<Rightarrow> auxs))))"
  have "grows rw_log rest" unfolding rest_def by (intro requests stays_fetch_aux grows_request_order)
  then obtain l where l: "rw_log (fst (rest v)) = rw_log v @ l" by (auto simp: grows_def)
  have "rw_log (fst (fetchAllBlockTemplatesFromRPC config w)) = rw_log (fst (rest v))"
    using assms v
    by (cases r) (simp_all add: fetchAllBlockTemplatesFromRPC_def GetPrimaryNode_def GetPrimary_def rest_def
        get_op_def lift_op_def map_err_op_def bind_op_def)
  then show ?thesis using l log by simp
qed

text \<open>
  C29. The server does not use the node it recovers to. When fetching templates fails and the
  managers then find healthy nodes, the second attempt asks the same node as the first: the
  active nodes are those of the start of the program.
\<close>

theorem recovered_node_is_not_asked:
  assumes "cf_BlockChainOrder config = primary # names" "bn_RPC (active_node primary w) = Some client"
    and "fetchAllBlockTemplatesFromRPC config w = (w1, Err e)" "Pool_CheckAndRecoverRPCs order w1 = (w2, Ok ())"
  shows "\<exists>l. rw_log (fst (fetch_templates order config w))
    = rw_log w2 @ (rpc_Name client, ''getblocktemplate'', [PRules]) # l"
proof -
  have frame: "request_order (same_part pw_activeNodes)" by (intro keeps_request_order) (simp add: no_request_def)
  have "pw_activeNodes w1 = pw_activeNodes w" using keepsD [OF stays_fetchAll [OF frame] assms(3)] .
  moreover have "keeps pw_activeNodes (Pool_CheckAndRecoverRPCs order)"
    unfolding Pool_CheckAndRecoverRPCs_def by (intro frames stays_recover_loop frame) (simp add: same_part_def)
  then have "pw_activeNodes w2 = pw_activeNodes w1" using assms(4) by (rule keepsD)
  ultimately have "bn_RPC (active_node primary w2) = Some client" using assms(2) by (simp add: active_node_def)
  note asks = fetchAll_asks [OF assms(1) this]
  have "fetch_templates order config w = fetchAllBlockTemplatesFromRPC config w2"
    using assms(3,4) by (simp add: fetch_templates_def try_op_def bind_op_def)
  then show ?thesis using asks by simp
qed

text \<open>The first of two nodes is down: the second is found, and the first asked again.\<close>

theorem recovered_node_is_not_asked_witness:
  "\<exists>l. map fst (rw_log (fst (fetch_templates (\<lambda>ks. ks) (example_config [''litecoin''])
     (example_pool [''litecoin''] [TransportError (ErrText ''down''), TransportError (ErrText ''down''), ok_reply RawNull]
       \<lparr>pair_BitcoinBlock = empty_block, pair_AuxBlocks = []\<rparr>))))
   = [''litecoin'', ''litecoin'', ''litecoin2'', ''litecoin''] @ l"
proof -
  let ?down = "TransportError (ErrText ''down'')" and ?ask = "\<lambda>n. (n, ''getblocktemplate'', [PRules])"
  let ?w = "example_pool [''litecoin''] [?down, ?down, ok_reply RawNull] \<lparr>pair_BitcoinBlock = empty_block, pair_AuxBlocks = []\<rparr>"
  let ?config = "example_config [''litecoin'']"
  let ?w1 = "?w\<lparr>rw_log := [?ask ''litecoin''], rw_replies := [?down, ok_reply RawNull]\<rparr>"
  let ?m = "\<lparr>mg_chainName = ''litecoin'', mg_activeIndex = 1, mg_clients = [example_client ''litecoin'', example_client (''litecoin'' @ ''2'')],
      mg_primaryCheckInterval = 1\<rparr>"
  let ?w2 = "?w\<lparr>rw_log := [?ask ''litecoin'', ?ask ''litecoin'', ?ask ''litecoin2''], rw_replies := [],
      pw_rpcManagers := [(''litecoin'', ?m)]\<rparr>"
  have order: "cf_BlockChainOrder ?config = ''litecoin'' # []" by (simp add: example_config_def)
  have node: "bn_RPC (active_node ''litecoin'' ?w) = Some (example_client ''litecoin'')"
    by (simp add: active_node_def example_node_def)
  have fails: "fetchAllBlockTemplatesFromRPC ?config ?w = (?w1, Err (ErrWrap ''RPC error: '' (ErrText ''down'')))"
    using node order
    by (simp add: fetchAllBlockTemplatesFromRPC_def GetPrimaryNode_def GetPrimary_def get_op_def lift_op_def bind_op_def
        map_err_op_def GetBlockTemplate_def request_200_def doRequest_def example_client_def)
  have recovers: "Pool_CheckAndRecoverRPCs (\<lambda>ks. ks) ?w1 = (?w2, Ok ())"
    by (simp add: Pool_CheckAndRecoverRPCs_def get_op_def bind_op_def lift_op_def CheckAndRecoverRPCs_def FindHealthyNode_def
        GetActiveClient_def nth_out_def Check_def try_op_def GetBlockTemplate_def request_200_def doRequest_def return_op_def
        fail_op_def checkActiveNodeHealth_def nextNode_def put_op_def ok_reply_def example_client_def Let_def)
  show ?thesis
    using recovered_node_is_not_asked [OF order node fails recovers] by (auto simp: example_client_def)
qed

section \<open>A mined example\<close>

abbreviation five :: "bytes \<Rightarrow> bytes \<Rightarrow> bytes" where "five \<equiv> \<lambda>p s. 5 # replicate 31 0"

definition example_submission :: Work where
  "example_submission = submission ''bob'' ''rig'' ''0'' ''0102030405060708'' ''5f000000'' ''00000009''"

definition example_miner :: stratumClient where
  "example_miner = \<lparr>sc_ip = ''ip'', sc_login = '''', sc_extranonce1 = '''', sc_userAgent = '''', sc_sessionID = ''s''\<rparr>"

lemma le_value_five: "le_value (5 # replicate 31 0) = 5"
proof -
  have "le_value (replicate n 0) = 0" for n by (induction n) auto
  then show ?thesis by simp
qed

lemma example_mined_work:
  assumes "\<forall>a \<in> set auxs. aux_target a \<noteq> None"
    and w: "workable ripemd (example_template\<lparr>tpl_AuxBlocks := auxs\<rparr>) arbitrary key kb wb"
  obtains block work b b' sd bd sub st where
    "GenerateWork five ripemd jobs (Some (example_template\<lparr>tpl_AuxBlocks := auxs\<rparr>)) ''litecoin'' arbitrary key 8
      = Ok (jobs + 1, block, work)"
    "bb_Template block = Some (example_template\<lparr>tpl_AuxBlocks := auxs\<rparr>)"
    "read_submission block example_submission example_miner = Ok (''bob'', ''rig'', b)"
    "weigh_submission (example_config names) b ''rig'' example_miner
      = Ok (b', st, True # map (\<lambda>a. 5 \<le> the (aux_target a)) auxs, sd, bd)"
    "st \<noteq> shareValid" "Submit b' = Ok sub"
proof -
  let ?t = "example_template\<lparr>tpl_AuxBlocks := auxs\<rparr>"
  have c: "GetChain five ''litecoin'' = Ok (Litecoin five)" by (simp add: GetChain_def)
  have e: "DecodeString ''0102030405060708'' = Ok [1, 2, 3, 4, 5, 6, 7, 8]" by code_simp
  have l: "length [1, 2, 3, 4, 5, 6, 7, 8 :: byte] = 8" by simp
  have ids: "decodes (map tx_ID (tpl_Transactions ?t)) [[0xaa, 0x01], [0xbb, 0x02], [0xcc, 0x03]]"
    by (simp add: example_template_def example_transaction_def DecodeString_def hex_val_def)
  have pb: "DecodeString (tpl_PrevBlockHash example_template) = Ok [0, 0x11, 0x22, 0x33, 0x44, 0x55, 0x66, 0x77]" by code_simp
  have tb: "DecodeString ''5f000000'' = Ok [0x5f, 0, 0, 0]" by code_simp
  have bits: "DecodeString (tpl_Bits example_template) = Ok [0x1a, 0x01, 0xd8, 0xa4]" by code_simp
  have nb: "DecodeString ''00000009'' = Ok [0, 0, 0, 9]" by code_simp
  have fields: "DecodeString (tpl_PrevBlockHash ?t) = Ok [0, 0x11, 0x22, 0x33, 0x44, 0x55, 0x66, 0x77]"
    "DecodeString (tpl_Bits ?t) = Ok [0x1a, 0x01, 0xd8, 0xa4]" using pb bits by simp_all
  obtain block work b header where g:
    "GenerateWork five ripemd jobs (Some ?t) ''litecoin'' arbitrary key 8 = Ok (jobs + 1, block, work)"
    "bb_Template block = Some ?t" "bb_Template b = Some ?t" "bb_chain b = Some (Litecoin five)"
    "MakeHeader block ''0102030405060708'' ''00000009'' ''5f000000'' = (b, Ok (EncodeToString header))"
    "snd (Sum b) = Ok (le_value (five header header))"
    by (rule mined_header [OF w c e l ids fields(1) tb fields(2) nb, where jobs = jobs])
  obtain b' where sum: "Sum b = (b', Ok 5)" using g(6) le_value_five by (cases "Sum b") auto
  then have b': "Sum b = (b', Ok 5)" "bb_Template b' = Some ?t" "bb_chain b' = Some (Litecoin five)" "bb_header b' \<noteq> ''''"
    using Sum_keeps [OF sum] g(3,4) by (auto simp: Generator.Sum_def split: option.splits if_splits)
  have n: "ToBig (tpl_Target ?t) = Some 0x1d8a4" "\<forall>a \<in> set (tpl_AuxBlocks ?t). aux_target a \<noteq> None"
    using example_targets assms(1) by simp_all
  have d: "pool_target (cf_PoolDifficulty (example_config names)) = Some (target_of 1)"
    using pool_target_powers by (simp add: example_config_def)
  note weigh = weigh_submission_value [OF b'(1-3) litecoin.share_multiplier d n, unfolded Let_def, of "''rig''" example_miner]
  obtain st where st: "weigh_submission (example_config names) b ''rig'' example_miner
      = Ok (b', st, True # map (\<lambda>a. 5 \<le> the (aux_target a)) auxs, difficulty_of (target_of 1), difficulty_of 0x1d8a4 * Fin 65536)"
    "st \<noteq> shareValid"
    using weigh by auto
  have read: "read_submission block example_submission example_miner = Ok (''bob'', ''rig'', b)"
    unfolding example_submission_def using g(5) by (intro read_submission_value) (auto simp: example_miner_def)
  obtain sub where "Submit b' = Ok sub"
  proof -
    have "varUint 4 = Ok ''04''" by code_simp
    then show thesis
      using that b'(2,4) by (simp add: Submit_def createSubmissionHex_def example_template_def)
  qed
  then show thesis using that [OF g(1,2) read st] by blast
qed

lemma example_mined:
  assumes "\<forall>a \<in> set auxs. aux_target a \<noteq> None"
  shows "\<exists>block b b' sd bd sub st.
      bb_Template block = Some (example_template\<lparr>tpl_AuxBlocks := auxs\<rparr>)
    \<and> read_submission block example_submission example_miner = Ok (''bob'', ''rig'', b)
    \<and> weigh_submission (example_config names) b ''rig'' example_miner
        = Ok (b', st, True # map (\<lambda>a. 5 \<le> the (aux_target a)) auxs, sd, bd)
    \<and> st \<noteq> shareValid \<and> Submit b' = Ok sub"
proof -
  have "workable (\<lambda>_. replicate 20 7) (example_template\<lparr>tpl_AuxBlocks := auxs\<rparr>) ''pool'' example_key [3, 0xab] []"
    using example_workable by (simp add: workable_def)
  from example_mined_work [OF assms this, of 7 names] show ?thesis by metis
qed

section \<open>Witnesses\<close>

definition mined_pool :: "string list \<Rightarrow> http_reply list \<Rightarrow> BitcoinBlock \<Rightarrow> pool_world" where
  "mined_pool order rs block = example_pool order rs \<lparr>pair_BitcoinBlock = block, pair_AuxBlocks = []\<rparr>"

lemma mined_pool_simps [simp]:
  "pw_templates (mined_pool order rs block) = \<lparr>pair_BitcoinBlock = block, pair_AuxBlocks = []\<rparr>"
  "rw_replies (mined_pool order rs block) = rs" "rw_log (mined_pool order rs block) = []"
  "pw_shareBuffer (mined_pool order rs block) = []" "db_blocks (mined_pool order rs block) = []"
  "bn_RPC (active_node c (mined_pool (c # order) rs block)) = Some (example_client c)"
  "Pair_GetPrimary \<lparr>pair_BitcoinBlock = block, pair_AuxBlocks = []\<rparr> = block"
  by (simp_all add: mined_pool_def active_node_def example_node_def Pair_GetPrimary_def)

lemma example_order [simp]: "cf_BlockChainOrder (example_config order) = order" "cf_PoolName (example_config order) = ''p''"
  by (simp_all add: example_config_def)


lemma second_target: "aux_target (example_aux ''aa'' 98\<lparr>aux_Target := ''0800''\<rparr>) = Some 8"
proof -
  have "pool_reverseHexBytes ''0800'' = Ok ''0008''" by (simp add: pool_reverseHexBytes_eq)
  moreover have "hex_val CHR ''0'' = Some 0" "hex_val CHR ''8'' = Some 8" by (simp_all add: hex_val_def)
  ultimately show ?thesis by (simp add: aux_target_def ToBig_def SetString16_def hex_digits_def)
qed

text \<open>A block for Litecoin and Dogecoin that the Litecoin node rejects.\<close>

theorem rejected_primary_loses_aux_blocks_witness:
  "\<exists>block w' e sub. (\<exists>b b' st sd bd. read_submission block example_submission example_miner = Ok (''bob'', ''rig'', b)
      \<and> weigh_submission (example_config [''litecoin'', ''dogecoin'']) b ''rig'' example_miner = Ok (b', st, [True, True], sd, bd))
    \<and> recieveWorkFromClient five (example_config [''litecoin'', ''dogecoin'']) example_submission example_miner
        (mined_pool [''litecoin'', ''dogecoin'']
           [HttpReply \<lparr>rs_Result = RawNull, rs_ErrorCode = 0, rs_ErrorMessage = ''stale''\<rparr> 500] block) = (w', Err e)
    \<and> rw_log w' = [(''litecoin'', ''submitblock'', [PString sub])] \<and> db_blocks w' = []"
proof -
  let ?config = "example_config [''litecoin'', ''dogecoin'']" and ?aux = "example_aux ''aa'' 98\<lparr>aux_Target := ''0800''\<rparr>"
  obtain block b b' sd bd sub st where m: "bb_Template block = Some (example_template\<lparr>tpl_AuxBlocks := [?aux]\<rparr>)"
    "read_submission block example_submission example_miner = Ok (''bob'', ''rig'', b)"
    "weigh_submission ?config b ''rig'' example_miner = Ok (b', st, [True, True], sd, bd)" "st \<noteq> shareValid" "Submit b' = Ok sub"
    using example_mined [of "[?aux]" "[''litecoin'', ''dogecoin'']"] second_target by auto
  let ?bad = "HttpReply \<lparr>rs_Result = RawNull, rs_ErrorCode = 0, rs_ErrorMessage = ''stale''\<rparr> 500"
  let ?w = "mined_pool [''litecoin'', ''dogecoin''] [?bad] block"
  have w: "bb_Template (Pair_GetPrimary (pw_templates ?w)) = Some (example_template\<lparr>tpl_AuxBlocks := [?aux]\<rparr>)"
    "read_submission (Pair_GetPrimary (pw_templates ?w)) example_submission example_miner = Ok (''bob'', ''rig'', b)"
    "cf_BlockChainOrder ?config = ''litecoin'' # ''dogecoin'' # []"
    "bn_RPC (active_node ''litecoin'' ?w) = Some (example_client ''litecoin'')" "rw_replies ?w = ?bad # []"
    using m(1,2) by simp_all
  have bad: "500 \<noteq> (200 :: nat) \<or> rs_Result \<lparr>rs_Result = RawNull, rs_ErrorCode = 0, rs_ErrorMessage = ''stale''\<rparr> \<noteq> RawNull" by simp
  obtain w' e where "recieveWorkFromClient five ?config example_submission example_miner ?w = (w', Err e)"
    "rw_log w' = [(''litecoin'', ''submitblock'', [PString sub])]" "db_blocks w' = []"
    using rejected_primary_loses_aux_blocks [OF w(1,2) m(3,4) w(3,4) m(5) w(5) bad, of five] by (auto simp: example_client_def)
  then show ?thesis using m(2,3) by blast
qed

text \<open>The work of a pool of Litecoin alone.\<close>

lemma aux_commitment_empty: "length (aux_commitment []) = 44"
proof -
  have v: "list_all (\<lambda>a. valid_hex (aux_Hash a)) []" "length ([] :: AuxBlock list) \<le> 8" by simp_all
  obtain leaves where leaves: "createMergedMiningCoinbase [] 0 = Ok (EncodeToString
      ([0xfa, 0xbe, 0x6d, 0x6d] @ rev (tree_root doubleSha256Bytes leaves) @ [16, 0, 0, 0] @ le_bytes 4 (0 :: u32)))"
    "length leaves = 16"
    using commitment_value [OF v, of 0] by blast
  obtain x y rest where xs: "leaves = x # y # rest" using leaves(2) by (cases leaves; cases "tl leaves") auto
  have "length (tree_root doubleSha256Bytes leaves) = 32"
    using dsha.tree_root_digest [OF dsha.pair_level_digests, of leaves] by (simp add: xs)
  define bs where "bs = [0xfa, 0xbe, 0x6d, 0x6d] @ rev (tree_root doubleSha256Bytes leaves) @ [16, 0, 0, 0] @ le_bytes 4 (0 :: u32)"
  have "createMergedMiningCoinbase [] 0 = Ok (EncodeToString bs)" unfolding bs_def by (rule leaves(1))
  then have "length (aux_commitment []) = length bs"
    by (simp add: aux_commitment_def hexStringToByteString_def bytes_string_def)
  moreover have "length bs = 44" using \<open>length (tree_root doubleSha256Bytes leaves) = 32\<close> by (simp add: bs_def le_bytes_def)
  ultimately show ?thesis by simp
qed

lemma example_serves:
  "workable (\<lambda>_ :: bytes. replicate 20 7 :: bytes) (example_template\<lparr>tpl_AuxBlocks := []\<rparr>) (''/pool/'' @ aux_commitment []) '''' [] []"
  using example_workable aux_commitment_empty by (simp add: workable_def DecodeString_def)

text \<open>
  A chain whose hash of everything is 5: the submission is accepted. The header has 80 bytes
  and the coinbase carries the miner's extranonce.
\<close>

theorem served_work_is_judged_witness:
  "\<exists>w' coinbase1 coinbase2 cb h.
     cache_work five (\<lambda>_. replicate 20 7) (example_config [''litecoin'']) (example_template\<lparr>tpl_PrevBlockHash := long_hash\<rparr>) []
       (example_pool [''litecoin''] [] \<lparr>pair_BitcoinBlock = empty_block, pair_AuxBlocks = []\<rparr>) = (w', Ok ())
    \<and> pw_workCache w' ! 2 = WString coinbase1 \<and> pw_workCache w' ! 3 = WString coinbase2
    \<and> DecodeString (coinbase1 @ ''0102030405060708'' @ coinbase2) = Ok cb
    \<and> map_option (\<lambda>(c, rest). (take 9 (drop (length h) (pc_script c)), rest)) (read_coinbase cb)
        = Some ([1, 2, 3, 4, 5, 6, 7, 8, 50], []) \<and> encodeNumber 2410822 = Ok h
    \<and> map sh_Miner (pw_shareBuffer (fst (recieveWorkFromClient five (example_config [''litecoin''])
         example_submission example_miner w'))) = [''bob'']"
proof -
  let ?config = "example_config [''litecoin'']" and ?t = "example_template\<lparr>tpl_PrevBlockHash := long_hash\<rparr>"
  let ?w = "example_pool [''litecoin''] [] \<lparr>pair_BitcoinBlock = empty_block, pair_AuxBlocks = []\<rparr>"
  let ?ripemd = "\<lambda>_ :: bytes. replicate 20 7 :: bytes"
  have v: "list_all (\<lambda>a. valid_hex (aux_Hash a)) []" "length ([] :: AuxBlock list) \<le> 8" by simp_all
  have o: "cf_BlockChainOrder ?config = ''litecoin'' # []" by simp
  have c: "GetChain five ''litecoin'' = Ok (Litecoin five)" by (simp add: GetChain_def)
  have key: "bn_RewardPubScriptKey (active_node ''litecoin'' ?w) = ''''"
    by (simp add: active_node_def example_node_def)
  have w: "workable ?ripemd (?t\<lparr>tpl_AuxBlocks := []\<rparr>) (cf_BlockSignature ?config @ aux_commitment [])
      (bn_RewardPubScriptKey (active_node ''litecoin'' ?w)) [] []"
    unfolding key using example_serves example_long_workable by (simp add: example_config_def workable_def)
  have e: "DecodeString (sc_extranonce1 example_miner @ ''0102030405060708'') = Ok [1, 2, 3, 4, 5, 6, 7, 8]"
    unfolding example_miner_def by code_simp
  have l: "length [1, 2, 3, 4, 5, 6, 7, 8 :: byte] = 8" by simp
  have ids: "decodes (map tx_ID (tpl_Transactions ?t)) [[0xaa, 0x01], [0xbb, 0x02], [0xcc, 0x03]]"
    by (simp add: example_template_def example_transaction_def DecodeString_def hex_val_def)
  obtain pb where pb: "DecodeString (tpl_PrevBlockHash ?t) = Ok pb"
    using long_hash_bytes by auto
  have tb: "DecodeString ''5f000000'' = Ok [0x5f, 0, 0, 0]" by code_simp
  have bits: "DecodeString (tpl_Bits ?t) = Ok [0x1a, 0x01, 0xd8, 0xa4]" by code_simp
  have nb: "DecodeString ''00000009'' = Ok [0, 0, 0, 9]" by code_simp
  have names: "CHR ''.'' \<notin> set ''bob''" "CHR ''.'' \<notin> set ''rig''" by simp_all
  have d: "pool_target (cf_PoolDifficulty ?config) = Some (target_of 1)"
    using pool_target_powers by (simp add: example_config_def)
  have n: "\<forall>a \<in> set ([] :: AuxBlock list). aux_target a \<noteq> None" "ToBig (tpl_Target ?t) = Some 0x1d8a4"
    using example_targets(1) by simp_all
  have z: "le_value (replicate 31 0) = 0" using le_value_five by simp
  have height: "tpl_Height ?t = 2410822" by (simp add: example_template_def)
  let ?sig = "cf_BlockSignature ?config @ aux_commitment []"
  have sig: "length ?sig = 50" using aux_commitment_empty by (simp add: example_config_def)
  obtain w' coinbase1 coinbase2 h cb where r: "cache_work five ?ripemd ?config ?t [] ?w = (w', Ok ())"
    "pw_workCache w' ! 2 = WString coinbase1" "pw_workCache w' ! 3 = WString coinbase2"
    "DecodeString (coinbase1 @ sc_extranonce1 example_miner @ ''0102030405060708'' @ coinbase2) = Ok cb"
    "encodeNumber (tpl_Height ?t) = Ok h"
    "read_coinbase cb = Some (pool_coinbase h [1, 2, 3, 4, 5, 6, 7, 8] ?sig
        (coinbase_outs (?ripemd (Sum256 [])) [] [] (tpl_CoinBaseValue ?t)), [])"
    "pw_shareBuffer (fst (recieveWorkFromClient five ?config (submission ''bob'' ''rig'' ''0'' ''0102030405060708'' ''5f000000'' ''00000009'')
       example_miner w')) = pw_shareBuffer ?w @ [share_of ?config (tpl_Height ?t) ''bob'' ''rig'' example_miner
         (difficulty_of (target_of 1)) (difficulty_of 0x1d8a4 * Fin 65536) (db_now ?w)]"
    using served_work_is_judged [OF v o c w e l ids pb tb bits nb names d n(2,1), of "''0''"]
    by (auto simp: Let_def z)
  have "take 9 (drop (length h) (pc_script (pool_coinbase h [1, 2, 3, 4, 5, 6, 7, 8] ?sig outs)))
      = [1, 2, 3, 4, 5, 6, 7, 8, 50]" for outs
    using sig by (simp add: pool_coinbase_def)
  moreover have "map sh_Miner (pw_shareBuffer (fst (recieveWorkFromClient five ?config
      example_submission example_miner w'))) = [''bob'']"
    unfolding example_submission_def r(7) by (simp add: share_of_def)
  moreover have "DecodeString (coinbase1 @ ''0102030405060708'' @ coinbase2) = Ok cb"
    using r(4) by (simp add: example_miner_def)
  moreover have "encodeNumber 2410822 = Ok h" using r(5) unfolding height .
  ultimately show ?thesis
    using r(1-3,6) by (intro exI [of _ w'] exI [of _ coinbase1] exI [of _ coinbase2] exI [of _ cb] exI [of _ h]) simp
qed

lemma example_active_node: "c \<in> set order \<Longrightarrow> active_node c (example_pool order rs p) = example_node c"
proof -
  have "c \<in> set order \<Longrightarrow> map_of (map (\<lambda>n. (n, example_node n)) order) c = Some (example_node c)"
    by (induction order) auto
  then show "c \<in> set order \<Longrightarrow> active_node c (example_pool order rs p) = example_node c"
    by (simp add: active_node_def)
qed

text \<open>Dogecoin answers, Pepecoin is down, the chain after it is not asked; then a block is found.\<close>

theorem aux_outage_panics_witness:
  "\<exists>w1 v' p sub. fetchRpcBlockTemplatesAndCacheWork five (\<lambda>_. replicate 20 7) (\<lambda>ks. ks)
       (example_config [''litecoin'', ''dogecoin'', ''pepecoin'', ''digibyte''])
       (example_pool [''litecoin'', ''dogecoin'', ''pepecoin'', ''digibyte'']
          [ok_reply (RawTemplate example_template), ok_reply (RawAux (example_aux ''aa'' 98)), TransportError (ErrText ''down'')]
          \<lparr>pair_BitcoinBlock = empty_block, pair_AuxBlocks = []\<rparr>) = (w1, Ok ())
    \<and> map fst (rw_log w1) = [''litecoin'', ''dogecoin'', ''pepecoin''] \<and> pair_AuxBlocks (pw_templates w1) = []
    \<and> recieveWorkFromClient five (example_config [''litecoin'', ''dogecoin'', ''pepecoin'', ''digibyte''])
        example_submission example_miner (w1\<lparr>rw_replies := [ok_reply RawNull]\<rparr>) = (v', Panic p)
    \<and> rw_log v' = rw_log w1 @ [(''litecoin'', ''submitblock'', [PString sub])]"
proof -
  let ?names = "[''litecoin'', ''dogecoin'', ''pepecoin'', ''digibyte'']"
  let ?config = "example_config ?names" and ?ripemd = "\<lambda>_ :: bytes. replicate 20 7 :: bytes"
  let ?down = "TransportError (ErrText ''down'')" and ?aux = "example_aux ''aa'' 98"
  let ?w = "example_pool ?names [ok_reply (RawTemplate example_template), ok_reply (RawAux ?aux), ?down]
    \<lparr>pair_BitcoinBlock = empty_block, pair_AuxBlocks = []\<rparr>"
  have order: "cf_BlockChainOrder ?config = ''litecoin'' # [''dogecoin''] @ ''pepecoin'' # [''digibyte'']"
    "hd ([''dogecoin''] @ [''pepecoin'']) \<noteq> ''''" "refusal ?down" "length [?aux] = length [''dogecoin'']"
    by (simp_all add: refusal_def)
  have nodes: "active_node c ?w = example_node c" if "c \<in> set ?names" for c using example_active_node [OF that] .
  have clients: "\<forall>c \<in> set (''litecoin'' # [''dogecoin''] @ [''pepecoin'']). bn_RPC (active_node c ?w) \<noteq> None"
    by (simp add: nodes) (simp add: example_node_def)
  have script: "rw_replies ?w = ok_reply (RawTemplate example_template) # map (\<lambda>a. ok_reply (RawAux a)) [?aux] @ ?down # []" by simp
  define w0 where "w0 = ?w\<lparr>rw_log := rw_log ?w @ (rpc_Name (the (bn_RPC (active_node ''litecoin'' ?w))), ''getblocktemplate'', [PRules])
      # map (aux_request ?w) ([''dogecoin''] @ [''pepecoin'']), rw_replies := []\<rparr>"
  have fetched: "fetchAllBlockTemplatesFromRPC ?config ?w = (w0, Ok (example_template, []))"
    unfolding w0_def by (rule fetchAll_outage [OF order(1,2) clients order(4,3) script])
  have n: "\<forall>a \<in> set ([] :: AuxBlock list). aux_target a \<noteq> None" by simp
  obtain sig where sig: "createMergedMiningCoinbase [] 0 = Ok sig" "hexStringToByteString sig = Ok (aux_commitment [])"
    using aux_commitment_value [of "[]"] by auto
  have key: "bn_RewardPubScriptKey (active_node ''litecoin'' w0) = ''''"
    using nodes [of "''litecoin''"] by (simp add: w0_def active_node_def example_node_def)
  have pool: "cf_BlockSignature ?config = ''/pool/''" by (simp add: example_config_def)
  obtain block work b b' sd bd sub st where m:
    "GenerateWork five ?ripemd (pw_jobCounter w0) (Some (example_template\<lparr>tpl_AuxBlocks := []\<rparr>)) ''litecoin''
      (''/pool/'' @ aux_commitment []) '''' 8 = Ok (pw_jobCounter w0 + 1, block, work)"
    "read_submission block example_submission example_miner = Ok (''bob'', ''rig'', b)"
    "weigh_submission ?config b ''rig'' example_miner = Ok (b', st, True # map (\<lambda>a. 5 \<le> the (aux_target a)) [], sd, bd)"
    "st \<noteq> shareValid" "Submit b' = Ok sub"
    by (rule example_mined_work [OF n example_serves, where jobs = "pw_jobCounter w0" and names = ?names])
  define w1 where "w1 = w0\<lparr>pw_templates := \<lparr>pair_BitcoinBlock = block, pair_AuxBlocks = []\<rparr>,
    pw_jobCounter := pw_jobCounter w0 + 1, pw_workCache := work\<rparr>"
  have "cache_work five ?ripemd ?config example_template [] w0 = (w1, Ok ())"
    unfolding w1_def by (rule cache_work_run [OF sig order(1)]) (simp only: key pool m(1))
  then have run: "fetchRpcBlockTemplatesAndCacheWork five ?ripemd (\<lambda>ks. ks) ?config ?w = (w1, Ok ())"
    by (simp add: fetchRpcBlockTemplatesAndCacheWork_def fetch_templates_def bind_op_def try_op_def fetched return_op_def)
  let ?v = "w1\<lparr>rw_replies := [ok_reply RawNull]\<rparr>"
  have v: "pw_templates ?v = pw_templates w1" "rw_replies ?v = ok_reply RawNull # []" "rw_log ?v = rw_log w1" by simp_all
  have node: "bn_RPC (active_node ''litecoin'' ?v) = Some (example_client ''litecoin'')"
    using nodes [of "''litecoin''"] by (simp add: w1_def w0_def active_node_def example_node_def)
  have read: "read_submission (Pair_GetPrimary (pw_templates ?v)) example_submission example_miner = Ok (''bob'', ''rig'', b)"
    using m(2) by (simp add: w1_def Pair_GetPrimary_def)
  note outage = aux_outage_panics [OF order(1,2) clients order(4,3) script run v(1) node read m(3,4,5) v(2), of five]
  have "rw_log w1 = (rpc_Name (the (bn_RPC (active_node ''litecoin'' ?w))), ''getblocktemplate'', [PRules])
      # map (aux_request ?w) ([''dogecoin''] @ [''pepecoin''])"
    using outage by simp
  then have "map fst (rw_log w1) = [''litecoin'', ''dogecoin'', ''pepecoin'']"
    using nodes by (simp add: aux_request_def example_node_def example_client_def)
  moreover have "pair_AuxBlocks (pw_templates w1) = []" using outage by blast
  moreover obtain v' p where "recieveWorkFromClient five ?config example_submission example_miner ?v = (v', Panic p)"
    "rw_log v' = rw_log w1 @ [(''litecoin'', ''submitblock'', [PString sub])]"
    using outage v(3) by (auto simp: example_client_def)
  ultimately show ?thesis
    using run by (intro exI [of _ w1] exI [of _ v'] exI [of _ p] exI [of _ sub] conjI)
qed

theorem replayed_submission_counts_again_witness:
  "\<exists>(w :: pool_world) s. pw_shareBuffer w = [s] \<and> sh_Miner s = ''bob''
    \<and> pw_shareBuffer (fst (recieveWorkFromClient five (example_config [''litecoin'']) example_submission example_miner w))
        = [s, s\<lparr>sh_Created := db_now w\<rparr>]"
proof -
  let ?config = "example_config [''litecoin'']"
  obtain block b b' sd bd sub st where m: "bb_Template block = Some (example_template\<lparr>tpl_AuxBlocks := []\<rparr>)"
    "read_submission block example_submission example_miner = Ok (''bob'', ''rig'', b)"
    "weigh_submission ?config b ''rig'' example_miner = Ok (b', st, [True], sd, bd)" "st \<noteq> shareValid"
    using example_mined [of "[]" "[''litecoin'']"] by auto
  let ?w = "mined_pool [''litecoin''] [] block"
  let ?s = "share_of ?config (tpl_Height example_template) ''bob'' ''rig'' example_miner sd bd (db_now ?w)"
  have "accepted_share ?config (pw_templates ?w) example_submission example_miner
      = Some (share_of ?config (tpl_Height example_template) ''bob'' ''rig'' example_miner sd bd)"
    using m by (simp add: accepted_share_def)
  then have first: "pw_shareBuffer (fst (recieveWorkFromClient five ?config example_submission example_miner ?w)) = pw_shareBuffer ?w @ [?s]"
    using recieve_buffers [of five ?config example_submission example_miner ?w] by (simp add: share_view_def)
  let ?v = "?w\<lparr>pw_shareBuffer := [?s]\<rparr>"
  have "pw_templates ?v = pw_templates ?w" by simp
  from replayed_submission_counts_again [OF first this]
  show ?thesis by (intro exI [of _ ?v] exI [of _ ?s]) (simp add: share_of_def)
qed

text \<open>A share comes in, the flush takes it, and its batch fails.\<close>

lemma example_failing_batch:
  obtains w s s' share where
    "(buffer_step five (example_config [''litecoin'']))\<^sup>*\<^sup>* (start_buffering w) s"
    "(buffer_step five (example_config [''litecoin'']))\<^sup>*\<^sup>* s s'"
    "pw_shareBuffer w = []" "db_shares w = []" "sh_Miner share = ''bob''" "writable share"
    "bf_received s = [share]" "bf_flight s = Some [share]" "pw_shareBuffer (bf_world s) = []"
    "pw_shareBuffer (bf_world s') = [share]" "bf_received s' = [share]" "bf_flight s' = None" "bf_stored s' = []"
    "no_faults (bf_world s')"
proof -
  let ?config = "example_config [''litecoin'']"
  obtain block b b' sd bd sub st where m: "bb_Template block = Some (example_template\<lparr>tpl_AuxBlocks := []\<rparr>)"
    "read_submission block example_submission example_miner = Ok (''bob'', ''rig'', b)"
    "weigh_submission ?config b ''rig'' example_miner = Ok (b', st, [True], sd, bd)"
    using example_mined [of "[]" "[''litecoin'']"] by auto
  let ?w = "mined_pool [''litecoin''] [] block"
  let ?run = "recieveWorkFromClient five ?config example_submission example_miner"
  define share where "share = share_of ?config (tpl_Height example_template) ''bob'' ''rig'' example_miner sd bd (db_now ?w)"
  have judged: "received_share ?config example_submission example_miner ?w = [share]"
    using m by (simp add: received_share_def accepted_share_def share_def)
  have view: "pw_shareBuffer (fst (?run ?w)) = [share]" "db_shares (fst (?run ?w)) = []"
    using recieve_buffers [of five ?config example_submission example_miner ?w] judged
    by (simp_all add: share_view_def received_share_def) (simp add: mined_pool_def)
  define w1 where "w1 = (fst (?run ?w))\<lparr>db_faults := [Some (ErrRemote ''down'')]\<rparr>"
  define w2 where "w2 = w1\<lparr>pw_shareBuffer := []\<rparr>"
  let ?s = "\<lambda>w f. \<lparr>bf_world = w, bf_flight = f, bf_received = [share], bf_stored = []\<rparr>"
  have start: "start_buffering ?w = (?s ?w None)\<lparr>bf_received := []\<rparr>" by (simp add: start_buffering_def)
  have one: "buffer_step five ?config (start_buffering ?w) (?s (fst (?run ?w)) None)"
    using buffer_step.receive [of five ?config example_submission example_miner "start_buffering ?w" "fst (?run ?w)" "snd (?run ?w)"]
      judged by (simp add: start)
  have two: "buffer_step five ?config (?s (fst (?run ?w)) None) (?s w1 None)"
    using buffer_step.other [of w1 "?s (fst (?run ?w)) None"] by (simp add: w1_def)
  have three: "buffer_step five ?config (?s w1 None) (?s w2 (Some [share]))"
    using buffer_step.take_all [of "?s w1 None" w2 "[share]"] view by (simp add: take_buffer_value w2_def w1_def)
  have fails: "Share_InsertBatch [share] w2 = (w2\<lparr>db_faults := []\<rparr>, Err (ErrRemote ''down''))"
    by (simp add: Share_InsertBatch_def bind_op_def sql_call_def w2_def w1_def)
  define w3 where "w3 = w2\<lparr>db_faults := [], pw_shareBuffer := [share]\<rparr>"
  have "write_shares [share] w2 = (w3, Ok ())"
    by (simp add: write_shares_def bind_op_def try_op_def fails) (simp add: put_op_def w3_def w2_def)
  then have four: "buffer_step five ?config (?s w2 (Some [share])) (?s w3 None)"
    using buffer_step.writes [of "?s w2 (Some [share])" "[share]" w3 "Ok ()"] fails by (simp add: stored_batch_def)
  have steps: "(buffer_step five ?config)\<^sup>*\<^sup>* (start_buffering ?w) (?s w2 (Some [share]))"
    using one two three by (meson rtranclp.rtrancl_into_rtrancl rtranclp.rtrancl_refl)
  show thesis
    by (rule that [OF steps r_into_rtranclp [of "buffer_step five ?config", OF four], of share])
      (simp_all add: w3_def w2_def w1_def share_def share_of_def writable_def no_faults_def mined_pool_def example_template_def)
qed

theorem every_share_in_one_place_witness:
  "\<exists>w s s' share. (buffer_step five (example_config [''litecoin'']))\<^sup>*\<^sup>* (start_buffering w) s
    \<and> (buffer_step five (example_config [''litecoin'']))\<^sup>*\<^sup>* s s'
    \<and> bf_received s = [share] \<and> sh_Miner share = ''bob'' \<and> in_flight s = [share] \<and> pw_shareBuffer (bf_world s) = []
    \<and> mset (bf_received s') = mset (pw_shareBuffer (bf_world s')) + mset (in_flight s') + mset (bf_stored s')
    \<and> pw_shareBuffer (bf_world s') = [share] \<and> db_shares (bf_world s') = []"
proof (rule example_failing_batch)
  fix w s s' share
  assume r: "(buffer_step five (example_config [''litecoin'']))\<^sup>*\<^sup>* (start_buffering w) s"
    "(buffer_step five (example_config [''litecoin'']))\<^sup>*\<^sup>* s s'"
    "pw_shareBuffer w = []" "db_shares w = []" "sh_Miner share = ''bob''" "writable share"
    "bf_received s = [share]" "bf_flight s = Some [share]" "pw_shareBuffer (bf_world s) = []"
    "pw_shareBuffer (bf_world s') = [share]" "bf_received s' = [share]" "bf_flight s' = None" "bf_stored s' = []"
    "no_faults (bf_world s')"
  have all: "(buffer_step five (example_config [''litecoin'']))\<^sup>*\<^sup>* (start_buffering w) s'" using r(1,2) by simp
  note place = every_share_in_one_place [OF all]
  have "db_shares (bf_world s') = []" using place r(4,13) by auto
  then show ?thesis
    using place r by (intro exI [of _ w] exI [of _ s] exI [of _ s'] exI [of _ share]) (simp add: in_flight_def)
qed

text \<open>The next round of the flush stores the share that came back.\<close>

theorem flush_stores_everything_witness:
  "\<exists>w s (s' :: buffering) share. (buffer_step five (example_config [''litecoin'']))\<^sup>*\<^sup>* (start_buffering w) s
    \<and> bf_received s = [share] \<and> sh_Miner share = ''bob'' \<and> bf_stored s = []
    \<and> flushShareBuffer (bf_world s) = (bf_world s', Ok ()) \<and> mset (bf_stored s') = {#share#}"
proof (rule example_failing_batch)
  fix w s s' share
  assume r: "(buffer_step five (example_config [''litecoin'']))\<^sup>*\<^sup>* (start_buffering w) s"
    "(buffer_step five (example_config [''litecoin'']))\<^sup>*\<^sup>* s s'"
    "pw_shareBuffer w = []" "db_shares w = []" "sh_Miner share = ''bob''" "writable share"
    "bf_received s = [share]" "bf_flight s = Some [share]" "pw_shareBuffer (bf_world s) = []"
    "pw_shareBuffer (bf_world s') = [share]" "bf_received s' = [share]" "bf_flight s' = None" "bf_stored s' = []"
    "no_faults (bf_world s')"
  have all: "(buffer_step five (example_config [''litecoin'']))\<^sup>*\<^sup>* (start_buffering w) s'" using r(1,2) by simp
  have writable: "\<forall>x \<in> set (pw_shareBuffer (bf_world s')). writable x" using r(6,10) by simp
  obtain u :: buffering where u: "flushShareBuffer (bf_world s') = (bf_world u, Ok ())" "bf_received u = bf_received s'"
      "mset (bf_received u) = mset (bf_stored u)"
    using flush_stores_everything [OF all r(12,14) writable] by (elim exE conjE) (rule that, assumption+)
  have "mset (bf_stored u) = {#share#}" using u(2,3) r(11) by (metis mset.simps mset_single_iff)
  then show ?thesis
    using u(1) r all by (intro exI [of _ w] exI [of _ s'] exI [of _ u] exI [of _ share] conjI)
qed

end
