(* ===== verification/Stratum.thy ===== *)
theory Stratum
  imports Submission
begin

text \<open>
  The miners' side of the server, \<open>src/pool/network.go\<close>, \<open>responses.go\<close>, \<open>requests.go\<close>, and
  its reaction to new blocks (\<open>nodes.go\<close>). A line that a client sends is the request its JSON
  text decodes to, or the decoder's error; sockets and deadlines are not modelled. The order in
  which the goroutines take these steps is that of the relation \<open>server_step\<close> of theory
  \<open>Sessions\<close>.
\<close>

section \<open>Messages\<close>

datatype json = JNull | JBool bool | JNumber flt | JString string | JList "json list" | JObject

record stratumRequest =
  rq_Id :: string
  rq_Method :: string
  rq_Params :: "json option"

text \<open>Decoding into a slice of strings goes on after an entry of another type and reports it.\<close>

definition decode_strings :: "json option \<Rightarrow> string list \<times> go_error option" where
  "decode_strings params =
     (case params of
        None \<Rightarrow> ([], Some (ErrText ''unexpected end of JSON input''))
      | Some JNull \<Rightarrow> ([], None)
      | Some (JList xs) \<Rightarrow>
          (map (\<lambda>x. case x of JString s \<Rightarrow> s | _ \<Rightarrow> '''') xs,
           if list_all (\<lambda>x. case x of JString _ \<Rightarrow> True | JNull \<Rightarrow> True | _ \<Rightarrow> False) xs then None
           else Some unmarshal_error)
      | Some _ \<Rightarrow> ([], Some unmarshal_error))"

definition decode_work :: "json option \<Rightarrow> Work outcome" where
  "decode_work params =
     (case params of
        None \<Rightarrow> Err (ErrText ''unexpected end of JSON input'')
      | Some JNull \<Rightarrow> Ok []
      | Some (JList xs) \<Rightarrow>
          Ok (map (\<lambda>x. case x of JString s \<Rightarrow> WString s | JBool b \<Rightarrow> WBool b | _ \<Rightarrow> WOther) xs)
      | Some _ \<Rightarrow> Err unmarshal_error)"

section \<open>src/pool/responses.go\<close>

definition put_client :: "nat \<Rightarrow> (stratumClient \<Rightarrow> stratumClient) \<Rightarrow> ('z, unit) pool_op" where
  "put_client c f = put_op (\<lambda>w. w\<lparr>pw_clients := (pw_clients w)[c := f (pw_clients w ! c)]\<rparr>)"

text \<open>\<open>uuid.NewString\<close>: the next of the ids the state holds.\<close>

definition fresh_uuid :: "('z, string) pool_op" where
  "fresh_uuid w = (w\<lparr>pw_uuid_next := pw_uuid_next w + 1\<rparr>, Ok (pw_uuids w (pw_uuid_next w)))"

definition miningSubscribe :: "stratumRequest \<Rightarrow> nat \<Rightarrow> ('z, packet) pool_op" where
  "miningSubscribe request c =
     bind_op (client_at c) (\<lambda>client.
     if isBanned (sc_ip client) then fail_op (ErrText (''client blocked: '' @ sc_ip client))
     else
     let requestParams = fst (decode_strings (rq_Params request)) in
     bind_op (if 0 < length requestParams then put_client c (\<lambda>cl. cl\<lparr>sc_userAgent := requestParams ! 0\<rparr>)
              else return_op ()) (\<lambda>_.
     bind_op fresh_uuid (\<lambda>sessionID.
     bind_op (put_client c (\<lambda>cl. cl\<lparr>sc_sessionID := sessionID\<rparr>)) (\<lambda>_.
       return_op (SubscribePacket (rq_Id request) sessionID (sc_extranonce1 client))))))"

definition check_address ::
    "(bytes \<Rightarrow> bytes \<Rightarrow> bytes) \<Rightarrow> string list \<Rightarrow> string \<Rightarrow> nat \<times> string \<Rightarrow> ('z, unit) pool_op" where
  "check_address scryptKey minerAddresses ip = (\<lambda>(blockchainIndex, blockChainName).
     bind_op (lift_op (GetChain scryptKey blockChainName)) (\<lambda>blockChain.
     bind_op (lift_op (nth_out minerAddresses blockchainIndex)) (\<lambda>address.
     bind_op (get_op (\<lambda>w. bn_Network (active_node blockChainName w))) (\<lambda>network.
     if (network = ''test'' \<and> \<not> ValidTestnetAddress blockChain address)
        \<or> (network = ''main'' \<and> \<not> ValidMainnetAddress blockChain address)
     then fail_op (ErrText (''invalid '' @ blockChainName @ '' '' @ network @ ''net miner address from '' @ ip @ '': '' @ address))
     else return_op ()))))"

definition miningAuthorize ::
    "(bytes \<Rightarrow> bytes \<Rightarrow> bytes) \<Rightarrow> Config \<Rightarrow> stratumRequest \<Rightarrow> nat \<Rightarrow> ('z, packet) pool_op" where
  "miningAuthorize scryptKey config request c =
     bind_op (client_at c) (\<lambda>client.
     if isBanned (sc_ip client)
     then fail_op (ErrText (''banned client attempted to access: '' @ sc_ip client))
     else
     let (params, err) = decode_strings (rq_Params request) in
     case err of
       Some e \<Rightarrow> fail_op e
     | None \<Rightarrow>
       if length params < 1 then fail_op (ErrText ''invalid parameters'')
       else
       let loginString = params ! 0; loginParts = split_on CHR ''.'' loginString in
       bind_op (lift_op (nth_out loginParts 0)) (\<lambda>minerAddressesString.
       let minerAddresses = split_on CHR ''-'' minerAddressesString in
       if length minerAddresses \<noteq> length (cf_BlockChainOrder config)
       then fail_op (ErrText ''not enough miner addresses to login'')
       else
       bind_op (lift_op (nth_out loginParts 1)) (\<lambda>rigID.
       bind_op (for_op (check_address scryptKey minerAddresses (sc_ip client))
                  (enumerate 0 (cf_BlockChainOrder config))) (\<lambda>_.
       bind_op (put_client c (\<lambda>cl. cl\<lparr>sc_login := loginString\<rparr>)) (\<lambda>_.
       bind_op (addSession c) (\<lambda>_.
       bind_op (sendPacket (AuthorizePacket (rq_Id request) True) c) (\<lambda>_.
       bind_op (sendPacket (miningSetDifficulty (cf_PoolDifficulty config)) c) (\<lambda>_.
       bind_op (generateWorkFromCache False) (\<lambda>work.
         return_op (miningNotify work))))))))))"

definition miningExtranonceSubscribe :: "stratumRequest \<Rightarrow> nat \<Rightarrow> ('z, packet) pool_op" where
  "miningExtranonceSubscribe request c = return_op EmptyResponse"

definition miningSubmit ::
    "(bytes \<Rightarrow> bytes \<Rightarrow> bytes) \<Rightarrow> Config \<Rightarrow> stratumRequest \<Rightarrow> nat \<Rightarrow> ('z, packet) pool_op" where
  "miningSubmit scryptKey config request c =
     bind_op (lift_op (decode_work (rq_Params request))) (\<lambda>work.
     bind_op (client_at c) (\<lambda>client.
     bind_op (logOnError (recieveWorkFromClient scryptKey config work client)) (\<lambda>_.
       return_op (SubmitPacket (rq_Id request) True))))"

definition handleStratumRequest ::
    "(bytes \<Rightarrow> bytes \<Rightarrow> bytes) \<Rightarrow> Config \<Rightarrow> stratumRequest \<Rightarrow> nat \<Rightarrow> ('z, packet) pool_op" where
  "handleStratumRequest scryptKey config request c =
     (if rq_Method request = ''mining.subscribe'' then miningSubscribe request c
      else if rq_Method request = ''mining.authorize'' then miningAuthorize scryptKey config request c
      else if rq_Method request = ''mining.extranonce.subscribe'' then miningExtranonceSubscribe request c
      else if rq_Method request = ''mining.submit'' then miningSubmit scryptKey config request c
      else if rq_Method request = ''mining.multi_version'' then return_op NullPacket
      else if rq_Method request = ''mining.get_transactions'' then return_op NullPacket
      else fail_op (ErrText (''unknown stratum request method: '' @ rq_Method request)))"

definition markMalformedRequest :: "nat \<Rightarrow> ('z, unit) pool_op" where
  "markMalformedRequest c = return_op ()"

datatype payload = Malformed go_error | Tiny | Request stratumRequest

definition respondToStratumClient ::
    "(bytes \<Rightarrow> bytes \<Rightarrow> bytes) \<Rightarrow> Config \<Rightarrow> nat \<Rightarrow> go_error + stratumRequest \<Rightarrow> ('z, unit) pool_op" where
  "respondToStratumClient scryptKey config c decoded =
     (case decoded of
        Inl err \<Rightarrow> bind_op (markMalformedRequest c) (\<lambda>_. fail_op err)
      | Inr request \<Rightarrow>
          bind_op (handleStratumRequest scryptKey config request c) (\<lambda>response. sendPacket response c))"

section \<open>src/pool/network.go\<close>

text \<open>What a read from a connection gives; a line of at most one byte is skipped.\<close>

datatype line_read = ReadEOF | ReadTooLong | ReadError go_error | ReadLine payload

text \<open>One round of \<open>handleStratumConnection\<close>: whether the loop goes on, or its error. After a
  line that is too long it returns the nil error of the read.\<close>

definition handle_read ::
    "(bytes \<Rightarrow> bytes \<Rightarrow> bytes) \<Rightarrow> Config \<Rightarrow> nat \<Rightarrow> line_read \<Rightarrow> ('z, bool) pool_op" where
  "handle_read scryptKey config c r =
     (case r of
        ReadEOF \<Rightarrow>
          bind_op (client_at c) (\<lambda>client.
          bind_op (removeSession (sc_sessionID client)) (\<lambda>_.
            fail_op (ErrText (''client disconnect: '' @ sc_ip client))))
      | ReadTooLong \<Rightarrow> bind_op (banClient c) (\<lambda>_. return_op False)
      | ReadError err \<Rightarrow> fail_op err
      | ReadLine Tiny \<Rightarrow> return_op True
      | ReadLine (Malformed err) \<Rightarrow>
          bind_op (respondToStratumClient scryptKey config c (Inl err)) (\<lambda>_. return_op True)
      | ReadLine (Request request) \<Rightarrow>
          bind_op (respondToStratumClient scryptKey config c (Inr request)) (\<lambda>_. return_op True))"

fun handleStratumConnection ::
    "(bytes \<Rightarrow> bytes \<Rightarrow> bytes) \<Rightarrow> Config \<Rightarrow> nat \<Rightarrow> line_read list \<Rightarrow> ('z, bool) pool_op" where
  "handleStratumConnection scryptKey config c [] = return_op True"
| "handleStratumConnection scryptKey config c (r # rs) =
     bind_op (handle_read scryptKey config c r) (\<lambda>goes_on.
       if goes_on then handleStratumConnection scryptKey config c rs else return_op False)"

datatype accept_event = AcceptError go_error | BadRemoteAddress go_error | AcceptedFrom string

definition extranonce1Length :: nat where "extranonce1Length = 4"

text \<open>One round of \<open>listenForConnections\<close>, which has no result when no extranonce is left: the
  number of the new client, if there is one.\<close>

definition accept_connection ::
    "Config \<Rightarrow> accept_event \<Rightarrow> 'z pool_world_scheme \<Rightarrow> ('z pool_world_scheme \<times> nat option) option" where
  "accept_connection config event w =
     (if cf_MaxConnections config < pw_numberOfConnections w then Some (w, None)
      else case event of
        AcceptError err \<Rightarrow> Some (w, None)
      | BadRemoteAddress err \<Rightarrow> Some (w, None)
      | AcceptedFrom ip \<Rightarrow>
          if isBanned ip then Some (w, None)
          else
          map_option (\<lambda>(w, extranonce).
            (w\<lparr>pw_clients := pw_clients w @ [\<lparr>sc_ip = ip, sc_login = '''', sc_extranonce1 = extranonce,
                                             sc_userAgent = '''', sc_sessionID = ''''\<rparr>],
               pw_numberOfConnections := pw_numberOfConnections w + 1\<rparr>, Some (length (pw_clients w))))
            (uniqueExtranonce (extranonce1Length * 2) w))"

section \<open>src/pool/nodes.go: block notifications\<close>

text \<open>The frames of a ZeroMQ message; a message with fewer than three is dropped.\<close>

record hashBlockResponse =
  hb_blockChainName :: string
  hb_previousBlockHash :: string
  hb_blockHashCounter :: u32

definition hash_block :: "string \<Rightarrow> bytes list \<Rightarrow> hashBlockResponse option outcome" where
  "hash_block blockChainName frames =
     (if 2 < length frames then
        bind_out (nth_out (frames ! 2) 0) (\<lambda>b0.
        bind_out (nth_out (frames ! 2) 1) (\<lambda>b1.
        bind_out (nth_out (frames ! 2) 2) (\<lambda>b2.
        bind_out (nth_out (frames ! 2) 3) (\<lambda>b3.
          Ok (Some \<lparr>hb_blockChainName = blockChainName, hb_previousBlockHash = EncodeToString (frames ! 1),
                 hb_blockHashCounter = ucast b0 OR push_bit 8 (ucast b1) OR push_bit 16 (ucast b2)
                   OR push_bit 24 (ucast b3)\<rparr>)))))
      else Ok None)"

text \<open>One round of \<open>listenForBlockNotifications\<close>; the counters of the messages are only logged.\<close>

definition handle_notification ::
    "(bytes \<Rightarrow> bytes \<Rightarrow> bytes) \<Rightarrow> (bytes \<Rightarrow> bytes) \<Rightarrow> (string list \<Rightarrow> string list) \<Rightarrow> (string list \<Rightarrow> string list)
      \<Rightarrow> Config \<Rightarrow> ('z, unit) pool_op" where
  "handle_notification scryptKey ripemd managers_order sessions_order config =
     bind_op (logOnError (fetchRpcBlockTemplatesAndCacheWork scryptKey ripemd managers_order config)) (\<lambda>_.
     bind_op (generateWorkFromCache True) (\<lambda>work.
       broadcastWork sessions_order work))"

end
