(* ===== verification/Sessions.thy ===== *)
theory Sessions
  imports Stratum
begin

text \<open>
  Connections, sessions and extranonces over the life of the server. The search for an unused
  extranonce is measured by its attempts. The handlers, the acceptor, the reaction to a new
  block and the flush are the steps of the relation \<open>server_step\<close>; what they do to the front
  of the server, its clients and sessions, is the small machine \<open>front_step\<close>, which the
  handlers refine and over which the invariants are proved.
\<close>

section \<open>The search for an extranonce\<close>

definition attempt :: "nat \<Rightarrow> 'z pool_world_scheme \<Rightarrow> nat \<Rightarrow> string" where
  "attempt len w i = random_hex_at (pw_rand w) len (pw_rand_next w + i * len)"

definition drawn :: "nat \<Rightarrow> nat \<Rightarrow> 'z pool_world_scheme \<Rightarrow> 'z pool_world_scheme" where
  "drawn n len w = w\<lparr>pw_rand_next := pw_rand_next w + n * len\<rparr>"

lemma drawn_simps [simp]:
  "drawn 0 len w = w" "drawn n len (drawn m len w) = drawn (m + n) len w"
  "pw_extranonces (drawn n len w) = pw_extranonces w" "attempt len (drawn n len w) i = attempt len w (n + i)"
  by (simp_all add: drawn_def attempt_def add_mult_distrib add.assoc)

lemma randomHex_value: "randomHex len w = (drawn 1 len w, Ok (attempt len w 0))"
  by (simp add: randomHex_def drawn_def attempt_def)

lemma unique_loop_step:
  "unique_loop used len e w =
     (if e \<in> set used then unique_loop used len (attempt len w 0) (drawn 1 len w) else Some (w, e))"
  by (subst unique_loop.simps) (simp add: randomHex_value)

lemma unique_loop_finds:
  "e \<in> set used \<Longrightarrow> attempt len w i \<notin> set used \<Longrightarrow> \<forall>j < i. attempt len w j \<in> set used
    \<Longrightarrow> unique_loop used len e w = Some (drawn (i + 1) len w, attempt len w i)"
proof (induction i arbitrary: e w)
  case 0
  then show ?case by (simp add: unique_loop_step)
next
  case (Suc i)
  have "unique_loop used len (attempt len w 0) (drawn 1 len w)
      = Some (drawn (i + 1) len (drawn 1 len w), attempt len (drawn 1 len w) i)"
    by (rule Suc.IH) (use Suc.prems in auto)
  then show ?case using Suc.prems(1) unique_loop_step [of used len e w] by simp
qed

lemma unique_loop_found:
  assumes "unique_loop used len e w = Some r" "e \<in> set used"
  shows "\<exists>i. attempt len w i \<notin> set used"
proof -
  let ?P = "\<lambda>used len e w r. e \<in> set used \<longrightarrow> (\<exists>i. attempt len w i \<notin> set used)"
  have "?P used len e w r"
  proof (rule unique_loop.raw_induct [where P = ?P, OF _ assms(1)])
    fix search used len and e :: string and w :: "'z pool_world_scheme" and r
    assume ih: "\<And>used len e w r. search used len e w = Some r \<Longrightarrow> ?P used len e w r"
      and run: "(if e \<in> set used
          then case randomHex len w of (w', Ok e) \<Rightarrow> search used len e w' | (w', _) \<Rightarrow> None
          else Some (w, e)) = Some r"
    show "?P used len e w r"
    proof (intro impI)
      assume "e \<in> set used"
      then have "search used len (attempt len w 0) (drawn 1 len w) = Some r"
        using run by (simp add: randomHex_value)
      from ih [OF this] show "\<exists>i. attempt len w i \<notin> set used"
        by (cases "attempt len w 0 \<in> set used") auto
    qed
  qed
  then show ?thesis using assms(2) by blast
qed

lemma unique_search_finds:
  assumes "attempt len w i \<notin> set (pw_extranonces w)" "\<forall>j < i. attempt len w j \<in> set (pw_extranonces w)"
  shows "uniqueExtranonce len w
    = Some ((drawn (i + 1) len w)\<lparr>pw_extranonces := attempt len w i # pw_extranonces w\<rparr>, attempt len w i)"
proof -
  have "unique_loop (pw_extranonces w) len (attempt len w 0) (drawn 1 len w)
      = Some (drawn (i + 1) len w, attempt len w i)"
  proof (cases i)
    case 0
    then show ?thesis using assms(1) by (simp add: unique_loop_step)
  next
    case (Suc k)
    then have "unique_loop (pw_extranonces w) len (attempt len w 0) (drawn 1 len w)
        = Some (drawn (k + 1) len (drawn 1 len w), attempt len (drawn 1 len w) k)"
      by (intro unique_loop_finds) (use assms in auto)
    then show ?thesis using Suc by simp
  qed
  then show ?thesis by (simp add: uniqueExtranonce_def randomHex_value)
qed

lemma unique_search_hangs:
  assumes "\<forall>i. attempt len w i \<in> set (pw_extranonces w)"
  shows "uniqueExtranonce len w = None"
proof -
  have "unique_loop (pw_extranonces w) len (attempt len w 0) (drawn 1 len w) = None"
  proof (rule ccontr)
    assume "unique_loop (pw_extranonces w) len (attempt len w 0) (drawn 1 len w) \<noteq> None"
    then obtain r where "unique_loop (pw_extranonces w) len (attempt len w 0) (drawn 1 len w) = Some r" by blast
    then have "\<exists>i. attempt len (drawn 1 len w) i \<notin> set (pw_extranonces w)"
      using assms by (intro unique_loop_found) auto
    then show False using assms by auto
  qed
  then show ?thesis by (simp add: uniqueExtranonce_def randomHex_value)
qed

text \<open>
  C23. Accepting a connection waits for an unused extranonce. The search returns exactly when
  some attempt of the generator is not yet in use, with the first such attempt, which it marks
  as used; when the generator only repeats extranonces in use it never returns.
\<close>

theorem uniqueExtranonce_returns:
  "uniqueExtranonce len w =
     (if \<exists>i. attempt len w i \<notin> set (pw_extranonces w)
      then let i = (LEAST i. attempt len w i \<notin> set (pw_extranonces w)) in
           Some ((drawn (i + 1) len w)\<lparr>pw_extranonces := attempt len w i # pw_extranonces w\<rparr>, attempt len w i)
      else None)"
proof (cases "\<exists>i. attempt len w i \<notin> set (pw_extranonces w)")
  case True
  have "\<forall>j < (LEAST i. attempt len w i \<notin> set (pw_extranonces w)). attempt len w j \<in> set (pw_extranonces w)"
    using not_less_Least by blast
  from unique_search_finds [OF LeastI_ex [OF True] this] True show ?thesis by (simp add: Let_def)
qed (simp add: unique_search_hangs)

lemma hex_chars_nth: "hex_chars ! (n mod length hex_chars) \<in> set hex_chars"
  by (intro nth_mem mod_less_divisor) (simp add: hex_chars_def)

lemma unique_search_result:
  assumes "uniqueExtranonce len w = Some (w', e)"
  shows "e \<notin> set (pw_extranonces w) \<and> length e = len \<and> set e \<subseteq> set hex_chars
    \<and> (\<exists>n. w' = (drawn n len w)\<lparr>pw_extranonces := e # pw_extranonces w\<rparr>)"
proof -
  have ex: "\<exists>i. attempt len w i \<notin> set (pw_extranonces w)"
    using unique_search_hangs [of len w] assms by auto
  define i where "i = (LEAST i. attempt len w i \<notin> set (pw_extranonces w))"
  have i: "attempt len w i \<notin> set (pw_extranonces w)" "\<forall>j < i. attempt len w j \<in> set (pw_extranonces w)"
    unfolding i_def using LeastI_ex [OF ex] not_less_Least by blast+
  have "length (attempt len w i) = len" "set (attempt len w i) \<subseteq> set hex_chars"
    using hex_chars_nth by (auto simp: attempt_def random_hex_at_def)
  then show ?thesis using unique_search_finds [OF i] assms i(1) by auto
qed

section \<open>The front of the server\<close>

record front =
  fr_nodes :: "(string \<times> blockChainNode) list"
  fr_clients :: "stratumClient list"
  fr_sessions :: "(string \<times> nat) list"
  fr_extranonces :: "string list"
  fr_connections :: int

definition front_of :: "'z pool_world_scheme \<Rightarrow> front" where
  "front_of w = \<lparr>fr_nodes = pw_activeNodes w, fr_clients = pw_clients w, fr_sessions = pw_sessions w,
     fr_extranonces = pw_extranonces w, fr_connections = pw_numberOfConnections w\<rparr>"

definition network_of :: "(string \<times> blockChainNode) list \<Rightarrow> string \<Rightarrow> string" where
  "network_of nodes chain = bn_Network (case map_of nodes chain of Some n \<Rightarrow> n | None \<Rightarrow> zero_blockChainNode)"

definition address_accepted ::
    "(bytes \<Rightarrow> bytes \<Rightarrow> bytes) \<Rightarrow> (string \<times> blockChainNode) list \<Rightarrow> string \<Rightarrow> string \<Rightarrow> bool" where
  "address_accepted k nodes chainName address =
     (case GetChain k chainName of
        Ok chain \<Rightarrow> (network_of nodes chainName = ''test'' \<longrightarrow> ValidTestnetAddress chain address)
                  \<and> (network_of nodes chainName = ''main'' \<longrightarrow> ValidMainnetAddress chain address)
      | _ \<Rightarrow> False)"

text \<open>A login names a rig and one address per chain, in the configured order, valid on its network.\<close>

definition login_accepted ::
    "(bytes \<Rightarrow> bytes \<Rightarrow> bytes) \<Rightarrow> Config \<Rightarrow> (string \<times> blockChainNode) list \<Rightarrow> string \<Rightarrow> bool" where
  "login_accepted k config nodes login \<longleftrightarrow>
     (let parts = split_on CHR ''.'' login; addresses = split_on CHR ''-'' (parts ! 0) in
      1 < length parts \<and> list_all2 (address_accepted k nodes) (cf_BlockChainOrder config) addresses)"

inductive front_step :: "(bytes \<Rightarrow> bytes \<Rightarrow> bytes) \<Rightarrow> Config \<Rightarrow> front \<Rightarrow> front \<Rightarrow> bool"
  for k :: "bytes \<Rightarrow> bytes \<Rightarrow> bytes" and config :: Config where
  joins: "fr_connections f \<le> cf_MaxConnections config \<Longrightarrow> e \<notin> set (fr_extranonces f) \<Longrightarrow> length e = 8 \<Longrightarrow>
    set e \<subseteq> set hex_chars \<Longrightarrow>
    front_step k config f (f\<lparr>fr_clients := fr_clients f @ [\<lparr>sc_ip = ip, sc_login = '''', sc_extranonce1 = e,
        sc_userAgent = '''', sc_sessionID = ''''\<rparr>],
      fr_extranonces := e # fr_extranonces f, fr_connections := fr_connections f + 1\<rparr>)"
| subscribes: "c < length (fr_clients f) \<Longrightarrow>
    front_step k config f (f\<lparr>fr_clients := (fr_clients f)[c := (fr_clients f ! c)\<lparr>sc_userAgent := agent, sc_sessionID := sid\<rparr>]\<rparr>)"
| logs_in: "c < length (fr_clients f) \<Longrightarrow> login_accepted k config (fr_nodes f) login \<Longrightarrow>
    front_step k config f (f\<lparr>fr_clients := (fr_clients f)[c := (fr_clients f ! c)\<lparr>sc_login := login\<rparr>],
      fr_sessions := AList.update (sc_sessionID (fr_clients f ! c)) c (fr_sessions f)\<rparr>)"
| leaves: "c < length (fr_clients f) \<Longrightarrow>
    front_step k config f (f\<lparr>fr_sessions := AList.delete (sc_sessionID (fr_clients f ! c)) (fr_sessions f)\<rparr>)"

definition refines :: "(bytes \<Rightarrow> bytes \<Rightarrow> bytes) \<Rightarrow> Config \<Rightarrow> 'z pool_world_scheme \<Rightarrow> 'z pool_world_scheme \<Rightarrow> bool" where
  "refines k config w w' \<longleftrightarrow> (front_step k config)\<^sup>*\<^sup>* (front_of w) (front_of w')"

lemma refines_preorder: "reflp (refines k config)" "transp (refines k config)"
  by (auto simp: refines_def intro!: reflpI transpI)

lemma keeps_refines: "keeps front_of m \<Longrightarrow> stays (refines k config) m"
  by (simp add: stays_def same_part_def refines_def)

lemma front_order: "request_order (same_part front_of)"
  by (intro keeps_request_order) (simp add: no_request_def front_of_def)

lemma keeps_front_fetch: "keeps front_of (fetch_templates order config)"
  unfolding fetch_templates_def Pool_CheckAndRecoverRPCs_def
  by (intro frames stays_fetchAll stays_recover_loop front_order) (simp add: same_part_def front_of_def)

lemma keeps_front_cache: "keeps front_of (fetchRpcBlockTemplatesAndCacheWork k ripemd order config)"
  unfolding fetchRpcBlockTemplatesAndCacheWork_def cache_work_def GetPrimaryNode_def
  by (intro frames keeps_front_fetch keeps_put) (simp_all add: front_of_def)

lemma keeps_front_send: "keeps front_of (sendPacket p c)"
  by (auto simp: keeps_def sendPacket_def front_of_def split: list.splits option.splits)

lemma keeps_front_notification: "keeps front_of (handle_notification k ripemd order sorder config)"
  unfolding handle_notification_def generateWorkFromCache_def broadcastWork_def notifyAllSessions_def
  by (intro frames keeps_front_cache keeps_front_send)

lemma keeps_front_found: "keeps front_of (Found_Insert b)"
  unfolding Found_Insert_def Let_def
  by (intro keeps_exec) (auto simp: front_of_def bind_out_eq_Ok split: if_splits)

lemma keeps_front_candidates:
  "keeps front_of (primary_candidate config block h bd found)"
  "keeps front_of (aux_candidate k config block i c a found)"
  unfolding primary_candidate_def record_primary_def submitBlockToChain_def GetPrimaryNode_def aux_candidate_def submitAuxBlock_def GetAuxNNode_def
  by (intro requests front_order keeps_front_found)+

lemma keeps_front_loop: "keeps front_of (aux_loop k config block cs i names found)"
proof (induction names arbitrary: i found)
  case (Cons c names)
  then show ?case unfolding aux_loop.simps by (intro frames keeps_front_candidates)
qed (simp add: frames)

lemma keeps_front_recieve: "keeps front_of (recieveWorkFromClient k config share client)"
  unfolding recieveWorkFromClient_def submit_candidates_def
  by (intro frames keeps_front_candidates keeps_front_loop keeps_put) (simp add: front_of_def)

lemma keeps_front_flush: "keeps front_of (flushShareBuffer :: ('z, unit) pool_op)"
proof -
  have "keeps front_of (Share_InsertBatch shares :: ('z, unit) pool_op)" for shares
  proof -
    have "front_of (fst (Share_InsertBatch shares w)) = front_of w" for w :: "'z pool_world_scheme"
      using InsertBatch_outcome [of shares w]
      by (cases "Share_InsertBatch shares w"; cases "snd (Share_InsertBatch shares w)") (auto simp: front_of_def)
    then show ?thesis by (simp add: keeps_def)
  qed
  then show ?thesis unfolding flushShareBuffer_def take_buffer_def write_shares_def
    by (intro frames keeps_put) (simp_all add: front_of_def)
qed

lemma network_of_active: "bn_Network (active_node chain w) = network_of (pw_activeNodes w) chain"
  by (simp add: active_node_def network_of_def)

lemma check_address_value:
  assumes "i < length addresses"
  shows "\<exists>r. check_address k addresses ip (i, chain) w = (w, r)
    \<and> (r = Ok () \<longleftrightarrow> address_accepted k (pw_activeNodes w) chain (addresses ! i))"
  using assms
  by (cases "GetChain k chain")
    (auto simp: check_address_def lift_op_bind get_op_bind network_of_active address_accepted_def fail_op_def return_op_def)

lemma check_addresses_value:
  assumes "i + length names = length addresses"
  shows "\<exists>r. for_op (check_address k addresses ip) (enumerate i names) w = (w, r)
    \<and> (r = Ok () \<longleftrightarrow> list_all2 (address_accepted k (pw_activeNodes w)) names (drop i addresses))"
  using assms
proof (induction names arbitrary: i)
  case Nil
  then show ?case by (simp add: return_op_def)
next
  case (Cons chain names)
  then have i: "i < length addresses" "drop i addresses = addresses ! i # drop (Suc i) addresses"
    by (simp_all add: Cons_nth_drop_Suc)
  obtain r where r: "check_address k addresses ip (i, chain) w = (w, r)"
    "r = Ok () \<longleftrightarrow> address_accepted k (pw_activeNodes w) chain (addresses ! i)"
    using check_address_value [OF i(1)] by blast
  obtain r' where r': "for_op (check_address k addresses ip) (enumerate (Suc i) names) w = (w, r')"
    "r' = Ok () \<longleftrightarrow> list_all2 (address_accepted k (pw_activeNodes w)) names (drop (Suc i) addresses)"
    using Cons.IH [of "Suc i"] Cons.prems by auto
  show ?case
    using r r' by (cases r) (simp_all add: i(2) bind_op_def)
qed

lemma client_at_bind:
  "bind_op (client_at c) g w =
     (if c < length (pw_clients w) then g (pw_clients w ! c) w
      else (w, Panic (PanicIndex c (length (pw_clients w)))))"
  by (simp add: client_at_def get_op_def lift_op_def bind_op_def)

text \<open>What authorisation does: the checks of the login, which change nothing, then the session.\<close>

definition greet :: "Config \<Rightarrow> stratumRequest \<Rightarrow> nat \<Rightarrow> unit \<Rightarrow> ('z, packet) pool_op" where
  "greet config request c = (\<lambda>_.
     bind_op (sendPacket (AuthorizePacket (rq_Id request) True) c) (\<lambda>_.
     bind_op (sendPacket (miningSetDifficulty (cf_PoolDifficulty config)) c) (\<lambda>_.
     bind_op (generateWorkFromCache False) (\<lambda>work. return_op (miningNotify work)))))"

lemma authorise_checks:
  fixes w :: "'z pool_world_scheme"
  assumes "c < length (pw_clients w)" "decode_strings (rq_Params request) = (login # ps, None)"
  shows "\<exists>r. (r = Ok () \<longleftrightarrow> login_accepted k config (pw_activeNodes w) login)
    \<and> miningAuthorize k config request c w
      = bind_op (lift_op r) (\<lambda>_. bind_op (put_client c (\<lambda>cl. cl\<lparr>sc_login := login\<rparr>)) (\<lambda>_.
          bind_op (addSession c) (greet config request c))) w"
proof -
  define parts where "parts = split_on CHR ''.'' login"
  define addresses where "addresses = split_on CHR ''-'' (parts ! 0)"
  have zero: "nth_out parts 0 = Ok (parts ! 0)" by (simp add: parts_def)
  note unfold = miningAuthorize_def client_at_bind isBanned_def assms parts_def [symmetric] addresses_def [symmetric]
    lift_op_bind zero
  have accepted: "login_accepted k config (pw_activeNodes w) login
      \<longleftrightarrow> 1 < length parts \<and> list_all2 (address_accepted k (pw_activeNodes w)) (cf_BlockChainOrder config) addresses"
    by (simp add: login_accepted_def Let_def parts_def addresses_def)
  show ?thesis
  proof (cases "length addresses = length (cf_BlockChainOrder config) \<and> 1 < length parts")
    case True
    obtain r where r: "for_op (check_address k addresses (sc_ip (pw_clients w ! c))) (enumerate 0 (cf_BlockChainOrder config)) w = (w, r)"
      "r = Ok () \<longleftrightarrow> list_all2 (address_accepted k (pw_activeNodes w)) (cf_BlockChainOrder config) addresses"
      using check_addresses_value [of 0 "cf_BlockChainOrder config" addresses k "sc_ip (pw_clients w ! c)" w] True by auto
    have "bind_op (for_op (check_address k addresses (sc_ip (pw_clients w ! c))) (enumerate 0 (cf_BlockChainOrder config))) g w
        = bind_op (lift_op r) g w" for g :: "unit \<Rightarrow> ('z, packet) pool_op"
      using r(1) by (simp add: bind_op_def lift_op_def)
    then show ?thesis using True r(2) by (intro exI [of _ r]) (simp add: unfold accepted greet_def)
  next
    case False
    then have no: "\<not> login_accepted k config (pw_activeNodes w) login" by (auto simp: accepted list_all2_lengthD)
    show ?thesis
    proof (cases "length addresses = length (cf_BlockChainOrder config)")
      case True
      then show ?thesis using False no
        by (intro exI [of _ "Panic (PanicIndex 1 (length parts))"]) (simp add: unfold)
    next
      case False
      then show ?thesis using no
        by (intro exI [of _ "Err (ErrText ''not enough miner addresses to login'')"]) (simp add: unfold fail_op_def)
    qed
  qed
qed

lemma authorise_refused:
  assumes "\<nexists>login ps. decode_strings (rq_Params request) = (login # ps, None)"
  shows "fst (miningAuthorize k config request c w) = w"
proof -
  obtain params err where decoded: "decode_strings (rq_Params request) = (params, err)" by fastforce
  then have "err = None \<Longrightarrow> params = []" using assms by (cases params) auto
  then show ?thesis
    by (cases err) (auto simp: miningAuthorize_def client_at_bind isBanned_def decoded fail_op_def)
qed

lemma login_refines:
  assumes "c < length (pw_clients w)" "login_accepted k config (pw_activeNodes w) login" "\<And>x. stays (refines k config) (rest x)"
  shows "refines k config w
    (fst (bind_op (put_client c (\<lambda>cl. cl\<lparr>sc_login := login\<rparr>)) (\<lambda>_. bind_op (addSession c) rest) w))"
proof -
  let ?cs = "(pw_clients w)[c := (pw_clients w ! c)\<lparr>sc_login := login\<rparr>]"
  let ?w = "w\<lparr>pw_clients := ?cs, pw_sessions := AList.update (sc_sessionID (pw_clients w ! c)) c (pw_sessions w)\<rparr>"
  have "front_step k config (front_of w) (front_of ?w)"
    using front_step.logs_in [of c "front_of w" k config login] assms(1,2) by (simp add: front_of_def)
  moreover have "refines k config ?w (fst (rest () ?w))" using assms(3) by (simp add: stays_def)
  ultimately have "refines k config w (fst (rest () ?w))" unfolding refines_def by (rule converse_rtranclp_into_rtranclp)
  moreover have "addSession c (w\<lparr>pw_clients := ?cs\<rparr>) = (?w, Ok ())"
    using assms(1) by (simp add: addSession_def client_at_bind put_op_def)
  ultimately show ?thesis by (simp add: put_client_def put_op_bind) (simp add: bind_op_def)
qed

lemma miningAuthorize_refines: "stays (refines k config) (miningAuthorize k config request c :: ('z, packet) pool_op)"
  unfolding stays_def
proof
  fix w :: "'z pool_world_scheme"
  show "refines k config w (fst (miningAuthorize k config request c w))"
  proof (cases "c < length (pw_clients w) \<and> (\<exists>login ps. decode_strings (rq_Params request) = (login # ps, None))")
    case True
    then obtain login ps where c: "c < length (pw_clients w)" "decode_strings (rq_Params request) = (login # ps, None)" by blast
    obtain r where r: "r = Ok () \<longleftrightarrow> login_accepted k config (pw_activeNodes w) login"
      "miningAuthorize k config request c w
        = bind_op (lift_op r) (\<lambda>_. bind_op (put_client c (\<lambda>cl. cl\<lparr>sc_login := login\<rparr>)) (\<lambda>_.
            bind_op (addSession c) (greet config request c))) w"
      using authorise_checks [OF c] by blast
    have "stays (refines k config) (greet config request c x)" for x
      unfolding greet_def generateWorkFromCache_def
      by (intro frames refines_preorder keeps_refines keeps_front_send)
    then show ?thesis using login_refines [OF c(1)] r by (cases r) (simp_all add: lift_op_bind refines_def)
  next
    case False
    then have "front_of (fst (miningAuthorize k config request c w)) = front_of w"
      using authorise_refused [of request k config c w] by (auto simp: miningAuthorize_def client_at_bind)
    then show ?thesis by (simp add: refines_def)
  qed
qed

lemma put_client_refines:
  assumes "\<And>cl. \<exists>agent sid. f cl = cl\<lparr>sc_userAgent := agent, sc_sessionID := sid\<rparr>"
  shows "stays (refines k config) (put_client c f)"
  unfolding put_client_def
proof (rule stays_put)
  fix w :: "'z pool_world_scheme"
  let ?w = "w\<lparr>pw_clients := (pw_clients w)[c := f (pw_clients w ! c)]\<rparr>"
  obtain agent sid where "f (pw_clients w ! c) = (pw_clients w ! c)\<lparr>sc_userAgent := agent, sc_sessionID := sid\<rparr>"
    using assms by blast
  then have "c < length (pw_clients w) \<Longrightarrow> front_step k config (front_of w) (front_of ?w)"
    using front_step.subscribes [of c "front_of w" k config sid agent] by (simp add: front_of_def)
  then show "refines k config w ?w" by (cases "c < length (pw_clients w)") (auto simp: refines_def front_of_def list_update_beyond)
qed

lemma miningSubscribe_refines: "stays (refines k config) (miningSubscribe request c)"
proof -
  have "stays (refines k config) fresh_uuid"
    by (rule keeps_refines) (simp add: keeps_def fresh_uuid_def front_of_def)
  moreover have "\<exists>agent' sid'. cl\<lparr>sc_userAgent := agent\<rparr> = cl\<lparr>sc_userAgent := agent', sc_sessionID := sid'\<rparr>" for cl agent
    by (intro exI [of _ agent] exI [of _ "sc_sessionID cl"]) simp
  moreover have "\<exists>agent' sid'. cl\<lparr>sc_sessionID := sid\<rparr> = cl\<lparr>sc_userAgent := agent', sc_sessionID := sid'\<rparr>" for cl sid
    by (intro exI [of _ "sc_userAgent cl"] exI [of _ sid]) simp
  ultimately show ?thesis
    unfolding miningSubscribe_def client_at_def by (intro frames refines_preorder put_client_refines)
qed

lemma miningSubmit_refines: "stays (refines k config) (miningSubmit k config request c)"
  unfolding miningSubmit_def client_at_def
  by (intro frames refines_preorder keeps_refines keeps_front_recieve)

lemma removeSession_refines: "stays (refines k config) (bind_op (client_at c) (\<lambda>client. removeSession (sc_sessionID client)))"
  unfolding stays_def
proof
  fix w :: "'z pool_world_scheme"
  show "refines k config w (fst (bind_op (client_at c) (\<lambda>client. removeSession (sc_sessionID client)) w))"
    using front_step.leaves [of c "front_of w" k config]
    by (auto simp: client_at_bind removeSession_def put_op_def refines_def front_of_def)
qed

lemma handleStratumRequest_refines: "stays (refines k config) (handleStratumRequest k config request c)"
  unfolding handleStratumRequest_def miningExtranonceSubscribe_def
  by (intro frames refines_preorder miningSubscribe_refines miningAuthorize_refines miningSubmit_refines)

lemma handle_read_refines: "stays (refines k config) (handle_read k config c r)"
proof -
  have respond: "stays (refines k config) (respondToStratumClient k config c decoded)" for decoded
    unfolding respondToStratumClient_def markMalformedRequest_def
    by (intro frames refines_preorder handleStratumRequest_refines keeps_refines keeps_front_send)
  have eof: "stays (refines k config) (bind_op (client_at c) (\<lambda>client. bind_op (removeSession (sc_sessionID client)) (\<lambda>_. fail_op (e client))))"
    for e :: "stratumClient \<Rightarrow> go_error"
  proof -
    have "fst (bind_op (client_at c) (\<lambda>client. bind_op (removeSession (sc_sessionID client)) (\<lambda>_. fail_op (e client))) w)
        = fst (bind_op (client_at c) (\<lambda>client. removeSession (sc_sessionID client)) w)" for w :: "'z pool_world_scheme"
      by (simp add: client_at_bind removeSession_def put_op_bind fail_op_def) (simp add: put_op_def)
    then show ?thesis using removeSession_refines unfolding stays_def by metis
  qed
  show ?thesis
  proof (cases r)
    case (ReadLine p)
    show ?thesis unfolding handle_read_def ReadLine
      by (cases p; simp only: line_read.case payload.case) (intro frames refines_preorder respond)+
  next
    case ReadTooLong
    show ?thesis unfolding handle_read_def ReadTooLong banClient_def
      by (simp only: line_read.case) (intro frames refines_preorder removeSession_refines)
  qed (simp_all add: handle_read_def eof frames refines_preorder)
qed

lemma accept_refines:
  assumes "accept_connection config event w = Some (w', new)"
  shows "refines k config w w'"
proof (cases "w' = w")
  case True
  then show ?thesis by (simp add: refines_def)
next
  case False
  then obtain ip where ip: "event = AcceptedFrom ip" "pw_numberOfConnections w \<le> cf_MaxConnections config"
    using assms by (auto simp: accept_connection_def split: if_splits accept_event.splits)
  then obtain v e where v: "uniqueExtranonce (extranonce1Length * 2) w = Some (v, e)"
    and w': "w' = v\<lparr>pw_clients := pw_clients v @ [\<lparr>sc_ip = ip, sc_login = [], sc_extranonce1 = e,
               sc_userAgent = [], sc_sessionID = []\<rparr>], pw_numberOfConnections := pw_numberOfConnections v + 1\<rparr>"
    using assms by (auto simp: accept_connection_def isBanned_def)
  obtain n where n: "v = (drawn n 8 w)\<lparr>pw_extranonces := e # pw_extranonces w\<rparr>"
    "e \<notin> set (pw_extranonces w)" "length e = 8" "set e \<subseteq> set hex_chars"
    using unique_search_result [OF v] by (auto simp: extranonce1Length_def)
  have "front_step k config (front_of w) (front_of w')"
    using front_step.joins [of "front_of w" config e k ip] ip(2) n(2-4)
    by (simp add: w' n(1) front_of_def drawn_def)
  then show ?thesis by (auto simp: refines_def)
qed

section \<open>The server as a whole\<close>

text \<open>
  The running server: its state and the connections that are still read. A step is one
  connection, one line of a client, one notification of a block or one flush; other goroutines
  (the payouts) change neither clients nor sessions. A panic ends the program.
\<close>

record server =
  sv_world :: pool_world
  sv_open :: "nat list"

inductive server_step ::
    "(bytes \<Rightarrow> bytes \<Rightarrow> bytes) \<Rightarrow> (bytes \<Rightarrow> bytes) \<Rightarrow> (string list \<Rightarrow> string list) \<Rightarrow> (string list \<Rightarrow> string list)
      \<Rightarrow> Config \<Rightarrow> server \<Rightarrow> server \<Rightarrow> bool"
  for k :: "bytes \<Rightarrow> bytes \<Rightarrow> bytes" and ripemd :: "bytes \<Rightarrow> bytes"
  and managers_order sessions_order :: "string list \<Rightarrow> string list" and config :: Config where
  accepts: "accept_connection config event (sv_world s) = Some (w', new) \<Longrightarrow>
    server_step k ripemd managers_order sessions_order config s
      (s\<lparr>sv_world := w', sv_open := (case new of None \<Rightarrow> [] | Some c \<Rightarrow> [c]) @ sv_open s\<rparr>)"
| reads_on: "c \<in> set (sv_open s) \<Longrightarrow> handle_read k config c r (sv_world s) = (w', Ok True) \<Longrightarrow>
    server_step k ripemd managers_order sessions_order config s (s\<lparr>sv_world := w'\<rparr>)"
| closes: "c \<in> set (sv_open s) \<Longrightarrow> handle_read k config c r (sv_world s) = (w', res) \<Longrightarrow>
    res = Ok False \<or> (\<exists>e. res = Err e) \<Longrightarrow>
    server_step k ripemd managers_order sessions_order config s
      (s\<lparr>sv_world := w', sv_open := filter (\<lambda>d. d \<noteq> c) (sv_open s)\<rparr>)"
| notified: "handle_notification k ripemd managers_order sessions_order config (sv_world s) = (w', Ok ()) \<Longrightarrow>
    server_step k ripemd managers_order sessions_order config s (s\<lparr>sv_world := w'\<rparr>)"
| flushes: "flushShareBuffer (sv_world s) = (w', Ok ()) \<Longrightarrow>
    server_step k ripemd managers_order sessions_order config s (s\<lparr>sv_world := w'\<rparr>)"
| others: "front_of w' = front_of (sv_world s) \<Longrightarrow>
    server_step k ripemd managers_order sessions_order config s (s\<lparr>sv_world := w'\<rparr>)"

lemma server_step_refines:
  "server_step k ripemd mo so config s s' \<Longrightarrow> refines k config (sv_world s) (sv_world s')"
proof (induction rule: server_step.induct)
  case (accepts event s w' new)
  then show ?case using accept_refines by simp
next
  case (reads_on c s r w')
  then show ?case using staysD [OF handle_read_refines] by simp
next
  case (closes c s r w' res)
  then show ?case using staysD [OF handle_read_refines] by simp
next
  case (notified s w')
  then show ?case using staysD [OF keeps_refines [OF keeps_front_notification]] by simp
next
  case (flushes s w')
  then show ?case using staysD [OF keeps_refines [OF keeps_front_flush]] by simp
qed (simp add: refines_def)

lemma server_run_refines:
  assumes "(server_step k ripemd mo so config)\<^sup>*\<^sup>* s s'"
  shows "refines k config (sv_world s) (sv_world s')"
  using assms
proof induction
  case (step t u)
  show ?case using transpD [OF refines_preorder(2) step.IH server_step_refines [OF step.hyps(2)]] .
qed (simp add: refines_def)

text \<open>An invariant of the small machine holds in every state the server reaches.\<close>

definition front_inductive :: "(bytes \<Rightarrow> bytes \<Rightarrow> bytes) \<Rightarrow> Config \<Rightarrow> (front \<Rightarrow> bool) \<Rightarrow> bool" where
  "front_inductive k config I \<longleftrightarrow> (\<forall>f f'. front_step k config f f' \<longrightarrow> I f \<longrightarrow> I f')"

lemma front_inductiveI:
  "(\<And>f f'. front_step k config f f' \<Longrightarrow> I f \<Longrightarrow> I f') \<Longrightarrow> front_inductive k config I"
  unfolding front_inductive_def by blast

lemma front_invariant:
  assumes "front_inductive k config I" "I (front_of (sv_world s))"
    and "(server_step k ripemd mo so config)\<^sup>*\<^sup>* s s'"
  shows "I (front_of (sv_world s'))"
proof -
  have "(front_step k config)\<^sup>*\<^sup>* (front_of (sv_world s)) (front_of (sv_world s'))"
    using server_run_refines [OF assms(3)] by (simp add: refines_def)
  then show ?thesis by induction (use assms(1,2) in \<open>auto simp: front_inductive_def\<close>)
qed

section \<open>Extranonces\<close>

definition extranonces_ok :: "front \<Rightarrow> bool" where
  "extranonces_ok f \<longleftrightarrow>
     (let es = map sc_extranonce1 (fr_clients f) in
      distinct es \<and> set es \<subseteq> set (fr_extranonces f) \<and> (\<forall>e \<in> set es. length e = 8 \<and> set e \<subseteq> set hex_chars))"

lemma map_update_same: "(\<And>x. g (h x) = g x) \<Longrightarrow> map g (xs[c := h (xs ! c)]) = map g xs"
  by (cases "c < length xs") (simp_all add: map_update list_update_beyond list_update_same_conv)

lemma extranonces_same:
  "map sc_extranonce1 (fr_clients f') = map sc_extranonce1 (fr_clients f) \<Longrightarrow> fr_extranonces f' = fr_extranonces f
    \<Longrightarrow> extranonces_ok f \<Longrightarrow> extranonces_ok f'"
  by (simp only: extranonces_ok_def)

lemma extranonces_step: "front_inductive k config extranonces_ok"
proof (rule front_inductiveI)
  fix f f' assume "front_step k config f f'" "extranonces_ok f"
  then show "extranonces_ok f'"
  proof (induction rule: front_step.induct)
    case (joins f e ip)
    then show ?case by (auto simp: extranonces_ok_def Let_def)
  next
    case (subscribes c f sid agent)
    show ?case
      by (rule extranonces_same [OF _ _ subscribes(2)])
        (simp_all add: map_update_same [where h = "\<lambda>x. x\<lparr>sc_userAgent := agent, sc_sessionID := sid\<rparr>"])
  next
    case (logs_in c f login)
    show ?case
      by (rule extranonces_same [OF _ _ logs_in(3)])
        (simp_all add: map_update_same [where h = "\<lambda>x. x\<lparr>sc_login := login\<rparr>"])
  qed (simp add: extranonces_ok_def Let_def)
qed

text \<open>
  C10. No two miners search the same space. In whatever order connections, requests, blocks and
  flushes come, at any time in the life of the server the extranonces of any two clients it
  ever accepted are different, and each is eight hexadecimal digits, the four bytes the
  coinbase reserves for it.
\<close>

theorem extranonces_never_collide:
  assumes "pw_clients (sv_world s) = []" "(server_step k ripemd mo so config)\<^sup>*\<^sup>* s s'"
    and "c < length (pw_clients (sv_world s'))" "d < length (pw_clients (sv_world s'))" "c \<noteq> d"
  shows "sc_extranonce1 (pw_clients (sv_world s') ! c) \<noteq> sc_extranonce1 (pw_clients (sv_world s') ! d)
    \<and> length (sc_extranonce1 (pw_clients (sv_world s') ! c)) = 8
    \<and> set (sc_extranonce1 (pw_clients (sv_world s') ! c)) \<subseteq> set hex_chars"
proof -
  have "extranonces_ok (front_of (sv_world s))" using assms(1) by (simp add: extranonces_ok_def front_of_def Let_def)
  from front_invariant [OF extranonces_step this assms(2)]
  have ok: "distinct (map sc_extranonce1 (pw_clients (sv_world s')))"
    "\<forall>client \<in> set (pw_clients (sv_world s')). length (sc_extranonce1 client) = 8 \<and> set (sc_extranonce1 client) \<subseteq> set hex_chars"
    by (simp_all add: extranonces_ok_def front_of_def Let_def)
  then show ?thesis using assms(3-5) by (auto simp: distinct_conv_nth)
qed

section \<open>Connections\<close>

definition connections_ok :: "Config \<Rightarrow> front \<Rightarrow> bool" where
  "connections_ok config f \<longleftrightarrow> fr_connections f = int (length (fr_clients f))
     \<and> fr_connections f \<le> max 0 (cf_MaxConnections config + 1)"

lemma connections_step: "front_inductive k config (connections_ok config)"
  by (rule front_inductiveI, erule front_step.cases) (auto simp: connections_ok_def)

definition full :: "Config \<Rightarrow> nat \<Rightarrow> front \<Rightarrow> bool" where
  "full config n f \<longleftrightarrow> cf_MaxConnections config < fr_connections f \<and> length (fr_clients f) = n"

lemma full_step: "front_inductive k config (full config n)"
  by (rule front_inductiveI, erule front_step.cases) (auto simp: full_def)

text \<open>
  C17. The server counts the connections it ever accepted, not those it has. It accepts one
  more than the configured maximum in its whole life: the counter is the number of clients
  ever seen and is never lowered, so that once the maximum is passed no step, in any
  continuation, adds a client, even when every connection has been closed.
\<close>

theorem connection_slots_are_never_freed:
  assumes "pw_clients (sv_world s) = []" "pw_numberOfConnections (sv_world s) = 0"
    and "(server_step k ripemd mo so config)\<^sup>*\<^sup>* s s'"
  shows "int (length (pw_clients (sv_world s'))) \<le> max 0 (cf_MaxConnections config + 1)
    \<and> (cf_MaxConnections config < int (length (pw_clients (sv_world s'))) \<longrightarrow>
       (\<forall>cs t. (server_step k ripemd mo so config)\<^sup>*\<^sup>* (s'\<lparr>sv_open := cs\<rparr>) t
          \<longrightarrow> length (pw_clients (sv_world t)) = length (pw_clients (sv_world s'))))"
proof -
  have "connections_ok config (front_of (sv_world s))" using assms(1,2) by (simp add: connections_ok_def front_of_def)
  from front_invariant [OF connections_step this assms(3)]
  have ok: "pw_numberOfConnections (sv_world s') = int (length (pw_clients (sv_world s')))"
    "pw_numberOfConnections (sv_world s') \<le> max 0 (cf_MaxConnections config + 1)"
    by (simp_all add: connections_ok_def front_of_def)
  have stuck: "length (pw_clients (sv_world t)) = length (pw_clients (sv_world s'))"
    if "cf_MaxConnections config < int (length (pw_clients (sv_world s')))"
      and "(server_step k ripemd mo so config)\<^sup>*\<^sup>* (s'\<lparr>sv_open := cs\<rparr>) t" for t cs
  proof -
    have "full config (length (pw_clients (sv_world s'))) (front_of (sv_world (s'\<lparr>sv_open := cs\<rparr>)))"
      using that(1) ok(1) by (simp add: full_def front_of_def)
    from front_invariant [OF full_step this that(2)] show ?thesis by (simp add: full_def front_of_def)
  qed
  show ?thesis using ok stuck by metis
qed

section \<open>Sessions\<close>

definition sessions_ok :: "(bytes \<Rightarrow> bytes \<Rightarrow> bytes) \<Rightarrow> Config \<Rightarrow> (string \<times> blockChainNode) list \<Rightarrow> front \<Rightarrow> bool" where
  "sessions_ok k config nodes f \<longleftrightarrow> fr_nodes f = nodes \<and> distinct (map fst (fr_sessions f))
     \<and> (\<forall>(sid, c) \<in> set (fr_sessions f). c < length (fr_clients f)
          \<and> login_accepted k config nodes (sc_login (fr_clients f ! c)))"

lemma set_AList_update: "set (AList.update a b al) \<subseteq> insert (a, b) (set al)"
  by (induction al) auto

lemma set_AList_delete: "set (AList.delete a al) \<subseteq> set al"
  by (auto simp: AList.delete_eq)

lemma sessions_step: "front_inductive k config (sessions_ok k config nodes)"
proof (rule front_inductiveI)
  fix f f' assume "front_step k config f f'" "sessions_ok k config nodes f"
  then show "sessions_ok k config nodes f'"
  proof (induction rule: front_step.induct)
  case (joins f e ip)
  then show ?case by (auto simp: sessions_ok_def nth_append)
next
  case (subscribes c f sid agent)
  then show ?case by (auto simp: sessions_ok_def nth_list_update)
next
  case (logs_in c f login)
  then show ?case using set_AList_update [of "sc_sessionID (fr_clients f ! c)" c "fr_sessions f"]
    by (auto simp: sessions_ok_def nth_list_update distinct_update)
next
  case (leaves c f)
  then show ?case using set_AList_delete [of "sc_sessionID (fr_clients f ! c)" "fr_sessions f"]
    by (auto simp: sessions_ok_def distinct_delete)
  qed
qed

text \<open>
  C11. Work goes to authorised miners only. In every reachable state each entry of the table of
  sessions, to which every new block is announced, is that of an accepted client whose login
  names a rig and, in the configured order, one address for every chain that is valid on the
  network of that chain's node; and no session id has two entries.
\<close>

theorem sessions_are_authorised:
  assumes "pw_sessions (sv_world s) = []" "(server_step k ripemd mo so config)\<^sup>*\<^sup>* s s'"
  shows "distinct (map fst (pw_sessions (sv_world s')))
    \<and> (\<forall>(sid, c) \<in> set (pw_sessions (sv_world s')). c < length (pw_clients (sv_world s'))
        \<and> login_accepted k config (pw_activeNodes (sv_world s)) (sc_login (pw_clients (sv_world s') ! c)))"
proof -
  have "sessions_ok k config (pw_activeNodes (sv_world s)) (front_of (sv_world s))"
    using assms(1) by (simp add: sessions_ok_def front_of_def)
  from front_invariant [OF sessions_step this assms(2)] show ?thesis by (simp add: sessions_ok_def front_of_def)
qed

section \<open>Runs\<close>

lemma accept_run:
  assumes "pw_numberOfConnections w \<le> cf_MaxConnections config" "attempt 8 w 0 = e" "e \<notin> set (pw_extranonces w)"
  shows "\<exists>w'. accept_connection config (AcceptedFrom ip) w = Some (w', Some (length (pw_clients w)))
    \<and> pw_clients w' = pw_clients w @ [\<lparr>sc_ip = ip, sc_login = '''', sc_extranonce1 = e, sc_userAgent = '''', sc_sessionID = ''''\<rparr>]
    \<and> pw_extranonces w' = e # pw_extranonces w \<and> pw_numberOfConnections w' = pw_numberOfConnections w + 1
    \<and> pw_rand w' = pw_rand w \<and> pw_rand_next w' = pw_rand_next w + 8 \<and> pw_sessions w' = pw_sessions w
    \<and> pw_activeNodes w' = pw_activeNodes w \<and> pw_workCache w' = pw_workCache w \<and> pw_writes w' = pw_writes w"
  using assms unique_search_finds [of 8 w 0]
  by (simp add: accept_connection_def isBanned_def extranonce1Length_def drawn_def)

definition two_clients :: "stratumClient list" where
  "two_clients = map (\<lambda>(ip, e). \<lparr>sc_ip = ip, sc_login = '''', sc_extranonce1 = e, sc_userAgent = '''', sc_sessionID = ''''\<rparr>)
     [(''1.1.1.1'', ''01234567''), (''2.2.2.2'', ''89abcdef'')]"

definition idle_server :: server where
  "idle_server = \<lparr>sv_world = example_pool [''dogecoin''] [] \<lparr>pair_BitcoinBlock = empty_block, pair_AuxBlocks = []\<rparr>, sv_open = []\<rparr>"

lemma idle_server_simps [simp]:
  "pw_clients (sv_world idle_server) = []" "pw_sessions (sv_world idle_server) = []" "pw_extranonces (sv_world idle_server) = []"
  "pw_numberOfConnections (sv_world idle_server) = 0" "pw_rand (sv_world idle_server) = (\<lambda>n. n)"
  "pw_rand_next (sv_world idle_server) = 0" "pw_writes (sv_world idle_server) = []" "pw_workCache (sv_world idle_server) = []"
  "pw_activeNodes (sv_world idle_server) = [(''dogecoin'', example_node ''dogecoin'')]" "sv_open idle_server = []"
  by (simp_all add: idle_server_def) (simp add: example_pool_def rpc_world.defs pool_world.defs)

lemma example_hex: "random_hex_at (\<lambda>n. n) 8 0 = ''01234567''" "random_hex_at (\<lambda>n. n) 8 8 = ''89abcdef''"
  by code_simp+

lemma joined_server:
  fixes k :: "bytes \<Rightarrow> bytes \<Rightarrow> bytes" and ripemd :: "bytes \<Rightarrow> bytes" and mo so :: "string list \<Rightarrow> string list"
  assumes "1 \<le> cf_MaxConnections config"
  obtains s' where "(server_step k ripemd mo so config)\<^sup>*\<^sup>* idle_server s'" "pw_clients (sv_world s') = two_clients"
    "sv_open s' = [1, 0]" "pw_sessions (sv_world s') = []" "pw_activeNodes (sv_world s') = [(''dogecoin'', example_node ''dogecoin'')]"
    "pw_workCache (sv_world s') = []" "pw_writes (sv_world s') = []"
proof -
  have a0: "attempt 8 (sv_world idle_server) 0 = ''01234567''"
    by (simp add: attempt_def example_hex)
  obtain w1 where w1: "accept_connection config (AcceptedFrom ''1.1.1.1'') (sv_world idle_server) = Some (w1, Some 0)"
    "pw_clients w1 = [two_clients ! 0]" "pw_extranonces w1 = [''01234567'']" "pw_numberOfConnections w1 = 1"
    "pw_rand w1 = (\<lambda>n. n)" "pw_rand_next w1 = 8" "pw_sessions w1 = []" "pw_writes w1 = []" "pw_workCache w1 = []"
    "pw_activeNodes w1 = [(''dogecoin'', example_node ''dogecoin'')]"
    using accept_run [where w = "sv_world idle_server" and config = config and ip = "''1.1.1.1''", OF _ a0] assms
    by (force simp: two_clients_def)
  have a1: "attempt 8 w1 0 = ''89abcdef''"
    by (simp add: attempt_def w1(5,6) example_hex)
  obtain w2 where w2: "accept_connection config (AcceptedFrom ''2.2.2.2'') w1 = Some (w2, Some 1)"
    "pw_clients w2 = two_clients" "pw_sessions w2 = []" "pw_writes w2 = []" "pw_workCache w2 = []"
    "pw_activeNodes w2 = [(''dogecoin'', example_node ''dogecoin'')]"
    using accept_run [where w = w1 and config = config and ip = "''2.2.2.2''", OF _ a1] assms w1
    by (force simp: two_clients_def)
  let ?s1 = "\<lparr>sv_world = w1, sv_open = [0]\<rparr>" and ?s2 = "\<lparr>sv_world = w2, sv_open = [1, 0]\<rparr>"
  have "server_step k ripemd mo so config idle_server ?s1"
    using server_step.accepts [OF w1(1), of k ripemd mo so] by (simp add: idle_server_def)
  moreover have "server_step k ripemd mo so config ?s1 ?s2"
    using server_step.accepts [where s = ?s1, of config _ w2 "Some 1" k ripemd mo so] w2(1) by simp
  ultimately have "(server_step k ripemd mo so config)\<^sup>*\<^sup>* idle_server ?s2" by auto
  then show ?thesis using w2 by (intro that [of ?s2]) simp_all
qed

theorem extranonces_never_collide_witness:
  "\<exists>s'. (server_step (\<lambda>p s. p) (\<lambda>b. b) (\<lambda>x. x) (\<lambda>x. x) (example_config [''dogecoin'']))\<^sup>*\<^sup>* idle_server s'
     \<and> length (pw_clients (sv_world s')) = 2
     \<and> sc_extranonce1 (pw_clients (sv_world s') ! 0) \<noteq> sc_extranonce1 (pw_clients (sv_world s') ! 1)"
proof -
  have max: "1 \<le> cf_MaxConnections (example_config [''dogecoin''])" by (simp add: example_config_def)
  obtain s' where s': "(server_step (\<lambda>p s. p) (\<lambda>b. b) (\<lambda>x. x) (\<lambda>x. x) (example_config [''dogecoin'']))\<^sup>*\<^sup>* idle_server s'"
    "pw_clients (sv_world s') = two_clients"
    using joined_server [OF max] .
  have "length (pw_clients (sv_world s')) = 2" using s'(2) by (simp add: two_clients_def)
  then show ?thesis using s'(1) extranonces_never_collide [OF _ s'(1), of 0 1] by auto
qed

theorem connection_slots_are_never_freed_witness:
  "\<exists>s'. (server_step (\<lambda>p s. p) (\<lambda>b. b) (\<lambda>x. x) (\<lambda>x. x) ((example_config [''dogecoin''])\<lparr>cf_MaxConnections := 1\<rparr>))\<^sup>*\<^sup>* idle_server s'
     \<and> length (pw_clients (sv_world s')) = 2
     \<and> (\<forall>t. (server_step (\<lambda>p s. p) (\<lambda>b. b) (\<lambda>x. x) (\<lambda>x. x) ((example_config [''dogecoin''])\<lparr>cf_MaxConnections := 1\<rparr>))\<^sup>*\<^sup>*
              (s'\<lparr>sv_open := []\<rparr>) t \<longrightarrow> length (pw_clients (sv_world t)) = 2)"
proof -
  let ?config = "(example_config [''dogecoin''])\<lparr>cf_MaxConnections := 1\<rparr>"
  have max: "1 \<le> cf_MaxConnections ?config" by simp
  obtain s' where s': "(server_step (\<lambda>p s. p) (\<lambda>b. b) (\<lambda>x. x) (\<lambda>x. x) ?config)\<^sup>*\<^sup>* idle_server s'"
    "pw_clients (sv_world s') = two_clients"
    using joined_server [OF max] .
  have "length (pw_clients (sv_world s')) = 2" using s'(2) by (simp add: two_clients_def)
  then show ?thesis using s'(1) connection_slots_are_never_freed [OF _ _ s'(1)] by auto
qed

section \<open>Logging in\<close>

lemma authorise_value:
  assumes "c < length (pw_clients w)" "decode_strings (rq_Params request) = (login # ps, None)" "pw_writes w = []"
    and "login_accepted k config (pw_activeNodes w) login"
  shows "miningAuthorize k config request c w
    = (w\<lparr>pw_clients := (pw_clients w)[c := (pw_clients w ! c)\<lparr>sc_login := login\<rparr>],
         pw_sessions := AList.update (sc_sessionID (pw_clients w ! c)) c (pw_sessions w),
         pw_sent := pw_sent w @ [(c, AuthorizePacket (rq_Id request) True), (c, miningSetDifficulty (cf_PoolDifficulty config))]\<rparr>,
       Ok (miningNotify (pw_workCache w @ [WBool False])))"
proof -
  obtain r where r: "r = Ok ()"
    "miningAuthorize k config request c w
      = bind_op (lift_op r) (\<lambda>_. bind_op (put_client c (\<lambda>cl. cl\<lparr>sc_login := login\<rparr>)) (\<lambda>_.
          bind_op (addSession c) (greet config request c))) w"
    using authorise_checks [OF assms(1,2), of k config] assms(4) by blast
  have send: "bind_op (sendPacket p c) g v = g () (v\<lparr>pw_sent := pw_sent v @ [(c, p)]\<rparr>)"
    if "pw_writes v = []" for p g and v :: "'a pool_world_scheme"
  proof -
    have same: "v\<lparr>pw_writes := [], pw_sent := pw_sent v @ [(c, p)]\<rparr> = v\<lparr>pw_sent := pw_sent v @ [(c, p)]\<rparr>"
      using that by (cases v) simp
    show ?thesis by (simp add: sendPacket_def bind_op_def that) (rule arg_cong [where f = "g ()", OF same])
  qed
  show ?thesis
    using assms(1,3) unfolding r
    by (simp add: lift_op_bind put_client_def put_op_bind addSession_def bind_op_assoc client_at_bind greet_def send
        generateWorkFromCache_def get_op_bind return_op_def)
qed

definition authorise_line :: "string \<Rightarrow> line_read" where
  "authorise_line login = ReadLine (Request \<lparr>rq_Id = ''1'', rq_Method = ''mining.authorize'',
     rq_Params = Some (JList [JString login, JString ''x''])\<rparr>)"

lemma authorise_line_value:
  assumes "c < length (pw_clients w)" "pw_writes w = []" "login_accepted k config (pw_activeNodes w) login"
  shows "\<exists>w'. handle_read k config c (authorise_line login) w = (w', Ok True)
    \<and> pw_clients w' = (pw_clients w)[c := (pw_clients w ! c)\<lparr>sc_login := login\<rparr>]
    \<and> pw_sessions w' = AList.update (sc_sessionID (pw_clients w ! c)) c (pw_sessions w)
    \<and> pw_sent w' = pw_sent w @ [(c, AuthorizePacket ''1'' True), (c, miningSetDifficulty (cf_PoolDifficulty config)),
        (c, miningNotify (pw_workCache w @ [WBool False]))]"
proof -
  let ?request = "\<lparr>rq_Id = ''1'', rq_Method = ''mining.authorize'', rq_Params = Some (JList [JString login, JString ''x''])\<rparr>"
  have "decode_strings (rq_Params ?request) = (login # [''x''], None)" by (simp add: decode_strings_def)
  note run = authorise_value [OF assms(1) this assms(2,3)]
  obtain w1 where w1: "miningAuthorize k config ?request c w = (w1, Ok (miningNotify (pw_workCache w @ [WBool False])))"
    "pw_clients w1 = (pw_clients w)[c := (pw_clients w ! c)\<lparr>sc_login := login\<rparr>]"
    "pw_sessions w1 = AList.update (sc_sessionID (pw_clients w ! c)) c (pw_sessions w)"
    "pw_sent w1 = pw_sent w @ [(c, AuthorizePacket ''1'' True), (c, miningSetDifficulty (cf_PoolDifficulty config))]"
    "pw_writes w1 = []"
    using assms(2) by (intro that [OF run]) simp_all
  then show ?thesis
    by (simp add: handle_read_def authorise_line_def respondToStratumClient_def handleStratumRequest_def bind_op_assoc)
      (simp add: bind_op_def sendPacket_def return_op_def)
qed

text \<open>
  C33. Clients that skip the subscription share one session. A client that authorises without
  having subscribed is entered under the empty session id. If another one already is, that one
  loses its session without notice and gets no further work; and the session of the second
  ends when any client that never subscribed disconnects.
\<close>

theorem unsubscribed_clients_share_a_session:
  assumes "c < length (pw_clients w)" "d < length (pw_clients w)" "e < length (pw_clients w)" "distinct [c, d, e]"
    and "\<forall>i \<in> {c, d, e}. sc_sessionID (pw_clients w ! i) = ''''"
    and "distinct (map fst (pw_sessions w))" "\<forall>sid. (sid, c) \<in> set (pw_sessions w) \<longleftrightarrow> sid = ''''"
    and "pw_writes w = []" "login_accepted k config (pw_activeNodes w) login"
  shows "\<exists>w'. handle_read k config d (authorise_line login) w = (w', Ok True)
    \<and> map_of (pw_sessions w') '''' = Some d \<and> c \<notin> snd ` set (pw_sessions w')
    \<and> (\<forall>w''. fst (handle_read k config e ReadEOF w') = w'' \<longrightarrow>
         map_of (pw_sessions w'') '''' = None \<and> c \<notin> snd ` set (pw_sessions w''))"
proof -
  obtain w' where w': "handle_read k config d (authorise_line login) w = (w', Ok True)"
    "pw_clients w' = (pw_clients w)[d := (pw_clients w ! d)\<lparr>sc_login := login\<rparr>]"
    "pw_sessions w' = AList.update '''' d (pw_sessions w)"
    using authorise_line_value [OF assms(2,8,9)] assms(5) by auto
  have distinct: "distinct (map fst (pw_sessions w'))" unfolding w'(3) by (rule distinct_update [OF assms(6)])
  have d: "map_of (pw_sessions w') '''' = Some d" unfolding w'(3) by (simp add: update_conv')
  have c: "c \<notin> snd ` set (pw_sessions w')"
  proof
    assume "c \<in> snd ` set (pw_sessions w')"
    then obtain sid where "(sid, c) \<in> set (pw_sessions w')" by auto
    then have sid: "map_of (pw_sessions w') sid = Some c" using distinct by simp
    then have "sid \<noteq> ''''" using d assms(4) by auto
    moreover from this have "map_of (pw_sessions w) sid = Some c" using sid unfolding w'(3) by (simp add: update_conv')
    ultimately show False using assms(7) map_of_SomeD by metis
  qed
  have e: "sc_sessionID (pw_clients w' ! e) = ''''" using w'(2) assms(3-5) by simp
  have len: "e < length (pw_clients w')" using w'(2) assms(3) by simp
  have "pw_sessions (fst (handle_read k config e ReadEOF w')) = AList.delete '''' (pw_sessions w')"
    using len by (simp add: handle_read_def client_at_bind removeSession_def put_op_bind fail_op_def e)
  moreover have "c \<notin> snd ` set (AList.delete '''' (pw_sessions w'))"
    using c set_AList_delete [of "''''" "pw_sessions w'"] by auto
  ultimately show ?thesis using w'(1) d c by (intro exI [of _ w']) (simp add: delete_conv')
qed

section \<open>Submitting without a login\<close>

lemma recieve_ignores_login:
  "recieveWorkFromClient k config share (client\<lparr>sc_login := login\<rparr>) = recieveWorkFromClient k config share client"
proof -
  have "read_submission b share (client\<lparr>sc_login := login\<rparr>) = read_submission b share client"
    and "weigh_submission config b rig (client\<lparr>sc_login := login\<rparr>) = weigh_submission config b rig client"
    and "share_of config h m rig (client\<lparr>sc_login := login\<rparr>) sd bd now = share_of config h m rig client sd bd now"
    for b rig h m sd bd now
    by (simp_all add: read_submission_def weigh_submission_def share_of_def cong: if_cong)
  then show ?thesis unfolding recieveWorkFromClient_def by presburger
qed

text \<open>
  The reply to a submission says nothing about it. Any submission that decodes and does
  not bring the server down is answered with \<open>true\<close>, whether its share was accepted, refused
  or malformed; and the login of the client plays no part in it: a client that never authorised
  is credited like any other, under the name the submission carries.
\<close>

theorem submissions_are_acknowledged:
  assumes "c < length (pw_clients w)" "decode_work (rq_Params request) = Ok work"
    and "recieveWorkFromClient k config work (pw_clients w ! c) w = (w', r)" "\<not> is_panic r"
  shows "miningSubmit k config request c w = (w', Ok (SubmitPacket (rq_Id request) True))
    \<and> (\<forall>login. recieveWorkFromClient k config work ((pw_clients w ! c)\<lparr>sc_login := login\<rparr>) w = (w', r))"
proof -
  have "logOnError (recieveWorkFromClient k config work (pw_clients w ! c)) w
      = (w', Ok (case r of Ok x \<Rightarrow> Some x | _ \<Rightarrow> None))"
    using assms(3,4) by (cases r) (simp_all add: logOnError_def try_op_def bind_op_def return_op_def)
  then have "miningSubmit k config request c w = (w', Ok (SubmitPacket (rq_Id request) True))"
    using assms(1,2) by (simp add: miningSubmit_def lift_op_bind client_at_bind) (simp add: bind_op_def return_op_def)
  then show ?thesis using assms(3) by (simp add: recieve_ignores_login)
qed

section \<open>Instances\<close>

definition doge_login :: string where
  "doge_login = CHR ''D'' # replicate 33 CHR ''x'' @ ''.rig''"

lemma doge_login_accepted:
  "login_accepted (\<lambda>p s. p) (example_config [''dogecoin'']) [(''dogecoin'', example_node ''dogecoin'')] doge_login"
  by code_simp

theorem sessions_are_authorised_witness:
  "\<exists>s'. (server_step (\<lambda>p s. p) (\<lambda>b. b) (\<lambda>x. x) (\<lambda>x. x) (example_config [''dogecoin'']))\<^sup>*\<^sup>* idle_server s'
     \<and> pw_sessions (sv_world s') = [('''', 0)]
     \<and> login_accepted (\<lambda>p s. p) (example_config [''dogecoin'']) [(''dogecoin'', example_node ''dogecoin'')]
         (sc_login (pw_clients (sv_world s') ! 0))"
proof -
  let ?run = "server_step (\<lambda>p s. p) (\<lambda>b. b) (\<lambda>x. x) (\<lambda>x. x) (example_config [''dogecoin''])"
  have max: "1 \<le> cf_MaxConnections (example_config [''dogecoin''])" by (simp add: example_config_def)
  obtain s where s: "?run\<^sup>*\<^sup>* idle_server s" "pw_clients (sv_world s) = two_clients" "sv_open s = [1, 0]"
    "pw_sessions (sv_world s) = []" "pw_activeNodes (sv_world s) = [(''dogecoin'', example_node ''dogecoin'')]" "pw_writes (sv_world s) = []"
    using joined_server [OF max] .
  obtain w' where w': "handle_read (\<lambda>p s. p) (example_config [''dogecoin'']) 0 (authorise_line doge_login) (sv_world s) = (w', Ok True)"
    "pw_sessions w' = [('''', 0)]"
    using authorise_line_value [of 0 "sv_world s" "\<lambda>p s. p" "example_config [''dogecoin'']" doge_login] doge_login_accepted s
    by (auto simp: two_clients_def)
  have "?run s (s\<lparr>sv_world := w'\<rparr>)" by (rule server_step.reads_on [OF _ w'(1)]) (simp add: s(3))
  then have run: "?run\<^sup>*\<^sup>* idle_server (s\<lparr>sv_world := w'\<rparr>)" using s(1) by auto
  have "\<forall>(sid, c) \<in> set (pw_sessions w'). login_accepted (\<lambda>p s. p) (example_config [''dogecoin''])
      [(''dogecoin'', example_node ''dogecoin'')] (sc_login (pw_clients w' ! c))"
    using sessions_are_authorised [OF _ run] by auto
  then show ?thesis using run w'(2) by (intro exI [of _ "s\<lparr>sv_world := w'\<rparr>"]) simp
qed

definition three_clients :: pool_world where
  "three_clients = (sv_world idle_server)\<lparr>pw_clients := two_clients @ [two_clients ! 0], pw_sessions := [('''', 0)]\<rparr>"

theorem unsubscribed_clients_share_a_session_witness:
  "\<exists>w'. handle_read (\<lambda>p s. p) (example_config [''dogecoin'']) 1 (authorise_line doge_login) three_clients = (w', Ok True)
    \<and> map_of (pw_sessions w') '''' = Some 1
    \<and> map_of (pw_sessions (fst (handle_read (\<lambda>p s. p) (example_config [''dogecoin'']) 2 ReadEOF w'))) '''' = None"
proof -
  have w: "pw_clients three_clients = two_clients @ [two_clients ! 0]" "pw_sessions three_clients = [('''', 0)]"
    "pw_writes three_clients = []" "pw_activeNodes three_clients = [(''dogecoin'', example_node ''dogecoin'')]"
    by (simp_all add: three_clients_def)
  have ids: "\<forall>i \<in> {0, 1, 2}. sc_sessionID (pw_clients three_clients ! i) = ''''" by (simp add: w(1) two_clients_def)
  have "login_accepted (\<lambda>p s. p) (example_config [''dogecoin'']) (pw_activeNodes three_clients) doge_login"
    unfolding w(4) by (rule doge_login_accepted)
  from unsubscribed_clients_share_a_session [OF _ _ _ _ ids _ _ w(3) this] show ?thesis
    by (auto simp: w(1,2) two_clients_def)
qed

theorem submissions_are_acknowledged_witness:
  "miningSubmit (\<lambda>p s. p) (example_config [''dogecoin'']) \<lparr>rq_Id = ''7'', rq_Method = ''mining.submit'',
       rq_Params = Some (JList [JString ''nobody''])\<rparr> 0 three_clients
     = (three_clients, Ok (SubmitPacket ''7'' True))"
proof -
  let ?request = "\<lparr>rq_Id = ''7'', rq_Method = ''mining.submit'', rq_Params = Some (JList [JString ''nobody''])\<rparr>"
  have "bb_Template (Pair_GetPrimary (pw_templates three_clients)) = None"
    by (simp add: three_clients_def idle_server_def Pair_GetPrimary_def empty_block_def)
  note refused = recieve_no_template [OF this]
  have "decode_work (rq_Params ?request) = Ok [WString ''nobody'']" by (simp add: decode_work_def)
  from submissions_are_acknowledged [OF _ this refused] show ?thesis
    by (simp add: three_clients_def two_clients_def)
qed

end
