(* ===== verification/LegacyRpc.thy ===== *)
theory LegacyRpc
  imports PoolServer
begin

text \<open>
  The node client of the block package, \<open>src/bitcoin/rpc.go\<close>, older than that of \<open>src/rpc\<close>
  and called by nothing: the package's one client, a call, and the two requests made with it.
  The nodes are a script of answers, one per request; \<open>time.ParseDuration\<close> and the check of the
  URL by \<open>http.NewRequest\<close> are arguments. The parameters of both requests always have a JSON
  text.
\<close>

section \<open>The client\<close>

record rpcClient =
  rl_nodeURL :: string
  rl_sickRate :: int
  rl_Timeout :: int

text \<open>The text of an answer: not JSON, JSON that does not fit the response, or a response.\<close>

datatype answer_text = NoJson go_error | OtherJson go_error | ResponseJson rpcResponse

datatype answer = NoAnswer go_error | Answer nat answer_text

record legacy_world =
  lw_client :: "rpcClient option"
  lw_answers :: "answer list"
  lw_log :: "(string \<times> string \<times> rpc_param list) list"

definition makeRPCClient :: "(string \<Rightarrow> int outcome) \<Rightarrow> string \<Rightarrow> string \<Rightarrow> rpcClient outcome" where
  "makeRPCClient ParseDuration url timeout =
     (case ParseDuration timeout of
        Err e \<Rightarrow> Panic (PanicError (''util: Can'' @ [CHR 0x27] @ ''blockTemplate parse duration `'' @ timeout @ ''`: '') e)
      | Panic p \<Rightarrow> Panic p
      | Ok timeOut \<Rightarrow> Ok \<lparr>rl_nodeURL = url, rl_sickRate = 0, rl_Timeout = timeOut\<rparr>)"

text \<open>
  What the reply is decoded into: the address of a response, or a response itself, which
  \<open>encoding/json\<close> refuses once it has read a JSON value.
\<close>

datatype reply_target = ToAddress | ToValue

fun decode_reply :: "reply_target \<Rightarrow> answer_text \<Rightarrow> go_error option \<times> rpcResponse option" where
  "decode_reply t (NoJson e) = (Some e, None)"
| "decode_reply ToValue (OtherJson e) = (Some (ErrText ''json: Unmarshal(non-pointer bitcoin.rpcResponse)''), None)"
| "decode_reply ToValue (ResponseJson r) = (Some (ErrText ''json: Unmarshal(non-pointer bitcoin.rpcResponse)''), None)"
| "decode_reply ToAddress (OtherJson e) = (Some e, None)"
| "decode_reply ToAddress (ResponseJson r) = (None, Some r)"

text \<open>A request that fails counts against the client.\<close>

definition Call ::
    "(string \<Rightarrow> go_error option) \<Rightarrow> rpcClient \<Rightarrow> string \<Rightarrow> rpc_param list \<Rightarrow> reply_target
      \<Rightarrow> (legacy_world, (go_error option \<times> rpcResponse option) \<times> nat) op" where
  "Call NewRequest r method args target w =
     (case NewRequest (rl_nodeURL r) of
        Some err \<Rightarrow> (w, Ok ((Some err, None), 0))
      | None \<Rightarrow>
          let w = w\<lparr>lw_log := lw_log w @ [(rl_nodeURL r, method, args)]\<rparr>;
              sick = w\<lparr>lw_client := Some (r\<lparr>rl_sickRate := rl_sickRate r + 1\<rparr>)\<rparr> in
          case lw_answers w of
            [] \<Rightarrow> (sick, Ok ((Some (ErrRemote ''connection refused''), None), 0))
          | NoAnswer err # as' \<Rightarrow> (sick\<lparr>lw_answers := as'\<rparr>, Ok ((Some err, None), 0))
          | Answer status body # as' \<Rightarrow> (w\<lparr>lw_answers := as'\<rparr>, Ok (decode_reply target body, status)))"

text \<open>The client that is there, made at the first request.\<close>

definition the_client :: "(string \<Rightarrow> int outcome) \<Rightarrow> string \<Rightarrow> string \<Rightarrow> (legacy_world, rpcClient) op" where
  "the_client ParseDuration rpcURL timeout =
     bind_op (get_op lw_client) (\<lambda>client.
     case client of
       Some c \<Rightarrow> return_op c
     | None \<Rightarrow>
         bind_op (lift_op (makeRPCClient ParseDuration rpcURL timeout)) (\<lambda>c.
         bind_op (put_op (\<lambda>w. w\<lparr>lw_client := Some c\<rparr>)) (\<lambda>_. return_op c)))"

section \<open>The requests\<close>

definition RpcTemplate ::
    "(string \<Rightarrow> int outcome) \<Rightarrow> (string \<Rightarrow> go_error option) \<Rightarrow> string \<Rightarrow> string \<Rightarrow> (legacy_world, Template) op" where
  "RpcTemplate ParseDuration NewRequest rpcURL timeout =
     bind_op (the_client ParseDuration rpcURL timeout) (\<lambda>client.
     bind_op (Call NewRequest client ''getblocktemplate'' [PRules] ToAddress) (\<lambda>((err, resp), status).
     case (err, resp) of
       (None, Some resp) \<Rightarrow>
         panicOnError (lift_op (unmarshal_with raw_template zero_Template (rs_Result resp)))
     | (Some err, _) \<Rightarrow> panic_op (PanicError '''' err)
     | (None, None) \<Rightarrow> panic_op PanicNil))"

text \<open>The response stays empty, as the decoder is not given its address.\<close>

definition RpcSubmit ::
    "(string \<Rightarrow> int outcome) \<Rightarrow> (string \<Rightarrow> go_error option) \<Rightarrow> BitcoinBlock \<Rightarrow> string \<Rightarrow> string \<Rightarrow> string
      \<Rightarrow> (legacy_world, unit) op" where
  "RpcSubmit ParseDuration NewRequest b rpcURL timeout submission =
     bind_op (the_client ParseDuration rpcURL timeout) (\<lambda>client.
     bind_op (Call NewRequest client ''submitblock'' [PString submission] ToValue) (\<lambda>((err, resp), status).
     case err of
       Some err \<Rightarrow> fail_op err
     | None \<Rightarrow>
         if status \<noteq> 200 then fail_op (ErrText (''http status: '' @ show_dec status @ '', ''))
         else return_op ()))"

section \<open>What the requests do\<close>

lemma decode_reply_value: "\<exists>e. decode_reply ToValue body = (Some e, None)"
  by (cases body) simp_all

lemma Call_value_fails: "\<exists>w' e status. Call NewRequest r method args ToValue w = (w', Ok ((Some e, None), status))"
proof -
  have "\<exists>e. decode_reply ToValue body = (Some e, None)" for body by (rule decode_reply_value)
  then show ?thesis
    by (auto simp: Call_def Let_def split: option.splits list.splits answer.splits)
qed

lemma Call_asks:
  assumes "NewRequest (rl_nodeURL r) = None"
  shows "\<exists>w' x. Call NewRequest r method args target w = (w', Ok x) \<and> lw_log w' = lw_log w @ [(rl_nodeURL r, method, args)]"
  using assms by (auto simp: Call_def Let_def split: list.splits answer.splits)

text \<open>No submission ever succeeds, whatever the node answers.\<close>

lemma RpcSubmit_never_succeeds: "snd (RpcSubmit ParseDuration NewRequest b url timeout submission w) \<noteq> Ok x"
proof (cases "the_client ParseDuration url timeout w")
  case (Pair w1 r)
  show ?thesis
  proof (cases r)
    case (Ok c)
    obtain w2 e status where "Call NewRequest c ''submitblock'' [PString submission] ToValue w1 = (w2, Ok ((Some e, None), status))"
      using Call_value_fails by blast
    then show ?thesis using Pair Ok by (simp add: RpcSubmit_def bind_op_def fail_op_def)
  qed (use Pair in \<open>simp_all add: RpcSubmit_def bind_op_def\<close>)
qed

text \<open>Once there is a client every request goes to its URL, not to the one that is asked for.\<close>

lemma RpcTemplate_first_url:
  assumes "lw_client w = Some c" "NewRequest (rl_nodeURL c) = None"
  shows "lw_log (fst (RpcTemplate ParseDuration NewRequest url timeout w)) = lw_log w @ [(rl_nodeURL c, ''getblocktemplate'', [PRules])]"
proof -
  have client: "the_client ParseDuration url timeout w = (w, Ok c)"
    using assms(1) by (simp add: the_client_def get_op_bind return_op_def)
  obtain w1 r where call: "Call NewRequest c ''getblocktemplate'' [PRules] ToAddress w = (w1, Ok r)"
    "lw_log w1 = lw_log w @ [(rl_nodeURL c, ''getblocktemplate'', [PRules])]"
    using Call_asks [of NewRequest c] assms(2) by blast
  have "keeps lw_log (panicOnError (lift_op r) :: (legacy_world, Template) op)" for r by (intro frames)
  then have "lw_log (fst (panicOnError (lift_op r) w1 :: legacy_world \<times> Template outcome)) = lw_log w1" for r
    by (simp add: keeps_def)
  then show ?thesis
    using client call
    by (cases r) (auto simp: RpcTemplate_def bind_op_def panic_op_def split: option.splits)
qed

end
