(* ===== verification/Logger.thy ===== *)
theory Logger
  imports Encoding
begin

text \<open>
  The levelled logger, \<open>src/utils/logger.go\<close>. What the runtime tells about the caller, the time
  as it is shown and the text of \<open>runtime.Stack\<close> are the record of a call site; an operand of a
  message is a string or the text that \<open>fmt\<close> shows for another value, and \<open>fmt.Sprintf\<close> is an
  argument. The state is the level, the standard output and where the default logger writes.
\<close>

section \<open>Levels\<close>

definition TRACE :: int where "TRACE = 4"
definition INFO :: int where "INFO = 3"
definition WARNING :: int where "WARNING = 2"
definition ERROR :: int where "ERROR = 1"
definition OFF :: int where "OFF = 0"

lemmas levels = TRACE_def INFO_def WARNING_def ERROR_def OFF_def

record logger =
  lg_level :: int
  lg_stdout :: string
  lg_default_prefix :: string
  lg_default_discarded :: bool

definition GetLevelFromString :: "string \<Rightarrow> int" where
  "GetLevelFromString str =
     (if str = ''TRACE'' then TRACE
      else if str = ''INFO'' then INFO
      else if str = ''WARNING'' then WARNING
      else if str = ''ERROR'' then ERROR
      else if str = ''OFF'' then OFF
      else TRACE)"

definition SetLogLevel :: "int \<Rightarrow> logger \<Rightarrow> logger" where
  "SetLogLevel level w = w\<lparr>lg_level := level, lg_default_prefix := ''[DEFAULT] '', lg_default_discarded := level \<noteq> TRACE\<rparr>"

section \<open>The number of the goroutine\<close>

definition space_chars :: string where
  "space_chars = map char_of [9, 10, 11, 12, 13, 32 :: nat]"

text \<open>\<open>strings.Fields\<close>: the words between runs of spaces.\<close>

fun words_from :: "string \<Rightarrow> string \<Rightarrow> string list" where
  "words_from word [] = (if word = '''' then [] else [word])"
| "words_from word (c # s) =
     (if c \<in> set space_chars then (if word = '''' then words_from '''' s else word # words_from '''' s)
      else words_from (word @ [c]) s)"

definition Fields :: "string \<Rightarrow> string list" where
  "Fields s = words_from '''' s"

definition TrimPrefix :: "string \<Rightarrow> string \<Rightarrow> string" where
  "TrimPrefix s prefix = (if take (length prefix) s = prefix then drop (length prefix) s else s)"

definition dec_val :: "char \<Rightarrow> nat option" where
  "dec_val c = (let n = of_char c :: nat in if 48 \<le> n \<and> n \<le> 57 then Some (n - 48) else None)"

fun dec_digits :: "nat \<Rightarrow> string \<Rightarrow> nat option" where
  "dec_digits n [] = Some n"
| "dec_digits n (c # s) = (case dec_val c of Some d \<Rightarrow> dec_digits (10 * n + d) s | None \<Rightarrow> None)"

definition Atoi :: "string \<Rightarrow> int option" where
  "Atoi s =
     (let (negative, digits) = (case s of c # cs \<Rightarrow> if c = CHR ''-'' then (True, cs) else if c = CHR ''+'' then (False, cs)
                                   else (False, s) | [] \<Rightarrow> (False, s)) in
      if digits = '''' then None
      else case dec_digits 0 digits of
        None \<Rightarrow> None
      | Some n \<Rightarrow>
          if negative then (if n \<le> 2 ^ 63 then Some (- int n) else None)
          else if n < 2 ^ 63 then Some (int n) else None)"

record log_site =
  ls_Path :: string
  ls_Line :: nat
  ls_Time :: string
  ls_Stack :: string

text \<open>The first 64 bytes of the stack's text.\<close>

definition goid :: "log_site \<Rightarrow> int outcome" where
  "goid site =
     (let buf = take 64 (ls_Stack site) in
      bind_out (nth_out (Fields (TrimPrefix buf ''goroutine '')) 0) (\<lambda>idField.
      case Atoi idField of
        Some number \<Rightarrow> Ok number
      | None \<Rightarrow> Panic (PanicText (''cannot get goroutine id: strconv.Atoi: parsing '' @ idField))))"

section \<open>Messages\<close>

datatype log_param = LogString string | LogValue string

fun param_text :: "log_param \<Rightarrow> string" where
  "param_text (LogString s) = s"
| "param_text (LogValue s) = s"

text \<open>\<open>filepath.Base\<close>.\<close>

definition Base :: "string \<Rightarrow> string" where
  "Base path =
     (if path = '''' then ''.''
      else let p = rev (dropWhile (\<lambda>c. c = CHR ''/'') (rev path)) in
        if p = '''' then ''/'' else last (split_on (CHR ''/'') p))"

fun spaced :: "string list \<Rightarrow> string" where
  "spaced [] = ''''"
| "spaced [s] = s"
| "spaced (s # ss) = s @ '' '' @ spaced ss"

definition newline :: string where "newline = [CHR 0x0A]"

definition print_line :: "string \<Rightarrow> logger \<Rightarrow> logger" where
  "print_line s w = w\<lparr>lg_stdout := lg_stdout w @ (if s \<noteq> '''' \<and> last s = CHR 0x0A then s else s @ newline)\<rparr>"

definition logBase :: "string \<Rightarrow> log_site \<Rightarrow> log_param list \<Rightarrow> logger \<Rightarrow> logger outcome" where
  "logBase prefix site params w =
     bind_out (goid site) (\<lambda>g.
       Ok (print_line (spaced ([''['' @ prefix @ '']'', ls_Time site,
             Base (ls_Path site) @ '':'' @ show_dec (ls_Line site) @ ''#'' @ show_int g] @ map param_text params) @ newline) w))"

definition LogTrace :: "log_site \<Rightarrow> log_param list \<Rightarrow> logger \<Rightarrow> logger outcome" where
  "LogTrace site params w = (if TRACE \<le> lg_level w then logBase ''TRACE'' site params w else Ok w)"

definition LogWarning :: "log_site \<Rightarrow> log_param list \<Rightarrow> logger \<Rightarrow> logger outcome" where
  "LogWarning site params w = (if WARNING \<le> lg_level w then logBase ''WARNING'' site params w else Ok w)"

definition LogInfo :: "log_site \<Rightarrow> log_param list \<Rightarrow> logger \<Rightarrow> logger outcome" where
  "LogInfo site params w = (if INFO \<le> lg_level w then logBase ''INFO'' site params w else Ok w)"

definition LogError :: "log_site \<Rightarrow> log_param list \<Rightarrow> logger \<Rightarrow> logger outcome" where
  "LogError site params w = (if ERROR \<le> lg_level w then logBase ''ERROR'' site params w else Ok w)"

text \<open>The format is the first operand, empty when that is no string, and the header is part of it.\<close>

definition logBasef ::
    "(string \<Rightarrow> log_param list \<Rightarrow> string) \<Rightarrow> string \<Rightarrow> log_site \<Rightarrow> log_param list \<Rightarrow> logger \<Rightarrow> logger outcome" where
  "logBasef Sprintf prefix site allParams w =
     bind_out (nth_out allParams 0) (\<lambda>first.
     let format = (case first of LogString s \<Rightarrow> s | LogValue _ \<Rightarrow> '''') in
     bind_out (goid site) (\<lambda>g.
     let formattedParams = ''['' @ prefix @ ''] '' @ ls_Time site
           @ '' '' @ Base (ls_Path site) @ '':'' @ show_dec (ls_Line site) @ ''#'' @ show_int g @ '' '' @ format in
     Ok (print_line (Sprintf formattedParams (tl allParams)) w)))"

definition LogTracef where
  "LogTracef Sprintf site params w = (if TRACE \<le> lg_level w then logBasef Sprintf ''TRACE'' site params w else Ok w)"

definition LogWarningf where
  "LogWarningf Sprintf site params w = (if WARNING \<le> lg_level w then logBasef Sprintf ''WARNING'' site params w else Ok w)"

definition LogInfof where
  "LogInfof Sprintf site params w = (if INFO \<le> lg_level w then logBasef Sprintf ''INFO'' site params w else Ok w)"

definition LogErrorf where
  "LogErrorf Sprintf site params w = (if ERROR \<le> lg_level w then logBasef Sprintf ''ERROR'' site params w else Ok w)"

section \<open>The stack\<close>

record stack_frame =
  sf_File :: string
  sf_Function :: string
  sf_Line :: nat

text \<open>\<open>fmt.Print\<close>: a space between two operands when neither is a string.\<close>

fun print_operands :: "log_param list \<Rightarrow> string" where
  "print_operands (LogValue a # LogValue b # ps) = a @ '' '' @ print_operands (LogValue b # ps)"
| "print_operands (p # ps) = param_text p @ print_operands ps"
| "print_operands [] = ''''"

definition frame_line :: "stack_frame \<Rightarrow> string" where
  "frame_line f = [CHR 0x09, CHR '' ''] @ sf_File f @ '' '' @ sf_Function f @ '':'' @ show_dec (sf_Line f) @ newline"

fun frames_loop :: "nat \<Rightarrow> stack_frame list \<Rightarrow> string" where
  "frames_loop idx [] = ''''"
| "frames_loop idx (f # fs) = (if 1 < idx then frame_line f else '''') @ frames_loop (idx + 1) fs"

definition LogStack :: "nat \<Rightarrow> stack_frame list \<Rightarrow> log_site \<Rightarrow> log_param list \<Rightarrow> logger \<Rightarrow> logger" where
  "LogStack n frames site params w =
     (if n = 0 then w
      else w\<lparr>lg_stdout := lg_stdout w @ ''[ERROR] '' @ ls_Time site @ '' - '' @ print_operands params @ newline
             @ frames_loop 0 frames\<rparr>)"

section \<open>What is logged\<close>

lemma dec_val_digit [simp]: "d < 10 \<Longrightarrow> dec_val (digit_char d) = Some d"
  by (simp add: dec_val_def digit_char_def)

lemma dec_digits_append: "dec_digits n (s @ t) = Option.bind (dec_digits n s) (\<lambda>m. dec_digits m t)"
  by (induction n s rule: dec_digits.induct) (simp_all split: option.splits)

lemma dec_digits_show: "dec_digits 0 (map digit_char (digits_base 10 n)) = Some n"
proof (induction n rule: less_induct)
  case (less n)
  show ?case
  proof (cases "n < 10")
    case True
    then show ?thesis by (simp add: digits_base.simps)
  next
    case False
    then have "digits_base 10 n = digits_base 10 (n div 10) @ [n mod 10]" by (subst digits_base.simps) simp
    then show ?thesis using less.IH [of "n div 10"] False by (simp add: dec_digits_append)
  qed
qed

lemma show_dec_digits: "c \<in> set (show_dec n) \<Longrightarrow> \<exists>d < 10. c = digit_char d"
  using digits_base_bound [of 10] by (auto simp: show_dec_def)

lemma digit_char_plain:
  assumes "d < 10"
  shows "digit_char d \<notin> set space_chars" "digit_char d \<noteq> CHR ''-''" "digit_char d \<noteq> CHR ''+''"
proof -
  have "of_char (digit_char d) = 48 + d" using assms by (simp add: digit_char_def)
  then show "digit_char d \<notin> set space_chars" "digit_char d \<noteq> CHR ''-''" "digit_char d \<noteq> CHR ''+''"
    using assms by (auto simp: space_chars_def)
qed

text \<open>The number is read back.\<close>

lemma Atoi_show_dec: "n < 2 ^ 63 \<Longrightarrow> Atoi (show_dec n) = Some (int n)"
proof -
  assume n: "n < 2 ^ 63"
  obtain c s where s: "show_dec n = c # s" by (cases "show_dec n") (simp_all add: show_dec_def)
  then have "c \<noteq> CHR ''-''" "c \<noteq> CHR ''+''" using show_dec_digits [of c n] digit_char_plain by auto
  moreover have "dec_digits 0 (c # s) = Some n" using dec_digits_show [of n] s by (simp add: show_dec_def)
  ultimately show ?thesis using n s by (simp add: Atoi_def)
qed

lemma words_from_word:
  assumes "\<forall>c \<in> set s. c \<notin> set space_chars" "c \<in> set space_chars" "word @ s \<noteq> ''''"
  shows "words_from word (s @ c # t) = (word @ s) # words_from '''' t"
  using assms by (induction s arbitrary: word) auto

lemma goid_reads:
  assumes "ls_Stack site = ''goroutine '' @ show_dec n @ '' ['' @ rest" "n < 2 ^ 63"
  shows "goid site = Ok (int n)"
proof -
  have "(10 :: nat) ^ 19 = 10000000000000000000" "(2 :: nat) ^ 63 = 9223372036854775808" by simp_all
  then have "n < 10 ^ 19" using assms(2) by linarith
  then have short: "length (show_dec n) \<le> 19" using length_digits_base [of 10 n 19] by (simp add: show_dec_def)
  let ?rest = "take (64 - length (''goroutine '' @ show_dec n @ '' '')) (''['' @ rest)"
  have "take 64 (''goroutine '' @ show_dec n @ '' ['' @ rest) = ''goroutine '' @ show_dec n @ CHR '' '' # ?rest"
    using short by (simp add: take_Cons')
  then have buf: "TrimPrefix (take 64 (ls_Stack site)) ''goroutine '' = show_dec n @ CHR '' '' # ?rest"
    using assms(1) by (simp add: TrimPrefix_def)
  have "\<forall>c \<in> set (show_dec n). c \<notin> set space_chars" using show_dec_digits digit_char_plain(1) by blast
  moreover have "CHR '' '' \<in> set space_chars" by code_simp
  moreover have "show_dec n \<noteq> ''''" by (simp add: show_dec_def)
  ultimately have "Fields (show_dec n @ CHR '' '' # ?rest) = show_dec n # words_from '''' ?rest"
    using words_from_word [of "show_dec n" "CHR '' ''" "''''"] by (simp add: Fields_def)
  then show ?thesis using buf Atoi_show_dec [OF assms(2)] by (simp add: goid_def nth_out_def)
qed

text \<open>What a level shows, every higher level shows; \<open>OFF\<close> shows nothing.\<close>

lemma off_is_silent:
  assumes "lg_level w = OFF"
  shows "LogTrace site ps w = Ok w" "LogInfo site ps w = Ok w" "LogWarning site ps w = Ok w" "LogError site ps w = Ok w"
  using assms by (simp_all add: LogTrace_def LogInfo_def LogWarning_def LogError_def levels)

lemma frames_loop_value: "frames_loop idx fs = concat (map frame_line (drop (2 - idx) fs))"
  by (induction idx fs rule: frames_loop.induct) (auto simp: drop_Cons' Suc_diff_le)

lemma logBasef_without_operands: "\<exists>p. logBasef Sprintf prefix site [] w = Panic p"
  by (simp add: logBasef_def nth_out_def)

end
