(* ===== verification/Startup.thy ===== *)
theory Startup
  imports Sessions
begin

text \<open>
  The start of the program, \<open>src/main.go\<close>, \<open>src/persistence/persister.go\<close> and the first part
  of \<open>src/pool/server.go\<close>: loading the configuration, a manager for every chain's nodes, the
  server's first work. \<open>time.ParseDuration\<close>, the configuration file and \<open>sql.Open\<close> are
  arguments. The services run in goroutines of their own: \<open>Start\<close> is what the pool server
  does before it listens, \<open>main_start\<close> what the main goroutine does before it only reports the
  memory in use.
\<close>

section \<open>src/main.go\<close>

definition mustParseDuration :: "(string \<Rightarrow> int outcome) \<Rightarrow> string \<Rightarrow> int outcome" where
  "mustParseDuration ParseDuration s =
     (case ParseDuration s of
        Err e \<Rightarrow> Panic (PanicError (''util: Can'' @ [CHR 0x27] @ ''t parse duration `'' @ s @ ''`: '') e)
      | r \<Rightarrow> r)"

text \<open>The first argument that is no flag.\<close>

definition parseCommandLineOptions :: "string list \<Rightarrow> string" where
  "parseCommandLineOptions arguments = (case arguments of [] \<Rightarrow> '''' | a # _ \<Rightarrow> a)"

definition rpc_Config :: "coinNodeConfig \<Rightarrow> NodeConfig" where
  "rpc_Config nodeConfig = \<lparr>nc_Name = cn_Name nodeConfig, nc_URL = cn_RPC_URL nodeConfig,
     nc_Username = cn_RPC_Username nodeConfig, nc_Password = cn_RPC_Password nodeConfig, nc_Timeout = cn_Timeout nodeConfig\<rparr>"

definition configured_nodes :: "Config \<Rightarrow> string \<Rightarrow> coinNodeConfig list" where
  "configured_nodes config chain = (case map_of (cf_BlockchainNodes config) chain of Some ns \<Rightarrow> ns | None \<Rightarrow> [])"

fun make_managers ::
    "(string \<Rightarrow> int outcome) \<Rightarrow> Config \<Rightarrow> string list \<Rightarrow> (string \<times> Manager) list \<Rightarrow> (string \<times> Manager) list outcome" where
  "make_managers ParseDuration configuration [] managers = Ok managers"
| "make_managers ParseDuration configuration (chain # chain_names) managers =
     bind_out (MakeRPCManager ParseDuration chain (map rpc_Config (configured_nodes configuration chain)) ''1h'') (\<lambda>manager.
       make_managers ParseDuration configuration chain_names (AList.update chain manager managers))"

definition makeRPCManagers :: "(string \<Rightarrow> int outcome) \<Rightarrow> Config \<Rightarrow> (string \<times> Manager) list outcome" where
  "makeRPCManagers ParseDuration configuration =
     make_managers ParseDuration configuration (cf_BlockChainOrder configuration) []"

section \<open>src/persistence/persister.go\<close>

definition connection_string :: "sqlConfig \<Rightarrow> string" where
  "connection_string config =
     ''postgres://'' @ sq_User config @ '':'' @ sq_Password config @ ''@'' @ sq_Host config @ '':''
       @ show_dec (unat (sq_Port config)) @ ''/'' @ sq_Database config @ ''?sslmode='' @ sq_SSLMode config"

definition MakePersister :: "(string \<Rightarrow> unit outcome) \<Rightarrow> Config \<Rightarrow> unit outcome" where
  "MakePersister sql_Open configuration = sql_Open (connection_string (cf_Persister configuration))"

section \<open>src/pool/server.go, src/pool/buffer.go: the start of the pool server\<close>

text \<open>The server's fields; the package's variables are as they were.\<close>

definition NewServer :: "(string \<times> Manager) list \<Rightarrow> 'z pool_world_scheme \<Rightarrow> 'z pool_world_scheme" where
  "NewServer rpcManagers w = w\<lparr>pw_activeNodes := [], pw_rpcManagers := rpcManagers,
     pw_templates := \<lparr>pair_BitcoinBlock = empty_block, pair_AuxBlocks = []\<rparr>, pw_workCache := [], pw_shareBuffer := []\<rparr>"

text \<open>The interval after which the goroutine flushes the buffer.\<close>

definition startBufferManager :: "(string \<Rightarrow> int outcome) \<Rightarrow> Config \<Rightarrow> int outcome" where
  "startBufferManager ParseDuration config = mustParseDuration ParseDuration (cf_ShareFlushInterval config)"

text \<open>
  Subscribing to the block notifications of every active node, the start of
  \<open>listenForBlockNotifications\<close>; dialling a URL and setting the subscription are arguments. What is
  received later is \<open>hash_block\<close> and \<open>handle_notification\<close>.
\<close>

definition createZMQSubscriptionToHashBlock ::
    "(string \<Rightarrow> go_error option) \<Rightarrow> (string \<Rightarrow> go_error option) \<Rightarrow> string \<Rightarrow> ('z, unit) pool_op" where
  "createZMQSubscriptionToHashBlock Dial SetOption blockChainName =
     bind_op (get_op (active_node blockChainName)) (\<lambda>node.
     let url = bn_NotifyURL node in
     case Dial url of
       Some err \<Rightarrow> fail_op err
     | None \<Rightarrow> (case SetOption url of Some err \<Rightarrow> fail_op err | None \<Rightarrow> return_op ()))"

definition subscribe_to_blocks ::
    "(string \<Rightarrow> go_error option) \<Rightarrow> (string \<Rightarrow> go_error option) \<Rightarrow> (string list \<Rightarrow> string list) \<Rightarrow> ('z, unit) pool_op" where
  "subscribe_to_blocks Dial SetOption nodes_order =
     bind_op (get_op (\<lambda>w. range_map nodes_order (pw_activeNodes w))) (\<lambda>nodes.
       for_op (\<lambda>(blockChainName, _). createZMQSubscriptionToHashBlock Dial SetOption blockChainName) nodes)"

text \<open>
  Until the server only waits for connections and notifications. The goroutine that accepts
  connections, started before the broadcast, takes its first step after this, and so does the
  one that flushes the buffer.
\<close>

definition Start ::
    "(string \<Rightarrow> int outcome) \<Rightarrow> (bytes \<Rightarrow> bytes \<Rightarrow> bytes) \<Rightarrow> (bytes \<Rightarrow> bytes) \<Rightarrow> (string \<Rightarrow> go_error option)
      \<Rightarrow> (string \<Rightarrow> go_error option) \<Rightarrow> (string list \<Rightarrow> string list) \<Rightarrow> (string list \<Rightarrow> string list)
      \<Rightarrow> (string list \<Rightarrow> string list) \<Rightarrow> Config \<Rightarrow> ('z, unit) pool_op" where
  "Start ParseDuration scryptKey ripemd Dial SetOption managers_order sessions_order nodes_order config =
     bind_op initiateSessions (\<lambda>_.
     bind_op (loadBlockchainNodes config) (\<lambda>_.
     bind_op (lift_op (startBufferManager ParseDuration config)) (\<lambda>_.
     if cf_BlockChainOrder config = [] then panic_op (PanicText ''makeslice: len out of range'')
     else
     bind_op (panicOnError (fetchRpcBlockTemplatesAndCacheWork scryptKey ripemd managers_order config)) (\<lambda>_.
     bind_op (generateWorkFromCache False) (\<lambda>work.
     bind_op (broadcastWork sessions_order work) (\<lambda>_.
       panicOnError (subscribe_to_blocks Dial SetOption nodes_order)))))))"

section \<open>src/main.go: main\<close>

record services =
  sv_Config :: Config
  sv_Managers :: "(string \<times> Manager) list"
  sv_HashrateWindow :: int
  sv_PoolStatsInterval :: int
  sv_PayoutInterval :: int
  sv_AppStatsInterval :: int

definition main_start ::
    "(string \<Rightarrow> int outcome) \<Rightarrow> (string \<Rightarrow> unit outcome) \<Rightarrow> (string \<Rightarrow> bytes outcome) \<Rightarrow> (bytes \<Rightarrow> Config outcome)
      \<Rightarrow> (string \<Rightarrow> unit outcome) \<Rightarrow> string list \<Rightarrow> services outcome" where
  "main_start ParseDuration open_file read_all unmarshal sql_Open arguments =
     (let configFileName = parseCommandLineOptions arguments;
          configFileName = (if configFileName = '''' then ''config.json'' else configFileName) in
      bind_out (LoadConfig open_file read_all unmarshal configFileName) (\<lambda>configuration.
      bind_out (logFatalOnError (MakePersister sql_Open configuration)) (\<lambda>_.
      bind_out (makeRPCManagers ParseDuration configuration) (\<lambda>rpcManagers.
      bind_out (mustParseDuration ParseDuration (cf_HashrateWindow configuration)) (\<lambda>hashrateWindow.
      bind_out (mustParseDuration ParseDuration (cf_PoolStatsInterval configuration)) (\<lambda>statsRecordInterval.
      bind_out (mustParseDuration ParseDuration (cf_PayoutInterval configuration)) (\<lambda>payouts.
      bind_out (mustParseDuration ParseDuration (cf_AppStatsInterval configuration)) (\<lambda>appStats.
        Ok \<lparr>sv_Config = configuration, sv_Managers = rpcManagers, sv_HashrateWindow = hashrateWindow,
            sv_PoolStatsInterval = statsRecordInterval, sv_PayoutInterval = payouts, sv_AppStatsInterval = appStats\<rparr>))))))))"

section \<open>A manager for every chain\<close>

lemma make_managers_value:
  assumes "make_managers ParseDuration config cs managers = Ok result"
  shows "map_of result chain = (if chain \<in> set cs
      then Some (case MakeRPCManager ParseDuration chain (map rpc_Config (configured_nodes config chain)) ''1h'' of
        Ok m \<Rightarrow> m | _ \<Rightarrow> undefined)
      else map_of managers chain)"
    and "\<forall>c \<in> set cs. \<exists>m. MakeRPCManager ParseDuration c (map rpc_Config (configured_nodes config c)) ''1h'' = Ok m"
proof -
  show "\<forall>c \<in> set cs. \<exists>m. MakeRPCManager ParseDuration c (map rpc_Config (configured_nodes config c)) ''1h'' = Ok m"
    using assms by (induction cs arbitrary: managers) (auto simp: bind_out_eq_Ok)
  show "map_of result chain = (if chain \<in> set cs
      then Some (case MakeRPCManager ParseDuration chain (map rpc_Config (configured_nodes config chain)) ''1h'' of
        Ok m \<Rightarrow> m | _ \<Rightarrow> undefined)
      else map_of managers chain)"
    using assms by (induction cs arbitrary: managers) (auto simp: bind_out_eq_Ok update_conv')
qed

text \<open>The client of the first node is the manager's active one.\<close>

definition first_client :: "(string \<Rightarrow> int outcome) \<Rightarrow> coinNodeConfig \<Rightarrow> RPCClient outcome" where
  "first_client ParseDuration node =
     NewRPCClient ParseDuration (cn_Name node) (cn_RPC_URL node) (cn_RPC_Username node) (cn_RPC_Password node) (cn_Timeout node)"

lemma manager_starts_first:
  assumes "MakeRPCManager ParseDuration chain (map rpc_Config nodes) ''1h'' = Ok m"
  shows "GetIndex m = 0"
    and "GetActiveClient m = (case nodes of [] \<Rightarrow> nth_out [] 0 | node # _ \<Rightarrow> first_client ParseDuration node)"
proof -
  show "GetIndex m = 0" using MakeRPCManager_starts(1) [OF assms] by (simp add: GetIndex_def)
  show "GetActiveClient m = (case nodes of [] \<Rightarrow> nth_out [] 0 | node # _ \<Rightarrow> first_client ParseDuration node)"
  proof (cases nodes)
    case Nil
    then show ?thesis using MakeRPCManager_starts [OF assms] by (simp add: GetActiveClient_def)
  next
    case (Cons node rest)
    then obtain c cs where "first_client ParseDuration node = Ok c" "mg_clients m = c # cs"
      using assms
      by (cases "ParseDuration ''1h''") (auto simp: MakeRPCManager_def bind_out_eq_Ok first_client_def rpc_Config_def)
    then show ?thesis using Cons MakeRPCManager_starts(1) [OF assms] by (simp add: GetActiveClient_def nth_out_def)
  qed
qed

section \<open>The nodes a server starts with\<close>

lemma panicOnError_Ok [simp]: "panicOnError m w = (w', Ok x) \<longleftrightarrow> m w = (w', Ok x)"
  by (auto simp: panicOnError_def split: prod.splits outcome.splits)

lemma lift_op_Ok: "lift_op r w = (w', Ok x) \<longleftrightarrow> w' = w \<and> r = Ok x"
  by (auto simp: lift_op_def)

text \<open>The node a chain gets from its manager, as the requests leave it.\<close>

definition chain_started :: "(string \<times> Manager) list \<Rightarrow> Config \<Rightarrow> 'z pool_world_scheme \<Rightarrow> string \<Rightarrow> bool" where
  "chain_started managers config w chain \<longleftrightarrow>
     (\<exists>m c node. map_of managers chain = Some m \<and> GetActiveClient m = Ok c
        \<and> nth_out (configured_nodes config chain) (GetIndex m) = Ok node
        \<and> bn_RPC (active_node chain w) = Some c \<and> bn_ChainName (active_node chain w) = chain
        \<and> bn_RewardTo (active_node chain w) = cn_RewardTo node \<and> bn_NotifyURL (active_node chain w) = cn_NotifyURL node)"

lemma load_node_value:
  assumes "load_node config chain w = (w', Ok ())"
  obtains n where "pw_activeNodes w' = AList.update chain n (pw_activeNodes w)" "pw_rpcManagers w' = pw_rpcManagers w"
    "chain_started (pw_rpcManagers w) config w' chain"
proof -
  obtain m c node info key w1 w2 where s: "map_of (pw_rpcManagers w) chain = Some m" "GetActiveClient m = Ok c"
    "nth_out (configured_nodes config chain) (GetIndex m) = Ok node"
    "GetBlockChainInfo c w = (w1, Ok info)" "ValidateAddress c (cn_RewardTo node) w1 = (w2, Ok key)"
    "w' = w2\<lparr>pw_activeNodes := AList.update chain \<lparr>bn_NotifyURL = cn_NotifyURL node, bn_RPC = Some c,
      bn_ChainName = chain, bn_Network = bi_Chain info, bn_RewardPubScriptKey = key, bn_RewardTo = cn_RewardTo node,
      bn_NetworkDifficulty = bi_NetworkDifficulty info\<rparr> (pw_activeNodes w2)\<rparr>"
    using assms
    by (auto simp: load_node_def bind_op_Ok get_op_def put_op_def lift_op_Ok panic_op_def configured_nodes_def Let_def
        split: option.splits)
  have o: "request_order (same_part (\<lambda>w. (pw_activeNodes w, pw_rpcManagers w)))"
    by (intro keeps_request_order) (simp add: no_request_def)
  have "(pw_activeNodes w2, pw_rpcManagers w2) = (pw_activeNodes w, pw_rpcManagers w)"
    using keepsD [OF stays_rpc(6) [OF o] s(4)] keepsD [OF stays_rpc(5) [OF o] s(5)] by simp
  then show thesis
    using s by (intro that) (auto simp: chain_started_def active_node_def update_conv')
qed

lemma chain_started_update:
  "c \<noteq> chain \<Longrightarrow> pw_activeNodes w' = AList.update chain n (pw_activeNodes w)
    \<Longrightarrow> chain_started managers config w' c \<longleftrightarrow> chain_started managers config w c"
  by (simp add: chain_started_def active_node_def update_conv')

lemma load_nodes_value:
  assumes "for_op (load_node config) cs w = (w', Ok ())"
  shows "set (map fst (pw_activeNodes w')) = set (map fst (pw_activeNodes w)) \<union> set cs"
    and "\<forall>c \<in> set cs. chain_started (pw_rpcManagers w) config w' c"
    and "pw_rpcManagers w' = pw_rpcManagers w"
    and "\<And>c managers. c \<notin> set cs \<Longrightarrow> chain_started managers config w' c = chain_started managers config w c"
proof -
  have "set (map fst (pw_activeNodes w')) = set (map fst (pw_activeNodes w)) \<union> set cs
    \<and> (\<forall>c \<in> set cs. chain_started (pw_rpcManagers w) config w' c) \<and> pw_rpcManagers w' = pw_rpcManagers w
    \<and> (\<forall>c managers. c \<notin> set cs \<longrightarrow> chain_started managers config w' c = chain_started managers config w c)"
    using assms
  proof (induction cs arbitrary: w)
    case (Cons chain cs)
    then obtain w1 where w1: "load_node config chain w = (w1, Ok ())" "for_op (load_node config) cs w1 = (w', Ok ())"
      by (auto simp: bind_op_Ok)
    obtain n where n: "pw_activeNodes w1 = AList.update chain n (pw_activeNodes w)" "pw_rpcManagers w1 = pw_rpcManagers w"
      "chain_started (pw_rpcManagers w) config w1 chain"
      using w1(1) by (rule load_node_value)
    note IH = Cons.IH [OF w1(2)]
    have keys: "set (map fst (pw_activeNodes w1)) = insert chain (set (map fst (pw_activeNodes w)))"
      using n(1) by (simp add: dom_update [unfolded dom_map_of_conv_image_fst])
    have "chain_started (pw_rpcManagers w) config w' chain"
      using IH n(2,3) by (cases "chain \<in> set cs") auto
    then show ?case using IH n(2) keys chain_started_update [OF _ n(1)] by auto
  qed (simp add: return_op_def)
  then show "set (map fst (pw_activeNodes w')) = set (map fst (pw_activeNodes w)) \<union> set cs"
    "\<forall>c \<in> set cs. chain_started (pw_rpcManagers w) config w' c" "pw_rpcManagers w' = pw_rpcManagers w"
    "\<And>c managers. c \<notin> set cs \<Longrightarrow> chain_started managers config w' c = chain_started managers config w c"
    by blast+
qed

text \<open>Subscribing changes nothing, and every node's URL can be dialled when it succeeds.\<close>

lemma subscribe_Ok:
  assumes "subscribe_to_blocks Dial SetOption nodes_order w = (w', Ok ())"
  shows "w' = w" "\<forall>(chain, n) \<in> set (range_map nodes_order (pw_activeNodes w)). Dial (bn_NotifyURL (active_node chain w)) = None"
proof -
  have one: "v' = v \<and> Dial (bn_NotifyURL (active_node chain v)) = None"
    if "createZMQSubscriptionToHashBlock Dial SetOption chain v = (v', Ok ())" for chain and v v' :: "'a pool_world_scheme"
    using that by (auto simp: createZMQSubscriptionToHashBlock_def get_op_bind Let_def op_Ok split: option.splits)
  have all: "w' = w \<and> (\<forall>(chain, n) \<in> set ps. Dial (bn_NotifyURL (active_node chain w)) = None)"
    if "for_op (\<lambda>(chain, _). createZMQSubscriptionToHashBlock Dial SetOption chain) ps w = (w', Ok ())" for ps
    using that by (induction ps) (auto simp: op_Ok dest!: one)
  have "for_op (\<lambda>(chain, _). createZMQSubscriptionToHashBlock Dial SetOption chain) (range_map nodes_order (pw_activeNodes w)) w
    = (w', Ok ())" using assms by (simp add: subscribe_to_blocks_def get_op_bind)
  from all [OF this] show "w' = w" "\<forall>(chain, n) \<in> set (range_map nodes_order (pw_activeNodes w)). Dial (bn_NotifyURL (active_node chain w)) = None"
    by simp_all
qed

lemma subscribe_value:
  "(\<And>url. Dial url = None) \<Longrightarrow> (\<And>url. SetOption url = None) \<Longrightarrow> subscribe_to_blocks Dial SetOption nodes_order w = (w, Ok ())"
proof -
  assume "\<And>url. Dial url = None" "\<And>url. SetOption url = None"
  then have "for_op (\<lambda>(chain, _). createZMQSubscriptionToHashBlock Dial SetOption chain) ps w = (w, Ok ())" for ps
    by (induction ps) (auto simp: createZMQSubscriptionToHashBlock_def get_op_bind bind_op_def get_op_def return_op_def)
  then show ?thesis by (simp add: subscribe_to_blocks_def get_op_bind)
qed

text \<open>
  C24. A server that starts uses the first node of every chain. If the managers could be made
  and the start of the server succeeds, every chain of the order has a configured node, the
  active node of the chain is the first one of them, with its client, the address its reward
  goes to and a notification URL that could be dialled, no other chain has an active node, and
  no session exists yet.
\<close>

theorem start_loads_first_nodes:
  assumes managers: "makeRPCManagers ParseDuration config = Ok managers" and order: "permutes_keys nodes_order"
    and start: "Start ParseDuration scryptKey ripemd Dial SetOption managers_order sessions_order nodes_order config
      (NewServer managers w) = (w', Ok ())"
  shows "(\<forall>chain \<in> set (cf_BlockChainOrder config). \<exists>node nodes client.
      configured_nodes config chain = node # nodes \<and> first_client ParseDuration node = Ok client
      \<and> bn_RPC (active_node chain w') = Some client \<and> bn_ChainName (active_node chain w') = chain
      \<and> bn_RewardTo (active_node chain w') = cn_RewardTo node \<and> Dial (cn_NotifyURL node) = None)
    \<and> set (map fst (pw_activeNodes w')) = set (cf_BlockChainOrder config) \<and> pw_sessions w' = []"
proof -
  let ?init = "(NewServer managers w)\<lparr>pw_sessions := [], pw_activeNodes := []\<rparr>"
  obtain w1 w2 w3 where run: "for_op (load_node config) (cf_BlockChainOrder config) ?init = (w1, Ok ())"
    "fetchRpcBlockTemplatesAndCacheWork scryptKey ripemd managers_order config w1 = (w2, Ok ())"
    "broadcastWork sessions_order (pw_workCache w2 @ [WBool False]) w2 = (w3, Ok ())"
    "subscribe_to_blocks Dial SetOption nodes_order w3 = (w', Ok ())"
    using start
    by (auto simp: Start_def bind_op_Ok initiateSessions_def loadBlockchainNodes_def put_op_def get_op_def lift_op_Ok
        generateWorkFromCache_def panic_op_def split: if_splits)
  have "keeps front_of (broadcastWork sessions_order work)" for work
    unfolding broadcastWork_def notifyAllSessions_def by (intro frames keeps_front_send)
  from keepsD [OF this run(3)] have "front_of w' = front_of w1"
    using keepsD [OF keeps_front_cache run(2)] subscribe_Ok(1) [OF run(4)] by simp
  then have nodes: "pw_activeNodes w' = pw_activeNodes w1" "pw_sessions w' = pw_sessions w1"
    by (simp_all add: front_of_def)
  have "keeps pw_sessions (load_node config chain)" for chain
    unfolding load_node_def by (intro requests keeps_request_order keeps_put) (simp_all add: no_request_def)
  then have "keeps pw_sessions (for_op (load_node config) (cf_BlockChainOrder config))" by (intro frames)
  from keepsD [OF this run(1)] have sessions: "pw_sessions w' = []" using nodes by simp
  note loaded = load_nodes_value [OF run(1)]
  have keys: "set (map fst (pw_activeNodes w')) = set (cf_BlockChainOrder config)" using loaded(1) nodes by simp
  have dialled: "Dial (bn_NotifyURL (active_node chain w')) = None" if "chain \<in> set (cf_BlockChainOrder config)" for chain
  proof -
    have "set (map fst (range_map nodes_order (pw_activeNodes w'))) = set (map fst (pw_activeNodes w'))"
      using order by (simp only: range_map_keys permutes_keys_def)
    then have "chain \<in> fst ` set (range_map nodes_order (pw_activeNodes w'))" using keys that by simp
    then show ?thesis using subscribe_Ok [OF run(4)] by auto
  qed
  have "\<exists>node nodes client.
      configured_nodes config chain = node # nodes \<and> first_client ParseDuration node = Ok client
      \<and> bn_RPC (active_node chain w') = Some client \<and> bn_ChainName (active_node chain w') = chain
      \<and> bn_RewardTo (active_node chain w') = cn_RewardTo node \<and> Dial (cn_NotifyURL node) = None"
    if chain: "chain \<in> set (cf_BlockChainOrder config)" for chain
  proof -
    note made = make_managers_value [OF managers [unfolded makeRPCManagers_def]]
    obtain m where m: "MakeRPCManager ParseDuration chain (map rpc_Config (configured_nodes config chain)) ''1h'' = Ok m"
      "map_of managers chain = Some m" using made chain by auto
    have "chain_started managers config w1 chain" using loaded(2) chain by (simp add: NewServer_def)
    then obtain c node where s: "GetActiveClient m = Ok c" "nth_out (configured_nodes config chain) 0 = Ok node"
      "bn_RPC (active_node chain w1) = Some c" "bn_ChainName (active_node chain w1) = chain"
      "bn_RewardTo (active_node chain w1) = cn_RewardTo node" "bn_NotifyURL (active_node chain w1) = cn_NotifyURL node"
      using m manager_starts_first(1) [OF m(1)] by (auto simp: chain_started_def)
    moreover from s(2) obtain nodes where "configured_nodes config chain = node # nodes"
      by (cases "configured_nodes config chain") (auto simp: nth_out_def)
    moreover have "active_node chain w' = active_node chain w1" using nodes by (simp add: active_node_def)
    ultimately show ?thesis using manager_starts_first(2) [OF m(1)] dialled [OF chain] by auto
  qed
  then show ?thesis using keys sessions by blast
qed

lemma Start_run:
  assumes "for_op (load_node config) (cf_BlockChainOrder config) (w\<lparr>pw_sessions := [], pw_activeNodes := []\<rparr>) = (w1, Ok ())"
    and "fetch_templates managers_order config w1 = (w2, Ok (template, auxs))"
    and "cache_work scryptKey ripemd config template auxs w2 = (w3, Ok ())" "pw_sessions w3 = []" "sessions_order [] = []"
    and "cf_BlockChainOrder config \<noteq> []" "startBufferManager ParseDuration config = Ok interval"
    and "subscribe_to_blocks Dial SetOption nodes_order w3 = (w3, Ok ())"
  shows "Start ParseDuration scryptKey ripemd Dial SetOption managers_order sessions_order nodes_order config w = (w3, Ok ())"
  using assms
  by (simp add: Start_def initiateSessions_def loadBlockchainNodes_def put_op_def bind_op_def lift_op_def panicOnError_def
      fetchRpcBlockTemplatesAndCacheWork_def generateWorkFromCache_def get_op_def broadcastWork_def notifyAllSessions_def
      range_map_def return_op_def)

text \<open>A pool of one chain with two nodes; the first answers.\<close>

definition example_node_config :: "string \<Rightarrow> coinNodeConfig" where
  "example_node_config name = \<lparr>cn_Name = name, cn_RPC_URL = ''http://node'', cn_RPC_Username = ''u'', cn_RPC_Password = ''p'',
     cn_Timeout = ''1s'', cn_NotifyURL = ''tcp://node'', cn_RewardTo = name @ '' reward''\<rparr>"

definition example_start :: Config where
  "example_start = example_config [''litecoin'']\<lparr>cf_BlockchainNodes :=
     [(''litecoin'', [example_node_config ''first'', example_node_config ''second''])]\<rparr>"

definition example_answers :: "http_reply list" where
  "example_answers = [ok_reply (RawInfo \<lparr>bi_Chain = ''main'', bi_NetworkDifficulty = 1\<rparr>), ok_reply (RawAddress ''''),
     ok_reply (RawTemplate example_template)]"

theorem start_loads_first_nodes_witness:
  "\<exists>managers w'. makeRPCManagers (\<lambda>_. Ok 1) example_start = Ok managers
    \<and> Start (\<lambda>_. Ok 1) five (\<lambda>_. replicate 20 7) (\<lambda>_. None) (\<lambda>_. None) (\<lambda>ks. ks) (\<lambda>ks. ks) rev example_start
        (NewServer managers (example_pool [] example_answers \<lparr>pair_BitcoinBlock = empty_block, pair_AuxBlocks = []\<rparr>)) = (w', Ok ())
    \<and> map_option rpc_Name (bn_RPC (active_node ''litecoin'' w')) = Some ''first''
    \<and> bn_RewardTo (active_node ''litecoin'' w') = ''first reward'' \<and> pw_sessions w' = []"
proof -
  let ?pd = "\<lambda>_ :: string. Ok 1 :: int outcome" and ?ripemd = "\<lambda>_ :: bytes. replicate 20 7 :: bytes"
  let ?client = "\<lambda>name. \<lparr>rpc_NodeUrl = ''http://u:p@node'', rpc_Name = name, rpc_Timeout = 1\<rparr> :: RPCClient"
  let ?manager = "\<lparr>mg_chainName = ''litecoin'', mg_activeIndex = 0, mg_clients = [?client ''first'', ?client ''second''],
      mg_primaryCheckInterval = 1\<rparr>"
  let ?w = "example_pool [] example_answers \<lparr>pair_BitcoinBlock = empty_block, pair_AuxBlocks = []\<rparr>"
  have order: "cf_BlockChainOrder example_start = [''litecoin'']" "cf_BlockSignature example_start = ''/pool/''"
    by (simp_all add: example_start_def example_config_def)
  have managers: "makeRPCManagers ?pd example_start = Ok [(''litecoin'', ?manager)]" by code_simp
  let ?node = "\<lparr>bn_NotifyURL = ''tcp://node'', bn_RPC = Some (?client ''first''), bn_ChainName = ''litecoin'', bn_Network = ''main'',
      bn_RewardPubScriptKey = '''', bn_RewardTo = ''first reward'', bn_NetworkDifficulty = 1\<rparr>"
  let ?ask = "\<lambda>method ps. (''first'', method, ps)"
  let ?init = "(NewServer [(''litecoin'', ?manager)] ?w)\<lparr>pw_sessions := [], pw_activeNodes := []\<rparr>"
  let ?loaded = "?init\<lparr>pw_activeNodes := [(''litecoin'', ?node)], rw_replies := [ok_reply (RawTemplate example_template)],
      rw_log := [?ask ''getblockchaininfo'' [], ?ask ''validateaddress'' [PString ''first reward'']]\<rparr>"
  let ?fetched = "?loaded\<lparr>rw_replies := [], rw_log := [?ask ''getblockchaininfo'' [], ?ask ''validateaddress'' [PString ''first reward''],
      ?ask ''getblocktemplate'' [PRules]]\<rparr>"
  have nodes: "cf_BlockchainNodes example_start = [(''litecoin'', [example_node_config ''first'', example_node_config ''second''])]"
    by (simp add: example_start_def)
  have loaded: "for_op (load_node example_start) [''litecoin''] ?init = (?loaded, Ok ())"
    by (simp add: load_node_def op_simps get_op_def put_op_def lift_op_def bind_op_def return_op_def nodes GetActiveClient_def
        GetIndex_def nth_out_def panicOnError_def GetBlockChainInfo_def ValidateAddress_def doRequest_def example_answers_def
        ok_reply_def NewServer_def example_node_config_def unmarshal_with_def)
  have fetched: "fetch_templates (\<lambda>ks. ks) example_start ?loaded = (?fetched, Ok (example_template, []))"
    by (simp add: fetch_templates_def try_op_def fetchAllBlockTemplatesFromRPC_def GetPrimaryNode_def GetPrimary_def order
        get_op_def lift_op_def bind_op_def return_op_def nth_out_def active_node_def map_err_op_def GetBlockTemplate_def request_200_def
        doRequest_def ok_reply_def unmarshal_with_def)
  obtain sig where sig: "createMergedMiningCoinbase [] 0 = Ok sig" "hexStringToByteString sig = Ok (aux_commitment [])"
    using aux_commitment_value [of "[]"] by auto
  have chain: "GetChain five ''litecoin'' = Ok (Litecoin five)" by (simp add: GetChain_def)
  have key: "bn_RewardPubScriptKey (active_node ''litecoin'' ?fetched) = ''''" by (simp add: active_node_def)
  obtain b work where "GenerateWork five ?ripemd (pw_jobCounter ?fetched) (Some (example_template\<lparr>tpl_AuxBlocks := []\<rparr>)) ''litecoin''
      (''/pool/'' @ aux_commitment []) '''' 8 = Ok (pw_jobCounter ?fetched + 1, b, work)"
    by (rule GenerateWork_block [OF example_serves chain])
  then have work: "GenerateWork five ?ripemd (pw_jobCounter ?fetched) (Some (example_template\<lparr>tpl_AuxBlocks := []\<rparr>)) ''litecoin''
      (cf_BlockSignature example_start @ aux_commitment []) (bn_RewardPubScriptKey (active_node ''litecoin'' ?fetched)) 8
    = Ok (pw_jobCounter ?fetched + 1, b, work)" unfolding order(2) key .
  obtain w3 where w3: "cache_work five ?ripemd example_start example_template [] ?fetched = (w3, Ok ())" "pw_sessions w3 = []"
    using cache_work_run [OF sig order(1) work] by simp
  have start: "Start ?pd five ?ripemd (\<lambda>_. None) (\<lambda>_. None) (\<lambda>ks. ks) (\<lambda>ks. ks) rev example_start (NewServer [(''litecoin'', ?manager)] ?w) = (w3, Ok ())"
    by (rule Start_run [OF loaded [folded order(1)] fetched w3])
      (simp_all add: order startBufferManager_def mustParseDuration_def subscribe_value)
  from start_loads_first_nodes [OF managers permutes_keys_examples(2) start]
  obtain n ns c where "configured_nodes example_start ''litecoin'' = n # ns" "first_client ?pd n = Ok c"
    "bn_RPC (active_node ''litecoin'' w3) = Some c" "bn_RewardTo (active_node ''litecoin'' w3) = cn_RewardTo n" "pw_sessions w3 = []"
    using order by auto
  moreover have "first_client ?pd (example_node_config ''first'') = Ok (?client ''first'')" by code_simp
  ultimately show ?thesis
    using managers start by (auto simp: configured_nodes_def nodes example_node_config_def)
qed

end
