(* ===== verification/Spec2Isabelle.thy ===== *)
theory Spec2Isabelle
  imports ApiFacts AuxPow Target Payments Sessions LegacyRpc Logger StatsFacts Startup
begin

text \<open>
  A model of the merged mining pool in \<open>src\<close>, with the theorems that say what it does.

  \<^bold>\<open>The program.\<close> The pool fetches block templates from the nodes of a parent chain and of
  auxiliary chains, builds the parent's coinbase with a commitment to the auxiliary blocks, sends
  the work to miners over the stratum protocol, weighs the shares they return, submits candidate
  blocks to every chain whose target they meet, and pays the miners by the shares stored in its
  database. Beside the server run a service that computes statistics, one that confirms blocks and
  pays, and an HTTP API that shows both.

  \<^bold>\<open>How Go is modelled.\<close> A call ends in \<open>Ok\<close>, \<open>Err\<close> (a returned error) or \<open>Panic\<close>
  (\<open>Prelude.outcome\<close>). Stateful code is a function of the state that returns the new state beside the
  outcome (\<open>Database.op\<close>), so that what an error path leaves behind is visible. Machine integers
  are words, \<open>float64\<close> and \<open>float32\<close> rationals that every operation rounds (\<open>GoFloat\<close>), maps association
  lists whose \<open>range\<close> order is an argument. Code that is not under \<open>src\<close> is an argument (scrypt,
  RIPEMD-160, \<open>time.ParseDuration\<close>, file access, \<open>fmt.Sprintf\<close> of the logger) or a script in the state: the
  nodes' replies, the database driver's faults, the outcome of writes to connections, random
  numbers, session ids, the clock. Where goroutines interleave there is a step relation.

  \<^bold>\<open>Theories and sources.\<close>
  \<^item> \<open>Prelude\<close>, \<open>GoFloat\<close>, \<open>FloatBounds\<close>, \<open>Sha256\<close>: the part of Go and its library that is used.
  \<^item> \<open>Encoding\<close>, \<open>Template\<close>, \<open>Merkle\<close>, \<open>Coinbase\<close>, \<open>Chains\<close>, \<open>Generator\<close>, \<open>AuxPow\<close>, \<open>Target\<close>, \<open>LegacyRpc\<close>:
    \<open>src/bitcoin\<close> (with \<open>src/utils/byte.go\<close>, \<open>hash.go\<close>, the commitment of \<open>src/pool/work.go\<close> and the
    weighing of \<open>src/pool/share.go\<close>). Each coin is an interpretation of the locale \<open>blockchain\<close>, double
    SHA-256 one of the locale \<open>block_hash\<close> in which Merkle trees are specified.
  \<^item> \<open>Database\<close>, \<open>Balances\<close>, \<open>Ledger\<close>, \<open>Shares\<close>, \<open>Blocks\<close>, \<open>Stats\<close>, \<open>StatsFacts\<close>: \<open>src/persistence\<close>. \<open>AddAmount\<close>
    and the recording of a payment are the two interpretations of the locale \<open>ledger\<close>, from which the
    payout code's series of credits and debits is reasoned about.
  \<^item> \<open>Rpc\<close>, \<open>Failover\<close>: \<open>src/rpc\<close>; the manager as a transition system is in \<open>Failover\<close>.
  \<^item> \<open>Config\<close>: \<open>src/config\<close>. \<open>Startup\<close>: \<open>src/main.go\<close>, \<open>src/persistence/persister.go\<close> and \<open>NewServer\<close>,
    \<open>Start\<close> of \<open>src/pool/server.go\<close>. \<open>Logger\<close>: \<open>src/utils/logger.go\<close>.
  \<^item> \<open>PoolServer\<close>, \<open>Receive\<close>, \<open>ShareBuffer\<close>, \<open>Submission\<close>, \<open>Stratum\<close>, \<open>Sessions\<close>: \<open>src/pool\<close>. \<open>PoolServer\<close> holds
    the server's state, \<open>Receive\<close> the handler of a submission, \<open>ShareBuffer\<close> its interleaving with
    the flush, \<open>Stratum\<close> the protocol's methods, \<open>Sessions\<close> the server as a step relation.
  \<^item> \<open>Payouts\<close>, \<open>Rewards\<close>, \<open>Payer\<close>, \<open>Payments\<close>: \<open>src/payouts\<close>.
  \<^item> \<open>Hashrate\<close>, \<open>Api\<close>, \<open>ApiFacts\<close>: \<open>src/api\<close>.

  \<^bold>\<open>What is proved.\<close>
  \<^item> Work and blocks: the coinbase, the header and the submitted block are read back by references
    of the protocol's formats; the branch leads to the root of the Merkle tree over all
    transactions; work that the server served is judged by the hash of the header that a miner's
    nonce completes; a share is a candidate for exactly the chains whose target it meets.
  \<^item> Merged mining: the branch of an auxiliary block verifies against the root of its tree, and the
    proof the code builds is for a smaller tree than the one the coinbase commits to.
  \<^item> Shares: however handlers, flushes and failing batches interleave, every share is in exactly one
    place, and a calm flush stores all of them.
  \<^item> Connections: extranonces never collide, sessions are authorised, the connection slots are used
    up; a server starts with the first node of every chain.
  \<^item> Money: the ledger's invariant, what each payout scheme credits, what a payout settles and what a
    failure in its middle leaves to be paid again.
  \<^item> Nodes: the round robin search, the invariant of the manager while its calls do not overlap and
    the run that breaks it when they do.
  \<^item> Statistics and API: a round writes a row for every worker, the history shows each hour in its
    place, the dashboard answers, the range of hashrates that can be shown.
  \<^item> Errors: malformed and replayed submissions, outages of auxiliary nodes, rejected parents,
    shared sessions, reports without their pending shares.

  \<^bold>\<open>Bounds and termination.\<close> \<open>page_loop\<close> of the payout schemes has one unit of fuel per page; running out
  is a panic of its own, and \<open>UpdateMinerBalances_returns\<close> shows that the fuel given is enough.
  \<open>find_healthy\<close> asks each of the manager's nodes at most once. The search for an unused extranonce may
  not end: \<open>unique_loop\<close> is a partial function and \<open>uniqueExtranonce_returns\<close> says exactly when it does.
  The endless loops of the services are modelled by one round each.

  \<^bold>\<open>Not modelled.\<close> Sockets, their deadlines and the transport of ZeroMQ, of which the set-up and the received
  message are; the text of JSON, a message being the value it decodes to or the decoder's error; SQL beyond
  what the statements of \<open>src/persistence\<close> use, translated by hand; the log lines of the other
  components, which no component reads; the scheduler beyond the step relations named above; the
  memory statistics that the main goroutine prints.
\<close>

end
